(* ===== verification/Prelude.thy ===== *)
theory Prelude
  imports Complex_Main "HOL-Library.AList" "HOL-Library.Multiset" "HOL-Library.Sublist"
    "HOL-Library.List_Lexorder" "HOL-Library.Char_ord"
begin

text \<open>
  What every component of the development shares: the collections of simplification facts, the
  result type of code that may raise, Python's insertion-ordered dictionaries, Python's stable
  descending sort, and the vocabulary for exceptions.

  A Python \<open>str\<close> is a HOL \<open>string\<close>, a list of code points below 256; every operation of the
  source treats code points one at a time, so nothing depends on the bound. A Python \<open>int\<close> is an
  \<open>int\<close>. A finite Python \<open>float\<close> is the rational number it denotes; where the source computes with
  floats, the rounding of each operation is written out as an argument \<open>fl\<close> of the definition.
\<close>

named_theorems py_simps \<open>evaluation of the Python string and dictionary operations\<close>
named_theorems guard_simps \<open>how each operation changes the per-request budget guard\<close>
named_theorems trace_simps \<open>how each operation extends the record of calls it made\<close>

section \<open>Exceptions\<close>

text \<open>
  The exceptions the modelled code raises or branches on. \<open>Cancelled\<close> is
  \<open>asyncio.CancelledError\<close>, the one that is not an \<open>Exception\<close>: an \<open>except Exception\<close>
  handler lets it through. \<open>OtherError\<close> carries the class name and the message of any other.
\<close>

datatype exn =
    BudgetExceeded int int
  | ValueError string
  | TypeError string
  | KeyError string
  | ArithmeticError string
  | RuntimeError string
  | TimeoutError
  | GraphRecursionError string
  | ValidationError string
  | DependencyUnavailable string
  | Cancelled
  | McpError int string
  | OtherError string string

text \<open>\<open>except Exception\<close> catches everything but a cancellation.\<close>

fun is_exception :: "exn \<Rightarrow> bool" where
  "is_exception Cancelled = False"
| "is_exception _ = True"

section \<open>Results\<close>

type_synonym 'a res = "exn + 'a"

definition bind_res :: "'a res \<Rightarrow> ('a \<Rightarrow> 'b res) \<Rightarrow> 'b res" where
  "bind_res r f = (case r of Inl e \<Rightarrow> Inl e | Inr a \<Rightarrow> f a)"

lemma bind_res_simps [simp]:
  "bind_res (Inl e) f = Inl e" "bind_res (Inr a) f = f a"
  by (simp_all add: bind_res_def)

lemma bind_res_eq_Inr: "bind_res r f = Inr b \<longleftrightarrow> (\<exists>a. r = Inr a \<and> f a = Inr b)"
  by (cases r) auto

text \<open>The loop that stops at the first exception, as a Python comprehension does.\<close>

fun map_res :: "('a \<Rightarrow> 'b res) \<Rightarrow> 'a list \<Rightarrow> 'b list res" where
  "map_res f [] = Inr []"
| "map_res f (x # xs) =
     (case f x of Inl e \<Rightarrow> Inl e
      | Inr y \<Rightarrow> (case map_res f xs of Inl e \<Rightarrow> Inl e | Inr ys \<Rightarrow> Inr (y # ys)))"

lemma map_res_length: "map_res f xs = Inr ys \<Longrightarrow> length ys = length xs"
  by (induction xs arbitrary: ys) (auto split: sum.splits)

lemma map_res_nth: "map_res f xs = Inr ys \<Longrightarrow> i < length xs \<Longrightarrow> f (xs ! i) = Inr (ys ! i)"
proof (induction xs arbitrary: ys i)
  case (Cons x xs)
  then show ?case by (cases i) (auto split: sum.splits)
qed simp

lemma map_res_Inr_map: "(\<And>x. x \<in> set xs \<Longrightarrow> f x = Inr (g x)) \<Longrightarrow> map_res f xs = Inr (map g xs)"
  by (induction xs) auto

section \<open>Dictionaries\<close>

text \<open>
  A Python \<open>dict\<close> keeps insertion order: storing under a present key replaces the value in place,
  storing under a new key appends. An association list with distinct keys is exactly that.
\<close>

type_synonym ('k, 'v) dict = "('k \<times> 'v) list"

definition dict_ok :: "('k, 'v) dict \<Rightarrow> bool" where
  "dict_ok d \<longleftrightarrow> distinct (map fst d)"

definition dict_get :: "('k, 'v) dict \<Rightarrow> 'k \<Rightarrow> 'v option" where
  "dict_get d k = map_of d k"

definition dict_set :: "'k \<Rightarrow> 'v \<Rightarrow> ('k, 'v) dict \<Rightarrow> ('k, 'v) dict" where
  "dict_set k v d = AList.update k v d"

definition dict_keys :: "('k, 'v) dict \<Rightarrow> 'k list" where
  "dict_keys d = map fst d"

text \<open>\<open>{**a, **b}\<close>: every entry of \<open>b\<close> stored into \<open>a\<close> in order.\<close>

definition dict_merge :: "('k, 'v) dict \<Rightarrow> ('k, 'v) dict \<Rightarrow> ('k, 'v) dict" where
  "dict_merge a b = fold (\<lambda>(k, v). dict_set k v) b a"

lemma dict_get_empty [simp, py_simps]: "dict_get [] k = None"
  by (simp add: dict_get_def)

lemma dict_get_Cons [simp, py_simps]:
  "dict_get ((k, v) # d) k' = (if k' = k then Some v else dict_get d k')"
  by (simp add: dict_get_def)

lemma dict_get_set [simp]:
  "dict_get (dict_set k v d) k' = (if k' = k then Some v else dict_get d k')"
  by (simp add: dict_get_def dict_set_def update_conv')

lemma dict_set_simps [py_simps]:
  "dict_set k v [] = [(k, v)]"
  "dict_set k v (p # d) = (if fst p = k then (k, v) # d else p # dict_set k v d)"
  by (simp_all add: dict_set_def)

lemma dict_ok_empty [simp]: "dict_ok []"
  by (simp add: dict_ok_def)

lemma dict_ok_set [simp, intro]: "dict_ok d \<Longrightarrow> dict_ok (dict_set k v d)"
  by (simp add: dict_ok_def dict_set_def distinct_update)

lemma dict_keys_set: "set (dict_keys (dict_set k v d)) = insert k (set (dict_keys d))"
  by (simp add: dict_keys_def dict_set_def dom_update)

lemma dict_get_dom: "dict_get d k = None \<longleftrightarrow> k \<notin> set (dict_keys d)"
  by (simp add: dict_get_def dict_keys_def map_of_eq_None_iff)

lemma dict_get_in_keys: "dict_get d k = Some v \<Longrightarrow> k \<in> set (dict_keys d)"
  using dict_get_dom [of d k] by auto

lemma dict_get_mem: "dict_ok d \<Longrightarrow> dict_get d k = Some v \<longleftrightarrow> (k, v) \<in> set d"
  by (simp add: dict_ok_def dict_get_def)

lemma dict_merge_ok: "dict_ok a \<Longrightarrow> dict_ok (dict_merge a b)"
  unfolding dict_merge_def by (induction b arbitrary: a) auto

lemma dict_merge_Nil [simp]: "dict_merge a [] = a"
  by (simp add: dict_merge_def)

lemma dict_merge_Cons: "dict_merge a ((k, v) # b) = dict_merge (dict_set k v a) b"
  by (simp add: dict_merge_def)

lemma dict_get_merge:
  "dict_ok b \<Longrightarrow>
     dict_get (dict_merge a b) k = (case dict_get b k of Some v \<Rightarrow> Some v | None \<Rightarrow> dict_get a k)"
proof (induction b arbitrary: a)
  case Nil
  then show ?case by simp
next
  case (Cons p b)
  obtain k' v where p: "p = (k', v)" by (cases p)
  from Cons.prems p have ok: "dict_ok b" and new: "dict_get b k' = None"
    by (auto simp: dict_ok_def dict_get_def map_of_eq_None_iff)
  show ?case
    using Cons.IH [OF ok, of "dict_set k' v a"] new
    by (auto simp: p dict_merge_Cons split: option.splits)
qed

lemma dict_keys_Nil [simp, py_simps]: "dict_keys [] = []"
  by (simp add: dict_keys_def)

lemma dict_keys_Cons [simp, py_simps]: "dict_keys (p # d) = fst p # dict_keys d"
  by (simp add: dict_keys_def)

lemma dict_keys_merge: "set (dict_keys (dict_merge a b)) = set (dict_keys a) \<union> set (dict_keys b)"
proof (induction b arbitrary: a)
  case (Cons p b)
  then show ?case by (cases p) (auto simp: dict_merge_Cons dict_keys_set)
qed simp

text \<open>Building a dictionary from pairs with distinct keys gives those pairs.\<close>

lemma dict_set_new: "k \<notin> set (dict_keys d) \<Longrightarrow> dict_set k v d = d @ [(k, v)]"
  by (induction d) (auto simp: dict_set_simps)

lemma dict_merge_fresh:
  "dict_ok b \<Longrightarrow> set (dict_keys a) \<inter> set (dict_keys b) = {} \<Longrightarrow> dict_merge a b = a @ b"
proof (induction b arbitrary: a)
  case (Cons p b)
  obtain k v where p: "p = (k, v)" by (cases p)
  have "dict_merge (a @ [(k, v)]) b = (a @ [(k, v)]) @ b"
    using Cons.prems by (intro Cons.IH) (auto simp: p dict_ok_def dict_keys_def)
  then show ?case
    using Cons.prems by (simp add: p dict_merge_Cons dict_set_new)
qed simp

lemma dict_merge_self [simp]: "dict_ok d \<Longrightarrow> dict_merge [] d = d"
  by (simp add: dict_merge_fresh)

section \<open>Sorting\<close>

text \<open>
  \<open>sorted(xs, key=f, reverse=True)\<close> is stable: equal keys keep their order. So it is the stable
  ascending sort by the negated key.
\<close>

definition sort_desc :: "('a \<Rightarrow> rat) \<Rightarrow> 'a list \<Rightarrow> 'a list" where
  "sort_desc f xs = sort_key (\<lambda>x. - f x) xs"

lemma set_sort_desc [simp]: "set (sort_desc f xs) = set xs"
  by (simp add: sort_desc_def)

lemma mset_sort_desc [simp]: "mset (sort_desc f xs) = mset xs"
  by (simp add: sort_desc_def)

lemma length_sort_desc [simp]: "length (sort_desc f xs) = length xs"
  by (simp add: sort_desc_def)

lemma distinct_sort_desc [simp]: "distinct (sort_desc f xs) = distinct xs"
  by (simp add: sort_desc_def)

lemma sorted_sort_desc: "sorted_wrt (\<lambda>x y. f x \<ge> f y) (sort_desc f xs)"
proof -
  have "sorted (map (\<lambda>x. - f x) (sort_desc f xs))"
    by (simp add: sort_desc_def)
  then show ?thesis by (simp add: sorted_map)
qed

lemma sort_desc_stable: "filter (\<lambda>y. f y = c) (sort_desc f xs) = filter (\<lambda>y. f y = c) xs"
proof -
  have "filter (\<lambda>y. - f y = - c) (sort_key (\<lambda>x. - f x) xs) = filter (\<lambda>y. - f y = - c) xs"
    using sort_key_stable [of "\<lambda>x. - f x" "- c" xs] by simp
  then show ?thesis by (simp add: sort_desc_def)
qed

text \<open>Sorting a dictionary by its keys does not depend on the insertion order.\<close>

lemma sort_key_fst_cong:
  assumes "mset xs = mset ys" and "distinct (map fst xs)"
  shows "sort_key fst xs = sort_key fst (ys :: ('k::linorder \<times> 'v) list)"
proof (rule map_sorted_distinct_set_unique [where f = fst])
  have "mset (map fst xs) = mset (map fst ys)" using assms(1) by simp
  then have d: "distinct (map fst ys)" using assms(2) mset_eq_imp_distinct_iff by blast
  have same: "set xs = set ys" using assms(1) by (rule mset_eq_setD)
  show "inj_on fst (set (sort_key fst xs) \<union> set (sort_key fst ys))"
    using assms(2) same by (simp add: distinct_map)
  show "distinct (map fst (sort_key fst xs))"
    using assms(2) by (simp add: distinct_map)
  show "distinct (map fst (sort_key fst ys))"
    using d by (simp add: distinct_map)
  show "set (sort_key fst xs) = set (sort_key fst ys)"
    using same by simp
qed simp_all

section \<open>Lists\<close>

lemma take_map_fst: "map fst (take n xs) = take n (map fst xs)"
  by (simp add: take_map)

lemma prefix_take [simp]: "prefix (take n xs) xs"
  by (simp add: take_is_prefix)

section \<open>Floats\<close>

text \<open>A float that may be no number, where the code tests for it.\<close>

datatype fval = Num rat | NaN

text \<open>\<open>round\<close> to an integer: half goes to the even neighbour.\<close>

definition py_round :: "rat \<Rightarrow> int" where
  "py_round x =
     (let f = \<lfloor>x\<rfloor>; d = x - of_int f
      in if d < 1 / 2 then f else if 1 / 2 < d then f + 1 else if even f then f else f + 1)"

lemma py_round_mono: "x \<le> y \<Longrightarrow> py_round x \<le> py_round y"
proof -
  assume le: "x \<le> y"
  have lo: "\<lfloor>z\<rfloor> \<le> py_round z" and hi: "py_round z \<le> \<lfloor>z\<rfloor> + 1" for z by (simp_all add: py_round_def Let_def)
  show ?thesis
  proof (cases "\<lfloor>x\<rfloor> = \<lfloor>y\<rfloor>")
    case True
    then show ?thesis using le by (simp add: py_round_def Let_def)
  next
    case False
    then have "\<lfloor>x\<rfloor> + 1 \<le> \<lfloor>y\<rfloor>" using floor_mono [OF le] by simp
    then show ?thesis using hi [of x] lo [of y] by linarith
  qed
qed

end
