(* ===== verification/PyText.thy ===== *)
theory PyText
  imports Prelude
begin

text \<open>
  The Python \<open>str\<close> operations the source uses: substring test, prefix test, \<open>removeprefix\<close>,
  \<open>partition\<close>, \<open>rsplit(sep, 1)\<close>, \<open>strip\<close>, \<open>lower\<close>, \<open>join\<close>, decimal rendering of integers and
  its inverse. Case mapping is that of ASCII, white space that of Latin-1.
\<close>

section \<open>Searching\<close>

fun starts_with :: "string \<Rightarrow> string \<Rightarrow> bool" where
  "starts_with s [] = True"
| "starts_with [] (p # ps) = False"
| "starts_with (c # s) (p # ps) = (c = p \<and> starts_with s ps)"

lemma starts_with_prefix: "starts_with s p \<longleftrightarrow> prefix p s"
  by (induction s p rule: starts_with.induct) auto

lemma starts_with_append [simp]: "starts_with (p @ s) p"
  by (simp add: starts_with_prefix)

definition removeprefix :: "string \<Rightarrow> string \<Rightarrow> string" where
  "removeprefix p s = (if starts_with s p then drop (length p) s else s)"

lemma removeprefix_append [simp]: "removeprefix p (p @ s) = s"
  by (simp add: removeprefix_def)

text \<open>\<open>sub in s\<close>.\<close>

fun contains :: "string \<Rightarrow> string \<Rightarrow> bool" where
  "contains [] sub = (sub = [])"
| "contains (c # s) sub = (starts_with (c # s) sub \<or> contains s sub)"

lemma contains_sublist: "contains s sub \<longleftrightarrow> sublist sub s"
proof (induction s)
  case (Cons c s)
  then show ?case by (simp add: starts_with_prefix sublist_Cons_right)
qed simp

lemma contains_append [simp]: "contains (a @ sub @ b) sub"
  by (simp add: contains_sublist sublist_def) blast

text \<open>\<open>s.partition(sep)\<close>: the text before the first occurrence of \<open>sep\<close> and the text after it.\<close>

fun partition_at :: "string \<Rightarrow> string \<Rightarrow> (string \<times> string) option" where
  "partition_at sep [] = (if sep = [] then Some ([], []) else None)"
| "partition_at sep (c # s) =
     (if starts_with (c # s) sep then Some ([], drop (length sep) (c # s))
      else map_option (\<lambda>(a, b). (c # a, b)) (partition_at sep s))"

lemma partition_at_split: "partition_at sep s = Some (a, b) \<Longrightarrow> s = a @ sep @ b"
proof (induction s arbitrary: a)
  case Nil
  then show ?case by (auto split: if_splits)
next
  case (Cons c s)
  show ?case
  proof (cases "starts_with (c # s) sep")
    case True
    then obtain t where t: "c # s = sep @ t" by (auto simp: starts_with_prefix prefix_def)
    from Cons.prems True have "a = []" and "b = drop (length sep) (c # s)" by auto
    with t show ?thesis by simp
  next
    case False
    with Cons show ?thesis by auto
  qed
qed

lemma partition_at_None: "partition_at sep s = None \<longleftrightarrow> \<not> contains s sep"
  by (induction s) auto

lemma partition_at_here [simp]: "sep \<noteq> [] \<Longrightarrow> partition_at sep (sep @ b) = Some ([], b)"
  by (cases sep) (simp_all add: starts_with_prefix)

text \<open>\<open>s.rsplit(sep, 1)\<close>: split at the last occurrence of \<open>sep\<close>.\<close>

fun rsplit1 :: "string \<Rightarrow> string \<Rightarrow> (string \<times> string) option" where
  "rsplit1 sep [] = (if sep = [] then Some ([], []) else None)"
| "rsplit1 sep (c # s) =
     (case rsplit1 sep s of
        Some (a, b) \<Rightarrow> Some (c # a, b)
      | None \<Rightarrow> (if starts_with (c # s) sep then Some ([], drop (length sep) (c # s)) else None))"

lemma rsplit1_None: "rsplit1 sep s = None \<longleftrightarrow> \<not> contains s sep"
  by (induction s) (auto split: option.splits)

lemma rsplit1_split: "rsplit1 sep s = Some (a, b) \<Longrightarrow> s = a @ sep @ b"
proof (induction s arbitrary: a)
  case Nil
  then show ?case by (auto split: if_splits)
next
  case (Cons c s)
  show ?case
  proof (cases "rsplit1 sep s")
    case None
    with Cons.prems have st: "starts_with (c # s) sep" and "a = []" "b = drop (length sep) (c # s)"
      by (auto split: if_splits)
    moreover from st obtain t where "c # s = sep @ t" by (auto simp: starts_with_prefix prefix_def)
    ultimately show ?thesis by auto
  next
    case (Some p)
    obtain a' b' where "p = (a', b')" by (cases p)
    with Cons Some show ?thesis by auto
  qed
qed

lemma rsplit1_prepend: "rsplit1 sep s = Some (a, b) \<Longrightarrow> rsplit1 sep (t @ s) = Some (t @ a, b)"
  by (induction t) simp_all

text \<open>
  The last occurrence is the separator itself when what follows it has no occurrence of the
  separator and cannot complete one that starts inside it.
\<close>

lemma rsplit1_at:
  assumes sep: "sep \<noteq> []" and here: "rsplit1 sep (sep @ b) = Some ([], b)"
  shows "rsplit1 sep (a @ sep @ b) = Some (a, b)"
  using rsplit1_prepend [OF here, of a] by simp

section \<open>Case, white space, joining\<close>

definition lower_char :: "char \<Rightarrow> char" where
  "lower_char c =
     (let n = of_char c :: nat in if 65 \<le> n \<and> n \<le> 90 then char_of (n + 32) else c)"

definition lower :: "string \<Rightarrow> string" where
  "lower s = map lower_char s"

lemma lower_append: "lower (a @ b) = lower a @ lower b"
  by (simp add: lower_def)

lemma lower_char_idem: "lower_char (lower_char c) = lower_char c"
proof (cases "65 \<le> (of_char c :: nat) \<and> (of_char c :: nat) \<le> 90")
  case True
  then have "(of_char (char_of (of_char c + 32 :: nat)) :: nat) = of_char c + 32"
    by (simp add: of_char_of)
  with True show ?thesis by (simp add: lower_char_def Let_def)
qed (auto simp: lower_char_def Let_def)

lemma lower_idem: "lower (lower s) = lower s"
  by (simp add: lower_def lower_char_idem)

definition is_space :: "char \<Rightarrow> bool" where
  "is_space c \<longleftrightarrow> c \<in> {CHR '' '', CHR 0x09, CHR 0x0A, CHR 0x0B, CHR 0x0C, CHR 0x0D, CHR 0x1C, CHR 0x1D,
     CHR 0x1E, CHR 0x1F, CHR 0x85, CHR 0xA0}"

definition strip :: "string \<Rightarrow> string" where
  "strip s = rev (dropWhile is_space (rev (dropWhile is_space s)))"

fun join :: "string \<Rightarrow> string list \<Rightarrow> string" where
  "join sep [] = []"
| "join sep [x] = x"
| "join sep (x # y # ys) = x @ sep @ join sep (y # ys)"

lemma join_Cons: "join sep (x # xs) = (if xs = [] then x else x @ sep @ join sep xs)"
  by (cases xs) simp_all

text \<open>\<open>str.rstrip(c)\<close> with one character.\<close>

definition rstrip_char :: "char \<Rightarrow> string \<Rightarrow> string" where
  "rstrip_char c s = rev (dropWhile (\<lambda>x. x = c) (rev s))"

lemma rstrip_char_idem: "rstrip_char c (rstrip_char c s) = rstrip_char c s"
  by (simp add: rstrip_char_def dropWhile_idem)

lemma rstrip_char_last: "rstrip_char c s \<noteq> [] \<Longrightarrow> last (rstrip_char c s) \<noteq> c"
  unfolding rstrip_char_def using hd_dropWhile [of "\<lambda>x. x = c" "rev s"] by (simp add: last_rev)

section \<open>Decimal numerals\<close>

definition digit_char :: "nat \<Rightarrow> char" where
  "digit_char d = char_of (48 + d)"

definition digit_val :: "char \<Rightarrow> nat option" where
  "digit_val c = (let n = of_char c :: nat in if 48 \<le> n \<and> n \<le> 57 then Some (n - 48) else None)"

definition is_digit :: "char \<Rightarrow> bool" where
  "is_digit c \<longleftrightarrow> digit_val c \<noteq> None"

lemma digit_val_char [simp]: "d < 10 \<Longrightarrow> digit_val (digit_char d) = Some d"
  by (simp add: digit_val_def digit_char_def of_char_of)

lemma is_digit_char [simp]: "d < 10 \<Longrightarrow> is_digit (digit_char d)"
  by (simp add: is_digit_def)

fun nat_str :: "nat \<Rightarrow> string" where
  "nat_str n = (if n < 10 then [digit_char n] else nat_str (n div 10) @ [digit_char (n mod 10)])"

declare nat_str.simps [simp del]

definition int_str :: "int \<Rightarrow> string" where
  "int_str i = (if i < 0 then CHR ''-'' # nat_str (nat (- i)) else nat_str (nat i))"

text \<open>\<open>s.isdigit()\<close> and the value of a run of digits, read left to right.\<close>

definition isdigit :: "string \<Rightarrow> bool" where
  "isdigit s \<longleftrightarrow> s \<noteq> [] \<and> list_all is_digit s"

fun digits_val :: "nat \<Rightarrow> string \<Rightarrow> nat" where
  "digits_val acc [] = acc"
| "digits_val acc (c # s) = digits_val (10 * acc + (case digit_val c of Some d \<Rightarrow> d | None \<Rightarrow> 0)) s"

definition str_nat :: "string \<Rightarrow> nat option" where
  "str_nat s = (if isdigit s then Some (digits_val 0 s) else None)"

lemma digits_val_append: "digits_val acc (s @ t) = digits_val (digits_val acc s) t"
  by (induction s arbitrary: acc) simp_all

lemma nat_str_digits: "list_all is_digit (nat_str n)"
proof (induction n rule: nat_str.induct)
  case (1 n)
  then show ?case by (cases "n < 10") (simp_all add: nat_str.simps [of n])
qed

lemma nat_str_nonempty [simp]: "nat_str n \<noteq> []"
  by (simp add: nat_str.simps [of n])

lemma isdigit_nat_str [simp]: "isdigit (nat_str n)"
  by (simp add: isdigit_def nat_str_digits)

lemma digits_val_nat_str: "digits_val 0 (nat_str n) = n"
proof (induction n rule: nat_str.induct)
  case (1 n)
  then show ?case
    by (cases "n < 10") (simp_all add: nat_str.simps [of n] digits_val_append)
qed

lemma str_nat_nat_str [simp]: "str_nat (nat_str n) = Some n"
  by (simp add: str_nat_def digits_val_nat_str)

lemma nat_str_inj: "nat_str m = nat_str n \<longleftrightarrow> m = n"
  by (metis digits_val_nat_str)

lemma not_is_digit [simp]:
  "\<not> is_digit CHR ''-''" "\<not> is_digit CHR ''p''" "\<not> is_digit CHR '','' " "\<not> is_digit CHR ''|''"
  "\<not> is_digit CHR '' ''" "\<not> is_digit CHR 0x0A" "\<not> is_digit CHR 0x22"
  by (simp_all add: is_digit_def digit_val_def)

lemma nat_str_no_char: "\<not> is_digit c \<Longrightarrow> c \<notin> set (nat_str n)"
  using nat_str_digits [of n] by (auto simp: list_all_iff)

lemma int_str_inj: "int_str i = int_str j \<longleftrightarrow> i = j"
proof
  assume eq: "int_str i = int_str j"
  have no: "CHR ''-'' \<notin> set (nat_str n)" for n by (rule nat_str_no_char) simp
  have hd_no: "nat_str n \<noteq> CHR ''-'' # t" for n t
    using no [of n] by auto
  show "i = j"
    using eq hd_no hd_no [symmetric]
    by (auto simp: int_str_def nat_str_inj split: if_splits)
qed simp

end
