(* ===== verification/Json.thy ===== *)
theory Json
  imports PyText
begin

text \<open>
  JSON values and the two functions of Python's \<open>json\<close> module the source uses: \<open>json.dumps\<close>
  (default separators, \<open>ensure_ascii\<close>, optionally \<open>sort_keys\<close>) and \<open>json.loads\<close>.
  Three facts are used elsewhere: the text \<open>dumps\<close> writes holds printable ASCII only, so it holds
  no line break; \<open>loads\<close> reads back what \<open>dumps\<close> wrote; with \<open>sort_keys\<close> the text does not depend
  on the order the entries were inserted in.

  A float is a rational; \<open>fr\<close> is the shortest decimal \<open>float.__repr__\<close> writes for it and \<open>fl\<close> the
  rounding of a decimal to the nearest float.
\<close>

datatype json =
    JNull
  | JBool bool
  | JInt int
  | JFloat rat
  | JStr string
  | JList "json list"
  | JObj "(string \<times> json) list"

type_synonym jdict = "(string, json) dict"

text \<open>Truth of a value, for \<open>x or default\<close>.\<close>

fun truthy :: "json \<Rightarrow> bool" where
  "truthy JNull = False"
| "truthy (JBool b) = b"
| "truthy (JInt i) = (i \<noteq> 0)"
| "truthy (JFloat r) = (r \<noteq> 0)"
| "truthy (JStr s) = (s \<noteq> [])"
| "truthy (JList xs) = (xs \<noteq> [])"
| "truthy (JObj d) = (d \<noteq> [])"

section \<open>Writing\<close>

definition hex_char :: "nat \<Rightarrow> char" where
  "hex_char d = char_of (if d < 10 then 48 + d else 87 + d)"

definition esc_char :: "char \<Rightarrow> string" where
  "esc_char c =
     (let n = of_char c :: nat in
      if n = 34 then [CHR 0x5C, CHR 0x22]
      else if n = 92 then [CHR 0x5C, CHR 0x5C]
      else if n = 10 then [CHR 0x5C, CHR ''n'']
      else if n = 13 then [CHR 0x5C, CHR ''r'']
      else if n = 9 then [CHR 0x5C, CHR ''t'']
      else if n = 12 then [CHR 0x5C, CHR ''f'']
      else if n = 8 then [CHR 0x5C, CHR ''b'']
      else if 32 \<le> n \<and> n \<le> 126 then [c]
      else [CHR 0x5C, CHR ''u'', CHR ''0'', CHR ''0'', hex_char (n div 16), hex_char (n mod 16)])"

definition quote_char :: char where
  "quote_char = CHR 0x22"

definition esc_str :: "string \<Rightarrow> string" where
  "esc_str s = [quote_char] @ concat (map esc_char s) @ [quote_char]"

fun dumps :: "(rat \<Rightarrow> string) \<Rightarrow> json \<Rightarrow> string"
  and dumps_elems :: "(rat \<Rightarrow> string) \<Rightarrow> json list \<Rightarrow> string"
  and dumps_fields :: "(rat \<Rightarrow> string) \<Rightarrow> (string \<times> json) list \<Rightarrow> string" where
  "dumps fr JNull = ''null''"
| "dumps fr (JBool b) = (if b then ''true'' else ''false'')"
| "dumps fr (JInt i) = int_str i"
| "dumps fr (JFloat r) = fr r"
| "dumps fr (JStr s) = esc_str s"
| "dumps fr (JList xs) = ''['' @ dumps_elems fr xs @ '']''"
| "dumps fr (JObj d) = ''{'' @ dumps_fields fr d @ ''}''"
| "dumps_elems fr [] = []"
| "dumps_elems fr (x # xs) = dumps fr x @ (if xs = [] then [] else '', '' @ dumps_elems fr xs)"
| "dumps_fields fr [] = []"
| "dumps_fields fr ((k, v) # d) =
     esc_str k @ '': '' @ dumps fr v @ (if d = [] then [] else '', '' @ dumps_fields fr d)"

text \<open>\<open>sort_keys=True\<close> sorts the entries of every object by key.\<close>

fun sort_keys :: "json \<Rightarrow> json"
  and sort_keys_elems :: "json list \<Rightarrow> json list"
  and sort_keys_fields :: "(string \<times> json) list \<Rightarrow> (string \<times> json) list" where
  "sort_keys JNull = JNull"
| "sort_keys (JBool b) = JBool b"
| "sort_keys (JInt i) = JInt i"
| "sort_keys (JFloat r) = JFloat r"
| "sort_keys (JStr s) = JStr s"
| "sort_keys (JList xs) = JList (sort_keys_elems xs)"
| "sort_keys (JObj d) = JObj (sort_key fst (sort_keys_fields d))"
| "sort_keys_elems [] = []"
| "sort_keys_elems (x # xs) = sort_keys x # sort_keys_elems xs"
| "sort_keys_fields [] = []"
| "sort_keys_fields ((k, v) # d) = (k, sort_keys v) # sort_keys_fields d"

lemma sort_keys_fields_map: "sort_keys_fields d = map (\<lambda>(k, v). (k, sort_keys v)) d"
  by (induction d) auto

lemma sort_keys_perm:
  assumes "mset d = mset d'" and "dict_ok d"
  shows "sort_keys (JObj d) = sort_keys (JObj d')"
proof -
  have "mset (sort_keys_fields d) = mset (sort_keys_fields d')"
    using assms(1) by (simp add: sort_keys_fields_map)
  moreover have "map fst (sort_keys_fields d) = map fst d"
    by (simp add: sort_keys_fields_map comp_def case_prod_beta)
  ultimately show ?thesis
    using assms(2) by (auto simp: dict_ok_def intro!: sort_key_fst_cong)
qed

section \<open>What is written is printable\<close>

definition printable :: "char \<Rightarrow> bool" where
  "printable c \<longleftrightarrow> 32 \<le> (of_char c :: nat) \<and> (of_char c :: nat) \<le> 126"

lemma printable_lit [simp]:
  "printable CHR ''['' " "printable CHR '']''" "printable CHR ''{''" "printable CHR ''}''"
  "printable CHR '',''" "printable CHR '' ''" "printable CHR '':''" "printable CHR ''-''"
  "printable CHR ''n''" "printable CHR ''u''" "printable CHR ''l''" "printable CHR ''t''"
  "printable CHR ''r''" "printable CHR ''e''" "printable CHR ''f''" "printable CHR ''a''"
  "printable CHR ''s''" "printable CHR ''b''" "printable CHR ''0''" "printable quote_char"
  by (simp_all add: printable_def quote_char_def)

lemma printable_digit: "is_digit c \<Longrightarrow> printable c"
  by (auto simp: is_digit_def digit_val_def printable_def Let_def split: if_splits)

lemma printable_hex: "d < 16 \<Longrightarrow> printable (hex_char d)"
  by (simp add: printable_def hex_char_def of_char_of)

lemma of_char_less: "(of_char c :: nat) < 256"
  by (metis of_char_mod_256 mod_less_divisor zero_less_numeral)

lemma printable_esc: "list_all printable (esc_char c)"
proof -
  have "of_char c div 16 < (16 :: nat)" using of_char_less [of c] by (intro less_mult_imp_div_less) simp
  then have "printable (hex_char (of_char c div 16))" "printable (hex_char (of_char c mod 16))"
    by (simp_all add: printable_hex)
  then show ?thesis by (simp add: esc_char_def Let_def printable_def)
qed

lemma printable_esc_str: "list_all printable (esc_str s)"
  using printable_esc by (auto simp: esc_str_def list_all_iff)

lemma printable_nat_str: "list_all printable (nat_str n)"
  using nat_str_digits [of n] by (auto simp: list_all_iff printable_digit)

lemma printable_int_str: "list_all printable (int_str i)"
  using printable_nat_str by (simp add: int_str_def)

lemma printable_dumps_all:
  "(\<forall>r. list_all printable (fr r)) \<longrightarrow> list_all printable (dumps fr v)"
  "(\<forall>r. list_all printable (fr r)) \<longrightarrow> list_all printable (dumps_elems fr xs)"
  "(\<forall>r. list_all printable (fr r)) \<longrightarrow> list_all printable (dumps_fields fr d)"
  by (induction fr v and fr xs and fr d rule: dumps_dumps_elems_dumps_fields.induct)
    (simp_all add: printable_int_str printable_esc_str)

lemma printable_dumps: "(\<And>r. list_all printable (fr r)) \<Longrightarrow> list_all printable (dumps fr v)"
  using printable_dumps_all(1) [of fr v] by blast

lemma not_printable_newline [simp]: "\<not> printable CHR 0x0A"
  by (simp add: printable_def)

lemma dumps_no_newline: "(\<And>r. list_all printable (fr r)) \<Longrightarrow> CHR 0x0A \<notin> set (dumps fr v)"
  using printable_dumps [of fr v] by (auto simp: list_all_iff)

section \<open>Reading\<close>

text \<open>
  \<open>json.loads\<close>: a recursive descent over the text. Every call of the parser consumes a character
  or descends into one bracket, so twice the length of the text is enough fuel.
\<close>

definition json_ws :: "char \<Rightarrow> bool" where
  "json_ws c \<longleftrightarrow> c \<in> {CHR '' '', CHR 0x09, CHR 0x0A, CHR 0x0D}"

definition skip_ws :: "string \<Rightarrow> string" where
  "skip_ws s = dropWhile json_ws s"

definition eat :: "char \<Rightarrow> string \<Rightarrow> string option" where
  "eat c s = (case s of [] \<Rightarrow> None | x # r \<Rightarrow> if x = c then Some r else None)"

lemma eat_Cons [simp]: "eat c (x # r) = (if x = c then Some r else None)"
  by (simp add: eat_def)

lemma eat_Nil [simp]: "eat c [] = None"
  by (simp add: eat_def)

definition hex_val :: "char \<Rightarrow> nat option" where
  "hex_val c = (let n = of_char c :: nat in
     if 48 \<le> n \<and> n \<le> 57 then Some (n - 48)
     else if 97 \<le> n \<and> n \<le> 102 then Some (n - 87)
     else if 65 \<le> n \<and> n \<le> 70 then Some (n - 55) else None)"

lemma hex_val_char [simp]: "d < 16 \<Longrightarrow> hex_val (hex_char d) = Some d"
  by (simp add: hex_val_def hex_char_def of_char_of)

text \<open>One escape sequence after the backslash; \<open>\u\<close> escapes past 255 are outside the model.\<close>

definition unescape :: "string \<Rightarrow> (char \<times> string) option" where
  "unescape s = (case s of [] \<Rightarrow> None | c # r \<Rightarrow>
     (let n = of_char c :: nat in
      if n = 34 \<or> n = 92 \<or> n = 47 then Some (c, r)
      else if c = CHR ''n'' then Some (CHR 0x0A, r)
      else if c = CHR ''r'' then Some (CHR 0x0D, r)
      else if c = CHR ''t'' then Some (CHR 0x09, r)
      else if c = CHR ''f'' then Some (CHR 0x0C, r)
      else if c = CHR ''b'' then Some (CHR 0x08, r)
      else if c = CHR ''u'' then
        (case map hex_val (take 4 r) of
           [Some a, Some b, Some h, Some l] \<Rightarrow>
             if a = 0 \<and> b = 0 then Some (char_of (16 * h + l), drop 4 r) else None
         | _ \<Rightarrow> None)
      else None))"

lemma unescape_length: "unescape s = Some (c, r) \<Longrightarrow> length r < length s"
  by (auto simp: unescape_def Let_def split: list.splits if_splits option.splits)

text \<open>The characters of a string literal up to its closing quote; a raw control character is an error.\<close>

function parse_str :: "string \<Rightarrow> (string \<times> string) option" where
  "parse_str s = (case s of [] \<Rightarrow> None | c # r \<Rightarrow>
     (if c = quote_char then Some ([], r)
      else if c = CHR 0x5C then
        (case unescape r of None \<Rightarrow> None
         | Some (x, r') \<Rightarrow> map_option (\<lambda>(t, q). (x # t, q)) (parse_str r'))
      else if of_char c < (32::nat) then None
      else map_option (\<lambda>(t, q). (c # t, q)) (parse_str r)))"
  by pat_completeness auto
termination
  by (relation "measure length") (auto dest: unescape_length)

declare parse_str.simps [simp del]

text \<open>
  A number is an optional sign, an integer part without leading zeros, an optional fraction and an
  optional exponent; without the last two it is an \<open>int\<close>.
\<close>

fun span :: "(char \<Rightarrow> bool) \<Rightarrow> string \<Rightarrow> string \<times> string" where
  "span p [] = ([], [])"
| "span p (c # s) = (if p c then (let (a, b) = span p s in (c # a, b)) else ([], c # s))"

definition parse_int_part :: "string \<Rightarrow> (string \<times> string) option" where
  "parse_int_part s = (case s of [] \<Rightarrow> None | c # r \<Rightarrow>
     (if c = CHR ''0'' then Some ([c], r)
      else if is_digit c then Some (span is_digit s) else None))"

definition parse_frac :: "string \<Rightarrow> string \<times> string" where
  "parse_frac s = (case eat CHR ''.'' s of None \<Rightarrow> ([], s)
     | Some r \<Rightarrow> (let (a, b) = span is_digit r in if a = [] then ([], s) else (a, b)))"

definition parse_exp :: "string \<Rightarrow> (bool \<times> nat) option \<times> string" where
  "parse_exp s = (case s of [] \<Rightarrow> (None, s) | e # r \<Rightarrow>
     (if e = CHR ''e'' \<or> e = CHR ''E'' then
        (let (neg, r') = (case r of [] \<Rightarrow> (False, r)
                           | c # q \<Rightarrow> if c = CHR ''-'' then (True, q)
                                     else if c = CHR ''+'' then (False, q) else (False, r));
             (a, b) = span is_digit r'
         in if a = [] then (None, s) else (Some (neg, digits_val 0 a), b))
      else (None, s)))"

definition decimal_value :: "bool \<Rightarrow> string \<Rightarrow> string \<Rightarrow> (bool \<times> nat) option \<Rightarrow> rat" where
  "decimal_value neg ip fp ex =
     (let m = of_nat (digits_val 0 (ip @ fp)) / 10 ^ length fp;
          v = (case ex of None \<Rightarrow> m
               | Some (eneg, n) \<Rightarrow> if eneg then m / 10 ^ n else m * 10 ^ n)
      in if neg then - v else v)"

definition parse_num :: "(rat \<Rightarrow> rat) \<Rightarrow> string \<Rightarrow> (json \<times> string) option" where
  "parse_num fl s =
     (let (neg, s1) = (case eat CHR ''-'' s of None \<Rightarrow> (False, s) | Some r \<Rightarrow> (True, r)) in
      (case parse_int_part s1 of None \<Rightarrow> None
       | Some (ip, s2) \<Rightarrow>
           (let (fp, s3) = parse_frac s2; (ex, s4) = parse_exp s3 in
            if fp = [] \<and> ex = None
            then Some (JInt (if neg then - int (digits_val 0 ip) else int (digits_val 0 ip)), s4)
            else Some (JFloat (fl (decimal_value neg ip fp ex)), s4))))"

fun parse_value :: "(rat \<Rightarrow> rat) \<Rightarrow> nat \<Rightarrow> string \<Rightarrow> (json \<times> string) option"
  and parse_elems :: "(rat \<Rightarrow> rat) \<Rightarrow> nat \<Rightarrow> string \<Rightarrow> (json list \<times> string) option"
  and parse_fields :: "(rat \<Rightarrow> rat) \<Rightarrow> nat \<Rightarrow> string \<Rightarrow> ((string \<times> json) list \<times> string) option" where
  "parse_value fl 0 s = None"
| "parse_value fl (Suc n) s = (case s of [] \<Rightarrow> None | c # r \<Rightarrow>
     (if c = quote_char then map_option (\<lambda>(t, q). (JStr t, q)) (parse_str r)
      else if c = CHR ''{'' then
        (case eat CHR ''}'' (skip_ws r) of Some q \<Rightarrow> Some (JObj [], q)
         | None \<Rightarrow> map_option (\<lambda>(d, q). (JObj (dict_merge [] d), q)) (parse_fields fl n (skip_ws r)))
      else if c = CHR ''['' then
        (case eat CHR '']'' (skip_ws r) of Some q \<Rightarrow> Some (JList [], q)
         | None \<Rightarrow> map_option (\<lambda>(xs, q). (JList xs, q)) (parse_elems fl n (skip_ws r)))
      else if starts_with s ''null'' then Some (JNull, drop 4 s)
      else if starts_with s ''true'' then Some (JBool True, drop 4 s)
      else if starts_with s ''false'' then Some (JBool False, drop 5 s)
      else parse_num fl s))"
| "parse_elems fl 0 s = None"
| "parse_elems fl (Suc n) s =
     (case parse_value fl n s of None \<Rightarrow> None
      | Some (x, r) \<Rightarrow>
          (case eat CHR '','' (skip_ws r) of
             Some q \<Rightarrow> map_option (\<lambda>(xs, q'). (x # xs, q')) (parse_elems fl n (skip_ws q))
           | None \<Rightarrow> map_option (\<lambda>q. ([x], q)) (eat CHR '']'' (skip_ws r))))"
| "parse_fields fl 0 s = None"
| "parse_fields fl (Suc n) s =
     (case eat quote_char s of None \<Rightarrow> None
      | Some r1 \<Rightarrow> (case parse_str r1 of None \<Rightarrow> None
      | Some (k, r2) \<Rightarrow> (case eat CHR '':'' (skip_ws r2) of None \<Rightarrow> None
      | Some r3 \<Rightarrow> (case parse_value fl n (skip_ws r3) of None \<Rightarrow> None
      | Some (v, r4) \<Rightarrow>
          (case eat CHR '','' (skip_ws r4) of
             Some q \<Rightarrow> map_option (\<lambda>(d, q'). ((k, v) # d, q')) (parse_fields fl n (skip_ws q))
           | None \<Rightarrow> map_option (\<lambda>q. ([(k, v)], q)) (eat CHR ''}'' (skip_ws r4)))))))"

definition loads :: "(rat \<Rightarrow> rat) \<Rightarrow> string \<Rightarrow> json res" where
  "loads fl s =
     (case parse_value fl (Suc (2 * length s)) (skip_ws s) of
        Some (v, r) \<Rightarrow> if skip_ws r = [] then Inr v else Inl (ValueError ''Extra data'')
      | None \<Rightarrow> Inl (ValueError ''Expecting value''))"

section \<open>Reading back what was written\<close>

definition stop_ok :: "string \<Rightarrow> bool" where
  "stop_ok s \<longleftrightarrow> s = [] \<or> hd s \<in> {CHR '','', CHR '']'', CHR ''}''}"

text \<open>
  What is asked of the two float functions at a value: the text starts like a number and reads back
  as that float, wherever a number may end.
\<close>

definition float_ok :: "(rat \<Rightarrow> string) \<Rightarrow> (rat \<Rightarrow> rat) \<Rightarrow> rat \<Rightarrow> bool" where
  "float_ok fr fl r \<longleftrightarrow>
     (case fr r of [] \<Rightarrow> False | c # _ \<Rightarrow> is_digit c \<or> c = CHR ''-'') \<and>
     (\<forall>s. stop_ok s \<longrightarrow> parse_num fl (fr r @ s) = Some (JFloat r, s))"

fun json_ok :: "(rat \<Rightarrow> string) \<Rightarrow> (rat \<Rightarrow> rat) \<Rightarrow> json \<Rightarrow> bool"
  and json_ok_elems :: "(rat \<Rightarrow> string) \<Rightarrow> (rat \<Rightarrow> rat) \<Rightarrow> json list \<Rightarrow> bool"
  and json_ok_fields :: "(rat \<Rightarrow> string) \<Rightarrow> (rat \<Rightarrow> rat) \<Rightarrow> (string \<times> json) list \<Rightarrow> bool" where
  "json_ok fr fl (JFloat r) = float_ok fr fl r"
| "json_ok fr fl (JList xs) = json_ok_elems fr fl xs"
| "json_ok fr fl (JObj d) = (dict_ok d \<and> json_ok_fields fr fl d)"
| "json_ok fr fl v = True"
| "json_ok_elems fr fl [] = True"
| "json_ok_elems fr fl (x # xs) = (json_ok fr fl x \<and> json_ok_elems fr fl xs)"
| "json_ok_fields fr fl [] = True"
| "json_ok_fields fr fl ((k, v) # d) = (json_ok fr fl v \<and> json_ok_fields fr fl d)"

lemma span_all: "list_all p s \<Longrightarrow> (r = [] \<or> \<not> p (hd r)) \<Longrightarrow> span p (s @ r) = (s, r)"
  by (induction s) (cases r, auto)

lemma digit_char_0: "d < 10 \<Longrightarrow> digit_char d = CHR ''0'' \<longleftrightarrow> d = 0"
proof
  assume d: "d < 10" and eq: "digit_char d = CHR ''0''"
  have "Some d = digit_val (digit_char d)" using d by simp
  also have "\<dots> = Some 0" unfolding eq by (simp add: digit_val_def)
  finally show "d = 0" by simp
next
  assume "d = 0"
  then have "digit_char d = char_of (of_char CHR ''0'' :: nat)" by (simp add: digit_char_def)
  then show "digit_char d = CHR ''0''" by (simp only: char_of_char)
qed

lemma nat_str_head: "n \<noteq> 0 \<Longrightarrow> hd (nat_str n) \<noteq> CHR ''0''"
proof (induction n rule: nat_str.induct)
  case (1 n)
  show ?case
  proof (cases "n < 10")
    case True
    with "1.prems" show ?thesis by (simp add: nat_str.simps [of n] digit_char_0)
  next
    case False
    then have "hd (nat_str (n div 10)) \<noteq> CHR ''0''" using "1.IH" by simp
    with False show ?thesis by (simp add: nat_str.simps [of n])
  qed
qed

lemma stop_ok_not_digit: "stop_ok r \<Longrightarrow> r = [] \<or> \<not> is_digit (hd r)"
  by (auto simp: stop_ok_def is_digit_def digit_val_def)

lemma parse_int_part_nat_str: "stop_ok r \<Longrightarrow> parse_int_part (nat_str n @ r) = Some (nat_str n, r)"
proof (cases "n = 0")
  case True
  then show ?thesis by (simp add: parse_int_part_def nat_str.simps [of 0] digit_char_0)
next
  case False
  assume r: "stop_ok r"
  obtain c s where cs: "nat_str n = c # s" by (cases "nat_str n") auto
  from nat_str_head [OF False] have "c \<noteq> CHR ''0''" by (simp add: cs)
  moreover have "is_digit c" using nat_str_digits [of n] by (simp add: cs)
  moreover have "span is_digit (nat_str n @ r) = (nat_str n, r)"
    by (rule span_all [OF nat_str_digits stop_ok_not_digit [OF r]])
  ultimately show ?thesis by (simp add: parse_int_part_def cs)
qed

lemma parse_num_int_str: "stop_ok r \<Longrightarrow> parse_num fl (int_str i @ r) = Some (JInt i, r)"
proof -
  assume r: "stop_ok r"
  have fr: "parse_frac r = ([], r)" and ex: "parse_exp r = (None, r)"
    using r by (auto simp: parse_frac_def parse_exp_def stop_ok_def eat_def split: list.splits)
  have nd: "eat CHR ''-'' (nat_str n @ r) = None" for n
  proof -
    obtain c s where cs: "nat_str n = c # s" by (cases "nat_str n") auto
    have "CHR ''-'' \<notin> set (nat_str n)" by (rule nat_str_no_char) simp
    then show ?thesis by (auto simp: cs)
  qed
  show ?thesis
    using nd
    by (simp add: parse_num_def int_str_def parse_int_part_nat_str [OF r] fr ex digits_val_nat_str)
qed

lemma char_eq_code: "c = char_of n \<longleftrightarrow> (of_char c :: nat) = n" if "n < 256" for c :: char and n :: nat
  using that by (metis char_of_char of_char_of mod_less)

lemma char_of_eqI: "(of_char c :: nat) = n \<Longrightarrow> char_of n = c"
  by auto

lemma char_of_lits:
  "char_of (34::nat) = CHR 0x22" "char_of (92::nat) = CHR 0x5C" "char_of (10::nat) = CHR 0x0A"
  "char_of (13::nat) = CHR 0x0D" "char_of (9::nat) = CHR 0x09" "char_of (12::nat) = CHR 0x0C"
  "char_of (8::nat) = CHR 0x08"
  by (rule char_of_eqI, simp)+

lemma unescape_u:
  "h < 16 \<Longrightarrow> l < 16 \<Longrightarrow>
     unescape (CHR ''u'' # CHR ''0'' # CHR ''0'' # hex_char h # hex_char l # t)
       = Some (char_of (16 * h + l), t)"
  by (simp add: unescape_def hex_val_def [of "CHR ''0''"])

lemma unescape_named:
  "unescape (CHR ''n'' # t) = Some (CHR 0x0A, t)"
  "unescape (CHR ''r'' # t) = Some (CHR 0x0D, t)"
  "unescape (CHR ''t'' # t) = Some (CHR 0x09, t)"
  "unescape (CHR ''f'' # t) = Some (CHR 0x0C, t)"
  "unescape (CHR ''b'' # t) = Some (CHR 0x08, t)"
  by (simp_all add: unescape_def)

lemma unescape_esc:
  assumes "of_char c \<noteq> (34 :: nat)" "of_char c \<noteq> (92 :: nat)"
    and "\<not> (32 \<le> (of_char c :: nat) \<and> (of_char c :: nat) \<le> 126)"
  shows "\<exists>u. esc_char c = CHR 0x5C # u \<and> unescape (u @ t) = Some (c, t)"
proof -
  define n where "n = (of_char c :: nat)"
  have c: "c = char_of n" by (simp add: n_def)
  have e: "esc_char c =
     (if n = 10 then [CHR 0x5C, CHR ''n'']
      else if n = 13 then [CHR 0x5C, CHR ''r'']
      else if n = 9 then [CHR 0x5C, CHR ''t'']
      else if n = 12 then [CHR 0x5C, CHR ''f'']
      else if n = 8 then [CHR 0x5C, CHR ''b'']
      else [CHR 0x5C, CHR ''u'', CHR ''0'', CHR ''0'', hex_char (n div 16), hex_char (n mod 16)])"
    using assms by (simp only: esc_char_def Let_def n_def [symmetric] if_False)
  have "n div 16 < 16" unfolding n_def
    using of_char_less [of c] by (intro less_mult_imp_div_less) simp
  then have u: "unescape (CHR ''u'' # CHR ''0'' # CHR ''0'' # hex_char (n div 16) # hex_char (n mod 16) # t)
      = Some (c, t)"
    by (simp add: unescape_u c)
  show ?thesis
    unfolding e using u unescape_named [of t] by (simp add: c char_of_lits)
qed

lemma parse_str_esc: "parse_str (esc_char c @ t) = map_option (\<lambda>(x, q). (c # x, q)) (parse_str t)"
proof -
  let ?n = "of_char c :: nat"
  have c: "c = char_of ?n" by simp
  consider "?n = 34" | "?n = 92" | "?n \<noteq> 34" "?n \<noteq> 92" "32 \<le> ?n \<and> ?n \<le> 126"
    | "?n \<noteq> 34" "?n \<noteq> 92" "\<not> (32 \<le> ?n \<and> ?n \<le> 126)" by blast
  then show ?thesis
  proof cases
    case 1
    have "c = CHR 0x22" using char_of_eqI [of c] 1 char_of_lits by metis
    then show ?thesis
      by (simp add: esc_char_def Let_def parse_str.simps [of "_ # _"] unescape_def quote_char_def char_of_lits)
  next
    case 2
    have "c = CHR 0x5C" using char_of_eqI [of c] 2 char_of_lits by metis
    then show ?thesis
      by (simp add: esc_char_def Let_def parse_str.simps [of "_ # _"] unescape_def quote_char_def char_of_lits)
  next
    case 3
    then have "esc_char c = [c]" by (simp add: esc_char_def Let_def)
    moreover have "c \<noteq> quote_char" "c \<noteq> CHR 0x5C"
      using 3 by (auto simp: quote_char_def)
    ultimately show ?thesis using 3 by (simp add: parse_str.simps [of "_ # _"])
  next
    case 4
    from unescape_esc [OF this, of t] obtain u where u: "esc_char c = CHR 0x5C # u"
      and un: "unescape (u @ t) = Some (c, t)" by blast
    show ?thesis
      by (simp add: u un parse_str.simps [of "_ # _"] quote_char_def)
  qed
qed

lemma parse_str_body: "parse_str (concat (map esc_char s) @ quote_char # r) = Some (s, r)"
proof (induction s)
  case Nil
  show ?case by (simp add: parse_str.simps [of "_ # _"])
next
  case (Cons c s)
  then show ?case by (simp add: parse_str_esc)
qed

lemma not_quote [simp]:
  "quote_char \<noteq> CHR ''{''" "quote_char \<noteq> CHR ''[''" "quote_char \<noteq> CHR ''}''" "quote_char \<noteq> CHR '']''"
  "CHR ''{'' \<noteq> quote_char" "CHR ''['' \<noteq> quote_char" "CHR ''n'' \<noteq> quote_char"
  "CHR ''t'' \<noteq> quote_char" "CHR ''f'' \<noteq> quote_char"
  by (simp_all add: quote_char_def)

lemma json_ws_no [simp]:
  "\<not> json_ws quote_char" "\<not> json_ws CHR ''{''" "\<not> json_ws CHR ''[''" "\<not> json_ws CHR ''-''"
  "\<not> json_ws CHR ''n''" "\<not> json_ws CHR ''t''" "\<not> json_ws CHR ''f''" "\<not> json_ws CHR '',''"
  "\<not> json_ws CHR '':''" "\<not> json_ws CHR '']''" "\<not> json_ws CHR ''}''"
  by (simp_all add: json_ws_def quote_char_def)

lemma json_ws_digit: "is_digit c \<Longrightarrow> \<not> json_ws c"
  by (auto simp: json_ws_def is_digit_def digit_val_def)

lemma skip_ws_Cons [simp]: "skip_ws (c # s) = (if json_ws c then skip_ws s else c # s)"
  by (simp add: skip_ws_def)

lemma json_ws_space [simp]: "json_ws CHR '' ''"
  by (simp add: json_ws_def)

lemma skip_ws_stop: "stop_ok s \<Longrightarrow> skip_ws s = s"
  by (cases s) (auto simp: stop_ok_def skip_ws_def)

text \<open>The first character decides which parser is entered, and is never white space.\<close>

lemma int_str_head: "\<exists>c s. int_str i = c # s \<and> (is_digit c \<or> c = CHR ''-'')"
proof -
  obtain c s where cs: "nat_str (nat i) = c # s" by (cases "nat_str (nat i)") auto
  then show ?thesis using nat_str_digits [of "nat i"] by (simp add: int_str_def)
qed

lemma number_start:
  assumes "is_digit c \<or> c = CHR ''-''"
  shows "c \<noteq> quote_char" "c \<noteq> CHR ''{''" "c \<noteq> CHR ''[''" "c \<noteq> CHR ''n''" "c \<noteq> CHR ''t''"
    "c \<noteq> CHR ''f''" "\<not> json_ws c"
proof -
  have "c \<in> {quote_char, CHR ''{'', CHR ''['', CHR ''n'', CHR ''t'', CHR ''f''} \<Longrightarrow> \<not> is_digit c"
    by (auto simp: is_digit_def digit_val_def quote_char_def)
  moreover have "quote_char \<noteq> CHR ''-''"
    by (simp add: quote_char_def)
  ultimately show "c \<noteq> quote_char" "c \<noteq> CHR ''{''" "c \<noteq> CHR ''[''" "c \<noteq> CHR ''n''"
    "c \<noteq> CHR ''t''" "c \<noteq> CHR ''f''" "\<not> json_ws c"
    using assms json_ws_digit by auto
qed

lemma parse_value_number:
  assumes "is_digit c \<or> c = CHR ''-''"
  shows "parse_value fl (Suc n) (c # s) = parse_num fl (c # s)"
  using number_start [OF assms] by simp

lemma not_is_digit_brackets [simp]: "\<not> is_digit CHR '']''" "\<not> is_digit CHR ''}''"
  by (simp_all add: is_digit_def digit_val_def)

lemma dumps_head:
  assumes "json_ok fr fl v"
  shows "\<exists>c s. dumps fr v = c # s \<and> \<not> json_ws c \<and> c \<noteq> CHR '']''"
proof -
  have num: "\<not> json_ws c \<and> c \<noteq> CHR '']''" if "is_digit c \<or> c = CHR ''-''" for c
    using number_start(7) [OF that] that by auto
  show ?thesis
  proof (cases v)
    case (JInt i)
    then show ?thesis using int_str_head [of i] num by fastforce
  next
    case (JFloat r)
    then show ?thesis using assms num by (auto simp: float_ok_def split: list.splits)
  qed (auto simp: esc_str_def quote_char_def json_ws_def)
qed

lemma skip_ws_dumps: "json_ok fr fl v \<Longrightarrow> skip_ws (dumps fr v @ t) = dumps fr v @ t"
  using dumps_head [of fr fl v] by auto

lemma esc_str_parse: "esc_str k @ t = quote_char # concat (map esc_char k) @ quote_char # t"
  by (simp add: esc_str_def)

text \<open>
  The three parsers invert the three writers, given fuel for every character they read.
\<close>

lemma fuelE: "Suc k \<le> n \<Longrightarrow> (\<And>m. n = Suc m \<Longrightarrow> P) \<Longrightarrow> P"
  by (cases n) auto

lemma lit_fuel: "numeral k \<le> n \<Longrightarrow> Suc 0 \<le> n"
  by (metis One_nat_def le_trans one_le_numeral)

lemma parse_dumps:
  "json_ok fr fl v \<longrightarrow> (\<forall>n s. 2 * length (dumps fr v) \<le> n \<longrightarrow> stop_ok s \<longrightarrow>
     parse_value fl n (dumps fr v @ s) = Some (v, s))"
  "json_ok_elems fr fl xs \<longrightarrow> xs \<noteq> [] \<longrightarrow>
     (\<forall>n s. 2 * length (dumps_elems fr xs) < n \<longrightarrow>
       parse_elems fl n (dumps_elems fr xs @ CHR '']'' # s) = Some (xs, s))"
  "json_ok_fields fr fl d \<longrightarrow> d \<noteq> [] \<longrightarrow>
     (\<forall>n s. 2 * length (dumps_fields fr d) < n \<longrightarrow>
       parse_fields fl n (dumps_fields fr d @ CHR ''}'' # s) = Some (d, s))"
proof (induction fr v and fr xs and fr d rule: dumps_dumps_elems_dumps_fields.induct)
  case (1 fr)
  have "parse_value fl (Suc n) (''null'' @ s) = Some (JNull, s)" for n s
    by simp
  then show ?case by (auto elim!: fuelE [OF lit_fuel])
next
  case (2 fr b)
  have "parse_value fl (Suc n) (''true'' @ s) = Some (JBool True, s)" for n s
    by simp
  moreover have "parse_value fl (Suc n) (''false'' @ s) = Some (JBool False, s)" for n s
    by simp
  ultimately show ?case by (auto elim!: fuelE [OF lit_fuel])
next
  case (3 fr i)
  obtain c t where ct: "int_str i = c # t" and c: "is_digit c \<or> c = CHR ''-''"
    using int_str_head by blast
  have "parse_value fl (Suc n) (int_str i @ s) = Some (JInt i, s)" if "stop_ok s" for n s
    using parse_num_int_str [OF that, of fl i] parse_value_number [OF c] by (simp add: ct)
  then show ?case by (auto simp: ct elim!: fuelE)
next
  case (4 fr r)
  show ?case
  proof (intro impI allI)
    fix n s
    assume ok: "json_ok fr fl (JFloat r)" and n: "2 * length (dumps fr (JFloat r)) \<le> n" and s: "stop_ok s"
    from ok obtain c t where ct: "fr r = c # t" and c: "is_digit c \<or> c = CHR ''-''"
      by (auto simp: float_ok_def split: list.splits)
    from n ct obtain m where m: "n = Suc m" by (cases n) auto
    have "parse_num fl (fr r @ s) = Some (JFloat r, s)" using ok s by (simp add: float_ok_def)
    then show "parse_value fl n (dumps fr (JFloat r) @ s) = Some (JFloat r, s)"
      using parse_value_number [OF c] by (simp add: ct m)
  qed
next
  case (5 fr t)
  show ?case by (auto simp: esc_str_parse parse_str_body esc_str_def elim!: fuelE)
next
  case (6 fr xs)
  show ?case
  proof (intro impI allI)
    fix n s
    assume ok: "json_ok fr fl (JList xs)" and n: "2 * length (dumps fr (JList xs)) \<le> n"
    from n obtain m where m: "n = Suc m" and m2: "2 * length (dumps_elems fr xs) < m" by (cases n) auto
    show "parse_value fl n (dumps fr (JList xs) @ s) = Some (JList xs, s)"
    proof (cases xs)
      case Nil
      then show ?thesis by (simp add: m)
    next
      case (Cons x ys)
      with ok obtain c t where ct: "dumps fr x = c # t" and c: "\<not> json_ws c" "c \<noteq> CHR '']''"
        using dumps_head [of fr fl x] by auto
      have de: "dumps_elems fr xs = c # t @ (if ys = [] then [] else '', '' @ dumps_elems fr ys)"
        by (simp add: Cons ct)
      have "parse_elems fl m (dumps_elems fr xs @ CHR '']'' # s) = Some (xs, s)"
        using "6.IH" ok Cons m2 by simp
      then show ?thesis using c by (simp add: m de)
    qed
  qed
next
  case (7 fr d)
  show ?case
  proof (intro impI allI)
    fix n s
    assume ok: "json_ok fr fl (JObj d)" and n: "2 * length (dumps fr (JObj d)) \<le> n"
    from n obtain m where m: "n = Suc m" and m2: "2 * length (dumps_fields fr d) < m" by (cases n) auto
    show "parse_value fl n (dumps fr (JObj d) @ s) = Some (JObj d, s)"
    proof (cases d)
      case Nil
      then show ?thesis by (simp add: m)
    next
      case (Cons p q)
      obtain k v where p: "p = (k, v)" by (cases p)
      have de: "\<exists>t. dumps_fields fr d = quote_char # t"
        by (simp add: Cons p esc_str_def)
      have "parse_fields fl m (dumps_fields fr d @ CHR ''}'' # s) = Some (d, s)"
        using "7.IH" ok Cons m2 by simp
      then show ?thesis using de ok by (auto simp: m)
    qed
  qed
next
  case (9 fr x xs)
  show ?case
  proof (intro impI allI)
    fix n s
    assume ok: "json_ok_elems fr fl (x # xs)" and n: "2 * length (dumps_elems fr (x # xs)) < n"
    from n obtain m where m: "n = Suc m" and m2: "2 * length (dumps_elems fr (x # xs)) \<le> m"
      by (cases n) auto
    show "parse_elems fl n (dumps_elems fr (x # xs) @ CHR '']'' # s) = Some (x # xs, s)"
    proof (cases xs)
      case Nil
      have "parse_value fl m (dumps fr x @ CHR '']'' # s) = Some (x, CHR '']'' # s)"
        using "9.IH"(1) ok m2 by (simp add: stop_ok_def)
      then show ?thesis by (simp add: m Nil)
    next
      case (Cons y ys)
      have "parse_value fl m (dumps fr x @ '', '' @ dumps_elems fr xs @ CHR '']'' # s)
          = Some (x, '', '' @ dumps_elems fr xs @ CHR '']'' # s)"
        using "9.IH"(1) ok m2 by (simp add: stop_ok_def)
      moreover have "parse_elems fl m (dumps_elems fr xs @ CHR '']'' # s) = Some (xs, s)"
        using "9.IH"(2) ok m2 Cons by simp
      moreover have "skip_ws (dumps_elems fr xs @ t) = dumps_elems fr xs @ t" for t
        using skip_ws_dumps [of fr fl y] ok by (simp add: Cons)
      ultimately show ?thesis by (simp add: m Cons)
    qed
  qed
next
  case (11 fr k v d)
  show ?case
  proof (intro impI allI)
    fix n s
    assume ok: "json_ok_fields fr fl ((k, v) # d)" and n: "2 * length (dumps_fields fr ((k, v) # d)) < n"
    from n obtain m where m: "n = Suc m" and m2: "2 * length (dumps_fields fr ((k, v) # d)) \<le> m"
      by (cases n) auto
    have sk: "skip_ws (dumps fr v @ t) = dumps fr v @ t" for t
      using skip_ws_dumps [of fr fl v] ok by simp
    show "parse_fields fl n (dumps_fields fr ((k, v) # d) @ CHR ''}'' # s) = Some ((k, v) # d, s)"
    proof (cases d)
      case Nil
      have "parse_value fl m (dumps fr v @ CHR ''}'' # s) = Some (v, CHR ''}'' # s)"
        using "11.IH"(1) ok m2 by (simp add: stop_ok_def)
      then show ?thesis by (simp add: m Nil esc_str_parse parse_str_body sk)
    next
      case (Cons p q)
      have "parse_value fl m (dumps fr v @ '', '' @ dumps_fields fr d @ CHR ''}'' # s)
          = Some (v, '', '' @ dumps_fields fr d @ CHR ''}'' # s)"
        using "11.IH"(1) ok m2 by (simp add: stop_ok_def)
      moreover have "parse_fields fl m (dumps_fields fr d @ CHR ''}'' # s) = Some (d, s)"
        using "11.IH"(2) ok m2 Cons by simp
      moreover have "skip_ws (dumps_fields fr d @ t) = dumps_fields fr d @ t" for t
        by (cases p) (simp add: Cons esc_str_parse)
      ultimately show ?thesis
        by (simp add: m Cons esc_str_parse parse_str_body sk)
    qed
  qed
qed simp_all

lemma loads_dumps:
  assumes ok: "json_ok fr fl v"
  shows "loads fl (dumps fr v) = Inr v"
proof -
  have "\<forall>n s. 2 * length (dumps fr v) \<le> n \<longrightarrow> stop_ok s \<longrightarrow>
      parse_value fl n (dumps fr v @ s) = Some (v, s)"
    using parse_dumps(1) ok by (rule mp)
  then have "parse_value fl (Suc (2 * length (dumps fr v))) (dumps fr v @ []) = Some (v, [])"
    by (rule allE [of _ "Suc (2 * length (dumps fr v))"]) (simp add: stop_ok_def del: parse_value.simps)
  moreover have "skip_ws (dumps fr v) = dumps fr v"
    using skip_ws_dumps [OF ok, of "[]"] by simp
  moreover have "skip_ws [] = []" by (simp add: skip_ws_def)
  ultimately show ?thesis by (simp only: loads_def append_Nil2 option.case prod.case if_True simp_thms)
qed

text \<open>Two values with the same text are the same value.\<close>

lemma dumps_inj:
  assumes "json_ok fr fl v" and "json_ok fr fl w" and "dumps fr v = dumps fr w"
  shows "v = w"
proof -
  have "(Inr v :: json res) = Inr w"
    unfolding loads_dumps [OF assms(1), symmetric] loads_dumps [OF assms(2), symmetric] assms(3) ..
  then show ?thesis by (rule sum.inject(2) [THEN iffD1])
qed

lemma json_ok_fields_all: "json_ok_fields fr fl d \<longleftrightarrow> (\<forall>p \<in> set d. json_ok fr fl (snd p))"
  by (induction d) auto

lemma sort_keys_fst: "map fst (sort_keys_fields d) = map fst d"
  by (induction d) auto

lemma dict_ok_sort: "dict_ok d \<Longrightarrow> dict_ok (sort_key fst (sort_keys_fields d))"
proof -
  assume d: "dict_ok d"
  have "distinct (map fst (sort_keys_fields d))" using d by (simp add: dict_ok_def sort_keys_fst)
  then show ?thesis by (simp add: dict_ok_def distinct_map)
qed

lemma json_ok_sort_keys_all:
  "json_ok fr fl v \<longrightarrow> json_ok fr fl (sort_keys v)"
  "json_ok_elems fr fl xs \<longrightarrow> json_ok_elems fr fl (sort_keys_elems xs)"
  "json_ok_fields fr fl d \<longrightarrow> json_ok_fields fr fl (sort_keys_fields d)"
proof (induction v and xs and d rule: sort_keys_sort_keys_elems_sort_keys_fields.induct)
  case (7 d)
  then show ?case by (auto simp: dict_ok_sort json_ok_fields_all)
qed auto

lemma json_ok_sort_keys: "json_ok fr fl v \<Longrightarrow> json_ok fr fl (sort_keys v)"
  using json_ok_sort_keys_all(1) by blast

lemma sort_keys_get:
  "dict_ok d \<Longrightarrow> sort_keys (JObj d) = JObj e \<Longrightarrow> dict_get e k = map_option sort_keys (dict_get d k)"
proof -
  assume d: "dict_ok d" and e: "sort_keys (JObj d) = JObj e"
  from e have se: "e = sort_key fst (sort_keys_fields d)" by simp
  have "map_of e = map_of (sort_keys_fields d)"
    using dict_ok_sort [OF d] d
    by (intro map_of_inject_set [THEN iffD2]) (simp_all add: se dict_ok_def sort_keys_fst)
  moreover have "map_of (sort_keys_fields d) k = map_option sort_keys (map_of d k)"
    by (induction d) auto
  ultimately show ?thesis by (simp add: dict_get_def)
qed

lemma json_ok_set: "json_ok fr fl (JObj d) \<Longrightarrow> json_ok fr fl v \<Longrightarrow> json_ok fr fl (JObj (dict_set k v d))"
proof -
  have "json_ok_fields fr fl d \<Longrightarrow> json_ok fr fl v \<Longrightarrow> json_ok_fields fr fl (dict_set k v d)"
    by (induction d) (auto simp: dict_set_simps)
  then show "json_ok fr fl (JObj d) \<Longrightarrow> json_ok fr fl v \<Longrightarrow> json_ok fr fl (JObj (dict_set k v d))"
    by simp
qed

lemma digit_chars [py_simps]:
  "digit_char 0 = CHR ''0''" "digit_char 1 = CHR ''1''" "digit_char 2 = CHR ''2''" "digit_char 3 = CHR ''3''" "digit_char 4 = CHR ''4''" "digit_char 5 = CHR ''5''" "digit_char 6 = CHR ''6''" "digit_char 7 = CHR ''7''" "digit_char 8 = CHR ''8''" "digit_char 9 = CHR ''9''"
  by (simp_all add: digit_char_def char_of_eqI)

lemma nat_str_small [py_simps]: "n < 10 \<Longrightarrow> nat_str n = [digit_char n]"
  by (simp add: nat_str.simps)

section \<open>Conversions\<close>

text \<open>\<open>str(v)\<close>: a string is itself; \<open>rp\<close> is \<open>repr\<close> of a float or of a container.\<close>

definition py_str :: "(json \<Rightarrow> string) \<Rightarrow> json \<Rightarrow> string" where
  "py_str rp v = (case v of JStr s \<Rightarrow> s | JNull \<Rightarrow> ''None'' | JBool b \<Rightarrow> (if b then ''True'' else ''False'')
     | JInt i \<Rightarrow> int_str i | _ \<Rightarrow> rp v)"

text \<open>\<open>d.get(k, default)\<close>.\<close>

definition get_or :: "jdict \<Rightarrow> string \<Rightarrow> json \<Rightarrow> json" where
  "get_or d k v = (case dict_get d k of None \<Rightarrow> v | Some x \<Rightarrow> x)"

text \<open>
  \<open>int(v)\<close> and \<open>float(v)\<close>. \<open>ps\<close> reads the number a string denotes (\<open>None\<close>: \<open>ValueError\<close>);
  an integer beyond the float range raises \<open>OverflowError\<close>.
\<close>

definition py_int :: "(string \<Rightarrow> int option) \<Rightarrow> json \<Rightarrow> int res" where
  "py_int ps v = (case v of JInt i \<Rightarrow> Inr i | JBool b \<Rightarrow> Inr (if b then 1 else 0)
     | JFloat r \<Rightarrow> Inr (if r < 0 then - \<lfloor>- r\<rfloor> else \<lfloor>r\<rfloor>)
     | JStr s \<Rightarrow> (case ps s of Some i \<Rightarrow> Inr i | None \<Rightarrow> Inl (ValueError s))
     | _ \<Rightarrow> Inl (TypeError ''int''))"

definition py_float :: "(rat \<Rightarrow> rat) \<Rightarrow> (string \<Rightarrow> rat option) \<Rightarrow> json \<Rightarrow> rat res" where
  "py_float fl ps v = (case v of JFloat r \<Rightarrow> Inr r | JBool b \<Rightarrow> Inr (if b then 1 else 0)
     | JInt i \<Rightarrow> (if \<bar>i\<bar> < 2 ^ 1024 - 2 ^ 970 then Inr (fl (of_int i)) else Inl (OtherError ''OverflowError'' ''int''))
     | JStr s \<Rightarrow> (case ps s of Some r \<Rightarrow> Inr r | None \<Rightarrow> Inl (ValueError s))
     | _ \<Rightarrow> Inl (TypeError ''float''))"

end
