(* ===== verification/AgentState.thy ===== *)
theory AgentState
  imports Json
begin

text \<open>
  \<open>taxcalc_agent_svc/state.py\<close>: the typed slots of the graph and the reducer of each slot. A node
  returns a partial state; the graph library folds the partial states of one super-step into the
  channels with the declared reducers, in task order. \<open>apply_update\<close> is that fold for one partial
  state. The reducer of \<open>messages\<close> is the graph library's own \<open>add_messages\<close>, an argument here.

  The locale states what makes a reducer additive; its lemmas say that no contribution to the
  channel is lost whatever the order, and it is interpreted on the three collecting reducers.
\<close>

text \<open>A retrieved document, as \<open>shape_docs\<close> builds it.\<close>

record doc =
  chunk_id :: string
  doc_id :: string
  score :: rat

(* src/taxcalc-agent-svc/src/taxcalc_agent_svc/state.py:103-144 AgentState *)
record agent_state =
  question :: string
  tenant_id :: string
  thread_id :: string
  messages :: "json list"
  docs :: "doc list"
  tool_results :: jdict
  answer :: "string option"
  cost_usd_e5 :: int
  visited_nodes :: "string list"

text \<open>What a node returns: a dictionary with some of the slots. An absent slot is \<open>None\<close>.\<close>

record partial_state =
  p_messages :: "json list option"
  p_docs :: "doc list option"
  p_tool_results :: "jdict option"
  p_answer :: "string option"
  p_cost :: "int option"
  p_visited :: "string list option"

definition empty_update :: partial_state where
  "empty_update = \<lparr>p_messages = None, p_docs = None, p_tool_results = None, p_answer = None,
     p_cost = None, p_visited = None\<rparr>"

text \<open>The channels of a fresh thread, before any node wrote them.\<close>

definition entry_state :: "string \<Rightarrow> string \<Rightarrow> string \<Rightarrow> agent_state" where
  "entry_state q tenant thread = \<lparr>question = q, tenant_id = tenant, thread_id = thread, messages = [],
     docs = [], tool_results = [], answer = None, cost_usd_e5 = 0, visited_nodes = []\<rparr>"

definition or_empty :: "jdict option \<Rightarrow> jdict" where
  "or_empty d = (case d of None \<Rightarrow> [] | Some x \<Rightarrow> x)"

(* src/taxcalc-agent-svc/src/taxcalc_agent_svc/state.py:79-100 _merge_tool_results *)
definition merge_tool_results :: "jdict option \<Rightarrow> jdict option \<Rightarrow> jdict" where
  "merge_tool_results old new = dict_merge (or_empty old) (or_empty new)"

(* src/taxcalc-agent-svc/src/taxcalc_agent_svc/state.py:127-144 channel annotations of AgentState *)
definition apply_update ::
  "(json list \<Rightarrow> json list \<Rightarrow> json list) \<Rightarrow> agent_state \<Rightarrow> partial_state \<Rightarrow> agent_state" where
  "apply_update add_messages s u = s\<lparr>
     messages := (case p_messages u of None \<Rightarrow> messages s | Some m \<Rightarrow> add_messages (messages s) m),
     docs := (case p_docs u of None \<Rightarrow> docs s | Some d \<Rightarrow> docs s @ d),
     tool_results := (case p_tool_results u of None \<Rightarrow> tool_results s
                      | Some t \<Rightarrow> merge_tool_results (Some (tool_results s)) (Some t)),
     answer := (case p_answer u of None \<Rightarrow> answer s | Some a \<Rightarrow> Some a),
     cost_usd_e5 := (case p_cost u of None \<Rightarrow> cost_usd_e5 s | Some c \<Rightarrow> cost_usd_e5 s + c),
     visited_nodes := (case p_visited u of None \<Rightarrow> visited_nodes s | Some v \<Rightarrow> visited_nodes s @ v)\<rparr>"

definition fan_in ::
  "(json list \<Rightarrow> json list \<Rightarrow> json list) \<Rightarrow> agent_state \<Rightarrow> partial_state list \<Rightarrow> agent_state" where
  "fan_in add_messages s us = foldl (apply_update add_messages) s us"

section \<open>What an additive channel guarantees\<close>

locale additive_channel =
  fixes merge :: "'v \<Rightarrow> 'v \<Rightarrow> 'v"
    and content :: "'v \<Rightarrow> 'k set"
  assumes content_merge: "content (merge a b) = content a \<union> content b"
begin

lemma content_fold: "content (foldl merge a us) = content a \<union> (\<Union>u \<in> set us. content u)"
  by (induction us arbitrary: a) (auto simp: content_merge)

lemma nothing_lost: "u \<in> set us \<Longrightarrow> content u \<subseteq> content (foldl merge a us)"
  by (auto simp: content_fold)

lemma order_irrelevant: "set us = set vs \<Longrightarrow> content (foldl merge a us) = content (foldl merge a vs)"
  by (simp add: content_fold)

end

interpretation docs_channel: additive_channel "(@) :: doc list \<Rightarrow> doc list \<Rightarrow> doc list" set
  by unfold_locales simp

interpretation visited_channel: additive_channel "(@) :: string list \<Rightarrow> string list \<Rightarrow> string list" set
  by unfold_locales simp

interpretation tools_channel:
  additive_channel "\<lambda>a b. merge_tool_results (Some a) (Some b)" "\<lambda>d. set (dict_keys d)"
  by unfold_locales (simp add: merge_tool_results_def or_empty_def dict_keys_merge)

section \<open>Reading a channel after a fan-in\<close>

definition contrib :: "'a list option \<Rightarrow> 'a list" where
  "contrib x = (case x of None \<Rightarrow> [] | Some l \<Rightarrow> l)"

definition contrib_cost :: "int option \<Rightarrow> int" where
  "contrib_cost x = (case x of None \<Rightarrow> 0 | Some c \<Rightarrow> c)"

lemma apply_update_simps [simp]:
  "docs (apply_update am s u) = docs s @ contrib (p_docs u)"
  "visited_nodes (apply_update am s u) = visited_nodes s @ contrib (p_visited u)"
  "cost_usd_e5 (apply_update am s u) = cost_usd_e5 s + contrib_cost (p_cost u)"
  "tool_results (apply_update am s u) = merge_tool_results (Some (tool_results s)) (p_tool_results u)"
  "question (apply_update am s u) = question s"
  "tenant_id (apply_update am s u) = tenant_id s"
  "thread_id (apply_update am s u) = thread_id s"
  "answer (apply_update am s u) = (case p_answer u of None \<Rightarrow> answer s | Some a \<Rightarrow> Some a)"
  by (simp_all add: apply_update_def contrib_def contrib_cost_def merge_tool_results_def or_empty_def
      split: option.split)

lemma fan_in_Nil [simp]: "fan_in am s [] = s"
  by (simp add: fan_in_def)

lemma fan_in_Cons [simp]: "fan_in am s (u # us) = fan_in am (apply_update am s u) us"
  by (simp add: fan_in_def)

lemma fan_in_docs: "docs (fan_in am s us) = docs s @ concat (map (\<lambda>u. contrib (p_docs u)) us)"
  by (induction us arbitrary: s) simp_all

lemma fan_in_visited:
  "visited_nodes (fan_in am s us) = visited_nodes s @ concat (map (\<lambda>u. contrib (p_visited u)) us)"
  by (induction us arbitrary: s) simp_all

lemma fan_in_cost: "cost_usd_e5 (fan_in am s us) = cost_usd_e5 s + sum_list (map (\<lambda>u. contrib_cost (p_cost u)) us)"
  by (induction us arbitrary: s) simp_all

lemma fan_in_tools:
  "tool_results (fan_in am s us) =
     foldl (\<lambda>a b. merge_tool_results (Some a) (Some b)) (tool_results s) (map (\<lambda>u. or_empty (p_tool_results u)) us)"
proof (induction us arbitrary: s)
  case (Cons u us)
  have "merge_tool_results a (Some (or_empty b)) = merge_tool_results a b" for a b
    by (simp add: merge_tool_results_def or_empty_def split: option.split)
  then show ?case by (simp add: Cons)
qed simp

lemma fan_in_inputs [simp]:
  "question (fan_in am s us) = question s" "tenant_id (fan_in am s us) = tenant_id s"
  "thread_id (fan_in am s us) = thread_id s"
  by (induction us arbitrary: s) simp_all

lemma tool_results_ok:
  "dict_ok (tool_results s) \<Longrightarrow> dict_ok (tool_results (fan_in am s us))"
  by (induction us arbitrary: s) (simp_all add: merge_tool_results_def or_empty_def dict_merge_ok)

lemma mset_concat_map: "mset us = mset vs \<Longrightarrow> mset (concat (map f us)) = mset (concat (map f vs))"
  by (metis mset_concat mset_map sum_mset_sum_list)

section \<open>Properties\<close>

text \<open>
  The fan-in is additive and its outcome does not depend on which worker finished first: for
  any two orders of the same contributions the collected documents and visited nodes agree as
  multisets, the recorded tools agree, the spend is the same sum; and every document and every
  tool a worker contributed is there.
\<close>

theorem fan_in_additive:
  assumes "mset us = mset vs"
  shows "mset (docs (fan_in am s us)) = mset (docs (fan_in am s vs))
    \<and> mset (visited_nodes (fan_in am s us)) = mset (visited_nodes (fan_in am s vs))
    \<and> set (dict_keys (tool_results (fan_in am s us))) = set (dict_keys (tool_results (fan_in am s vs)))
    \<and> cost_usd_e5 (fan_in am s us) = cost_usd_e5 (fan_in am s vs)
    \<and> (\<forall>u \<in> set us. set (contrib (p_docs u)) \<subseteq> set (docs (fan_in am s vs))
         \<and> set (dict_keys (or_empty (p_tool_results u))) \<subseteq> set (dict_keys (tool_results (fan_in am s vs))))"
proof -
  have same: "set us = set vs" using assms by (rule mset_eq_setD)
  have c: "sum_list (map f us) = sum_list (map f vs)" for f :: "partial_state \<Rightarrow> int"
    using assms by (metis mset_map sum_mset_sum_list)
  have k: "set (dict_keys (tool_results (fan_in am s us))) = set (dict_keys (tool_results (fan_in am s vs)))"
    unfolding fan_in_tools by (rule tools_channel.order_irrelevant) (simp add: same)
  have d: "set (contrib (p_docs u)) \<subseteq> set (docs (fan_in am s vs))" if "u \<in> set us" for u
    using that same by (auto simp: fan_in_docs)
  have t: "set (dict_keys (or_empty (p_tool_results u))) \<subseteq> set (dict_keys (tool_results (fan_in am s vs)))"
    if "u \<in> set us" for u
    unfolding fan_in_tools by (rule tools_channel.nothing_lost) (use that same in auto)
  show ?thesis
    using c k d t by (simp add: fan_in_docs fan_in_visited fan_in_cost mset_concat_map [OF assms])
qed

definition retrieval_update :: partial_state where
  "retrieval_update = empty_update\<lparr>p_docs := Some [\<lparr>chunk_id = ''chunk-d-p0'', doc_id = ''d'', score = 1\<rparr>],
     p_cost := Some 120, p_visited := Some [''retrieval_agent'']\<rparr>"

definition api_update :: partial_state where
  "api_update = empty_update\<lparr>p_tool_results := Some [(''orders.get_order'', JInt 7)],
     p_cost := Some 200, p_visited := Some [''api_agent'']\<rparr>"

theorem fan_in_additive_witness:
  "cost_usd_e5 (fan_in (@) (entry_state [] ''t'' ''th'') [retrieval_update, api_update]) = 320
   \<and> cost_usd_e5 (fan_in (@) (entry_state [] ''t'' ''th'') [api_update, retrieval_update]) = 320
   \<and> docs (fan_in (@) (entry_state [] ''t'' ''th'') [api_update, retrieval_update]) \<noteq> []"
proof -
  have m: "mset [retrieval_update, api_update] = mset [api_update, retrieval_update]" by simp
  have "cost_usd_e5 (fan_in (@) (entry_state [] ''t'' ''th'') [retrieval_update, api_update]) = 320"
    by (simp add: retrieval_update_def api_update_def empty_update_def entry_state_def contrib_cost_def)
  then show ?thesis
    using fan_in_additive [OF m, of "(@)" "entry_state [] ''t'' ''th''"]
    by (auto simp: retrieval_update_def contrib_def)
qed

text \<open>
  A failed or repeated leg keeps the other's tool results: merging is key-wise, the later
  contribution winning only on the keys it writes.
\<close>

theorem merge_tool_results_keywise:
  assumes "dict_ok new"
  shows "dict_get (merge_tool_results (Some old) (Some new)) k =
      (case dict_get new k of Some v \<Rightarrow> Some v | None \<Rightarrow> dict_get old k)
    \<and> merge_tool_results (Some old) None = old \<and> merge_tool_results None None = []"
  using dict_get_merge [OF assms] by (simp add: merge_tool_results_def or_empty_def)

theorem merge_tool_results_keywise_witness:
  "dict_get (merge_tool_results (Some [(''a'', JInt 1), (''b'', JInt 2)]) (Some [(''b'', JInt 3)])) ''a''
     = Some (JInt 1)
   \<and> dict_get (merge_tool_results (Some [(''a'', JInt 1), (''b'', JInt 2)]) (Some [(''b'', JInt 3)])) ''b''
     = Some (JInt 3)"
proof -
  have ok: "dict_ok [(''b'', JInt 3)]" by (simp add: dict_ok_def)
  show ?thesis
    using merge_tool_results_keywise [OF ok, of "[(''a'', JInt 1), (''b'', JInt 2)]" "''a''"]
      merge_tool_results_keywise [OF ok, of "[(''a'', JInt 1), (''b'', JInt 2)]" "''b''"]
    by simp
qed

end
