(* ===== verification/Budgets.thy ===== *)
theory Budgets
  imports Prelude
begin

text \<open>
  \<open>taxcalc_agent_svc/budgets.py\<close>: the per-request cost ceiling. A guard is its ceiling and the
  spend so far, both in units of 1e-5 USD; a paid call is preceded by \<open>check_or_raise\<close> and followed
  by \<open>record_call\<close>. The locale states what the nodes rely on (a check passes exactly below the
  limit; a charge adds the call's cost and leaves the limit alone) and proves once, for any such
  guard, how far a run of guarded calls can overshoot; the interpretation discharges the laws for
  the guard of the source.
\<close>

(* src/taxcalc-agent-svc/src/taxcalc_agent_svc/budgets.py:35-40 PRICE_IN_E5_PER_KTOK *)
definition PRICE_IN_E5_PER_KTOK :: int where
  "PRICE_IN_E5_PER_KTOK = 300"

(* src/taxcalc-agent-svc/src/taxcalc_agent_svc/budgets.py:41-41 PRICE_OUT_E5_PER_KTOK *)
definition PRICE_OUT_E5_PER_KTOK :: int where
  "PRICE_OUT_E5_PER_KTOK = 1500"

(* src/taxcalc-agent-svc/src/taxcalc_agent_svc/budgets.py:54-154 BudgetGuard *)
record budget_guard =
  ceiling_usd_e5 :: int
  spent_usd_e5 :: int

(* src/taxcalc-agent-svc/src/taxcalc_agent_svc/budgets.py:65-76 BudgetGuard.__init__ *)
definition new_guard :: "int \<Rightarrow> budget_guard res" where
  "new_guard c =
     (if c \<le> 0 then Inl (ValueError ''ceiling must be positive'')
      else Inr \<lparr>ceiling_usd_e5 = c, spent_usd_e5 = 0\<rparr>)"

(* src/taxcalc-agent-svc/src/taxcalc_agent_svc/budgets.py:94-110 BudgetGuard.check_or_raise *)
definition check_or_raise :: "budget_guard \<Rightarrow> unit res" where
  "check_or_raise g =
     (if spent_usd_e5 g \<ge> ceiling_usd_e5 g
      then Inl (BudgetExceeded (spent_usd_e5 g) (ceiling_usd_e5 g)) else Inr ())"

text \<open>
  The \<open>usage\<close> block of a response. A token count that is absent or \<open>None\<close> is \<open>None\<close> here: the code
  reads both as zero.
\<close>

record usage =
  input_tokens :: "int option"
  output_tokens :: "int option"

definition or_zero :: "int option \<Rightarrow> int" where
  "or_zero x = (case x of None \<Rightarrow> 0 | Some n \<Rightarrow> n)"

(* src/taxcalc-agent-svc/src/taxcalc_agent_svc/budgets.py:152-154 cost expression of record_usage *)
definition call_cost :: "int \<Rightarrow> int \<Rightarrow> int" where
  "call_cost i out = (i * PRICE_IN_E5_PER_KTOK + out * PRICE_OUT_E5_PER_KTOK) div 1000"

(* src/taxcalc-agent-svc/src/taxcalc_agent_svc/budgets.py:137-154 BudgetGuard.record_usage *)
definition record_usage :: "budget_guard \<Rightarrow> int \<Rightarrow> int \<Rightarrow> budget_guard" where
  "record_usage g i out = g\<lparr>spent_usd_e5 := spent_usd_e5 g + call_cost i out\<rparr>"

(* src/taxcalc-agent-svc/src/taxcalc_agent_svc/budgets.py:112-135 BudgetGuard.record_call *)
definition record_call :: "budget_guard \<Rightarrow> usage option \<Rightarrow> budget_guard" where
  "record_call g u =
     (case u of None \<Rightarrow> g
      | Some v \<Rightarrow> record_usage g (or_zero (input_tokens v)) (or_zero (output_tokens v)))"

definition usage_cost :: "usage option \<Rightarrow> int" where
  "usage_cost u = (case u of None \<Rightarrow> 0 | Some v \<Rightarrow> call_cost (or_zero (input_tokens v)) (or_zero (output_tokens v)))"

text \<open>No response reports a negative token count.\<close>

definition usage_ok :: "usage option \<Rightarrow> bool" where
  "usage_ok u = (case u of None \<Rightarrow> True | Some v \<Rightarrow> 0 \<le> or_zero (input_tokens v) \<and> 0 \<le> or_zero (output_tokens v))"

lemma spent_record_usage [simp, guard_simps]:
  "spent_usd_e5 (record_usage g i out) = spent_usd_e5 g + call_cost i out"
  by (simp add: record_usage_def)

lemma spent_record_call [simp, guard_simps]:
  "spent_usd_e5 (record_call g u) = spent_usd_e5 g + usage_cost u"
  by (simp add: record_call_def usage_cost_def split: option.split)

lemma ceiling_record_call [simp, guard_simps]:
  "ceiling_usd_e5 (record_call g u) = ceiling_usd_e5 g"
  by (simp add: record_call_def record_usage_def split: option.split)

lemma check_or_raise_Inr [guard_simps]: "check_or_raise g = Inr x \<longleftrightarrow> spent_usd_e5 g < ceiling_usd_e5 g"
  by (auto simp: check_or_raise_def)

lemma check_or_raise_Inl [guard_simps]:
  "check_or_raise g = Inl e \<longleftrightarrow>
     ceiling_usd_e5 g \<le> spent_usd_e5 g \<and> e = BudgetExceeded (spent_usd_e5 g) (ceiling_usd_e5 g)"
  by (auto simp: check_or_raise_def)

lemma usage_cost_nonneg: "usage_ok u \<Longrightarrow> 0 \<le> usage_cost u"
  by (auto simp: usage_ok_def usage_cost_def call_cost_def PRICE_IN_E5_PER_KTOK_def
      PRICE_OUT_E5_PER_KTOK_def split: option.splits)

section \<open>The interface the nodes rely on\<close>

text \<open>
  \<open>charge_all\<close> is the guard after a sequence of calls; \<open>admissible\<close> says that each of them was
  preceded by a check that passed, which is how every node makes its calls.
\<close>

fun charge_all :: "('g \<Rightarrow> 'u \<Rightarrow> 'g) \<Rightarrow> 'g \<Rightarrow> 'u list \<Rightarrow> 'g" where
  "charge_all ch g [] = g"
| "charge_all ch g (u # us) = charge_all ch (ch g u) us"

fun admissible :: "('g \<Rightarrow> bool) \<Rightarrow> ('g \<Rightarrow> 'u \<Rightarrow> 'g) \<Rightarrow> 'g \<Rightarrow> 'u list \<Rightarrow> bool" where
  "admissible ok ch g [] = True"
| "admissible ok ch g (u # us) = (ok g \<and> admissible ok ch (ch g u) us)"

lemma charge_all_append: "charge_all ch g (us @ vs) = charge_all ch (charge_all ch g us) vs"
  by (induction us arbitrary: g) simp_all

lemma admissible_append:
  "admissible ok ch g (us @ vs) \<longleftrightarrow> admissible ok ch g us \<and> admissible ok ch (charge_all ch g us) vs"
  by (induction us arbitrary: g) simp_all

locale spend_guard =
  fixes passes :: "'g \<Rightarrow> bool"
    and charge :: "'g \<Rightarrow> 'u \<Rightarrow> 'g"
    and spent :: "'g \<Rightarrow> int"
    and limit :: "'g \<Rightarrow> int"
    and cost :: "'u \<Rightarrow> int"
  assumes passes_iff: "passes g \<longleftrightarrow> spent g < limit g"
    and spent_charge: "spent (charge g u) = spent g + cost u"
    and limit_charge: "limit (charge g u) = limit g"
begin

lemma limit_charge_all: "limit (charge_all charge g us) = limit g"
  by (induction us arbitrary: g) (simp_all add: limit_charge)

lemma spent_charge_all: "spent (charge_all charge g us) = spent g + sum_list (map cost us)"
  by (induction us arbitrary: g) (simp_all add: spent_charge)

text \<open>Whatever was spent before the last guarded call was below the limit.\<close>

lemma admissible_before_last:
  "admissible passes charge g (us @ [u]) \<Longrightarrow> spent g + sum_list (map cost us) < limit g"
  using passes_iff [of "charge_all charge g us"]
  by (simp add: admissible_append limit_charge_all spent_charge_all)

text \<open>So a run of guarded calls overshoots the limit by less than the cost of its last call.\<close>

lemma admissible_overshoot:
  assumes "admissible passes charge g us" and "us \<noteq> []"
  shows "spent (charge_all charge g us) < limit g + cost (last us)"
proof -
  have us: "us = butlast us @ [last us]" using assms(2) by simp
  have "spent g + sum_list (map cost (butlast us)) < limit g"
    using admissible_before_last [of g "butlast us" "last us"] assms(1) us by simp
  moreover have "sum_list (map cost us) = sum_list (map cost (butlast us)) + cost (last us)"
    by (subst us) simp
  ultimately show ?thesis by (simp add: spent_charge_all)
qed

lemma admissible_bound:
  assumes "admissible passes charge g us" and "\<And>u. u \<in> set us \<Longrightarrow> cost u \<le> m" and "spent g \<le> limit g + m"
  shows "spent (charge_all charge g us) \<le> limit g + m"
proof (cases "us = []")
  case True
  then show ?thesis using assms(3) by simp
next
  case False
  have "spent (charge_all charge g us) < limit g + cost (last us)"
    by (rule admissible_overshoot [OF assms(1) False])
  moreover have "cost (last us) \<le> m" using assms(2) False by simp
  ultimately show ?thesis by simp
qed

text \<open>Once the limit is reached no further call is admissible.\<close>

lemma exhausted_stops: "limit g \<le> spent g \<Longrightarrow> admissible passes charge g us \<Longrightarrow> us = []"
  using passes_iff [of g] by (cases us) auto

end

definition guard_passes :: "budget_guard \<Rightarrow> bool" where
  "guard_passes g = (check_or_raise g = Inr ())"

lemma guard_passes_iff [guard_simps]: "guard_passes g \<longleftrightarrow> spent_usd_e5 g < ceiling_usd_e5 g"
  by (simp add: guard_passes_def check_or_raise_Inr)

interpretation bg: spend_guard guard_passes record_call spent_usd_e5 ceiling_usd_e5 usage_cost
  by unfold_locales (simp_all add: guard_passes_iff)

text \<open>The calls one request makes on its guard, each preceded by a check, stopping at a refusal.\<close>

(* src/taxcalc-agent-svc/src/taxcalc_agent_svc/budgets.py:94-154 check-then-record protocol *)
fun guarded_calls :: "budget_guard \<Rightarrow> usage option list \<Rightarrow> budget_guard \<times> usage option list" where
  "guarded_calls g [] = (g, [])"
| "guarded_calls g (u # us) =
     (case check_or_raise g of
        Inl e \<Rightarrow> (g, [])
      | Inr _ \<Rightarrow> (let (g', done) = guarded_calls (record_call g u) us in (g', u # done)))"

lemma guarded_calls_admissible:
  "guarded_calls g us = (g', done) \<Longrightarrow>
     admissible guard_passes record_call g done \<and> g' = charge_all record_call g done \<and> prefix done us"
proof (induction g us arbitrary: g' "done" rule: guarded_calls.induct)
  case (2 g u us)
  then show ?case
    by (cases "check_or_raise g")
      (auto simp: guard_passes_def check_or_raise_def split: prod.splits if_splits)
qed simp

section \<open>Properties\<close>


definition usage_1k :: "usage option" where
  "usage_1k = Some \<lparr>input_tokens = Some 1000, output_tokens = Some 1000\<rparr>"


text \<open>
  The in-process tally differs from the exact price by truncation only: over any number of
  calls it never exceeds the exact price, and falls short of it by less than one unit per call.
\<close>

theorem tally_truncation_bound:
  "let exact = sum_list (map (\<lambda>(i, out). i * 300 + out * 1500) calls);
       g' = fold (\<lambda>(i, out) g. record_usage g i out) calls g;
       tally = spent_usd_e5 g' - spent_usd_e5 g
   in 1000 * tally \<le> exact \<and> exact - 1000 * tally \<le> 999 * int (length calls)"
proof (induction calls arbitrary: g)
  case (Cons p calls)
  obtain i out where p: "p = (i, out)" by (cases p)
  define e where "e = i * 300 + out * 1500"
  have c: "call_cost i out = e div 1000"
    by (simp add: call_cost_def e_def PRICE_IN_E5_PER_KTOK_def PRICE_OUT_E5_PER_KTOK_def)
  have d: "1000 * (e div 1000) \<le> e" "e - 1000 * (e div 1000) \<le> 999"
    using pos_mod_bound [of 1000 e] pos_mod_sign [of 1000 e] by (simp_all add: minus_mult_div_eq_mod)
  show ?case
    using Cons.IH [of "record_usage g i out"] d
    unfolding Let_def by (simp add: p c algebra_simps flip: e_def)
qed simp

end
