(* ===== verification/Llm.thy ===== *)
theory Llm
  imports Budgets Json
begin

text \<open>
  The shapes of the Anthropic messages API the nodes read and write: content blocks, a completed
  message, the turns of a conversation. The model behind the API is an argument of every node: a
  function from the number of the request and the conversation sent to a response or an exception.
\<close>

datatype content_block =
    TextBlock string
  | ToolUse string string json
  | OtherBlock

record llm_response =
  stop_reason :: string
  content :: "content_block list"
  resp_usage :: "usage option"

record tool_result =
  tool_use_id :: string
  result_text :: string
  is_error :: bool

datatype turn =
    UserTurn string
  | AssistantTurn "content_block list"
  | ToolResultsTurn "tool_result list"

fun tool_use_ids :: "content_block list \<Rightarrow> string list" where
  "tool_use_ids [] = []"
| "tool_use_ids (ToolUse i n a # bs) = i # tool_use_ids bs"
| "tool_use_ids (b # bs) = tool_use_ids bs"

text \<open>
  The protocol of the API: after the first user turn, assistant turns and turns of tool results
  alternate, and the results answer exactly the assistant's tool calls, in order.
\<close>

fun paired :: "turn list \<Rightarrow> bool" where
  "paired [] = True"
| "paired (AssistantTurn bs # ToolResultsTurn rs # ts) =
     (map tool_use_id rs = tool_use_ids bs \<and> paired ts)"
| "paired _ = False"

fun protocol_ok :: "turn list \<Rightarrow> bool" where
  "protocol_ok (UserTurn q # ts) = paired ts"
| "protocol_ok _ = False"

lemma paired_append:
  "paired ts \<Longrightarrow> paired (ts @ [AssistantTurn bs, ToolResultsTurn rs]) \<longleftrightarrow> map tool_use_id rs = tool_use_ids bs"
  by (induction ts rule: paired.induct) simp_all

lemma protocol_ok_append:
  assumes "protocol_ok ts" and "map tool_use_id rs = tool_use_ids bs"
  shows "protocol_ok (ts @ [AssistantTurn bs, ToolResultsTurn rs])"
proof -
  obtain q us where ts: "ts = UserTurn q # us" "paired us"
    using assms(1) by (cases ts rule: protocol_ok.cases) auto
  show ?thesis using assms(2) by (simp add: ts paired_append)
qed

end
