(* ===== verification/Deps.thy ===== *)
theory Deps
  imports AgentState Llm
begin

text \<open>
  \<open>taxcalc_agent_svc/deps.py\<close> and \<open>run_config\<close> of \<open>graph.py\<close>: the per-request dependencies that
  travel on the run's configuration, not in its state. The MCP session is an argument of the
  development: what its catalogue lists, and what the n-th tool call with given arguments returns.
\<close>

record tool_spec =
  tool_name :: string
  description :: string
  input_schema :: jdict

record mcp_session =
  list_tools :: "tool_spec list res"
  session_call :: "nat \<Rightarrow> string \<Rightarrow> jdict \<Rightarrow> json res"

text \<open>
  What a slot of \<open>configurable\<close> can hold: the guard, a live session, a zero-argument provider of
  one, \<open>None\<close>, or anything else a caller put there.
\<close>

datatype cfg_value =
    GuardV budget_guard
  | SessionV mcp_session
  | ProviderV "mcp_session option res"
  | NoneV
  | OtherV string

record run_cfg =
  configurable :: "(string, cfg_value) dict option"
  recursion_limit :: nat

(* src/taxcalc-agent-svc/src/taxcalc_agent_svc/deps.py:67-68 MCP_SESSION_KEY *)
definition MCP_SESSION_KEY :: string where
  "MCP_SESSION_KEY = ''mcp_session''"

(* src/taxcalc-agent-svc/src/taxcalc_agent_svc/deps.py:69-70 BUDGET_GUARD_KEY *)
definition BUDGET_GUARD_KEY :: string where
  "BUDGET_GUARD_KEY = ''budget_guard''"

definition configurable_of :: "run_cfg option \<Rightarrow> (string, cfg_value) dict" where
  "configurable_of c = (case c of None \<Rightarrow> [] | Some r \<Rightarrow> (case configurable r of None \<Rightarrow> [] | Some d \<Rightarrow> d))"

(* src/taxcalc-agent-svc/src/taxcalc_agent_svc/deps.py:73-92 budget_guard *)
definition guard_of :: "run_cfg option \<Rightarrow> budget_guard res" where
  "guard_of c = (case dict_get (configurable_of c) BUDGET_GUARD_KEY of
     Some (GuardV g) \<Rightarrow> Inr g | _ \<Rightarrow> Inl (KeyError ''budget_guard''))"

(* src/taxcalc-agent-svc/src/taxcalc_agent_svc/deps.py:133-155 mcp_session *)
definition session_slot :: "run_cfg option \<Rightarrow> cfg_value res" where
  "session_slot c = (case dict_get (configurable_of c) MCP_SESSION_KEY of
     Some v \<Rightarrow> Inr v | None \<Rightarrow> Inl (KeyError ''mcp_session''))"

(* src/taxcalc-agent-svc/src/taxcalc_agent_svc/deps.py:95-130 open_session *)
definition open_session :: "run_cfg option \<Rightarrow> cfg_value res" where
  "open_session c = bind_res (session_slot c) (\<lambda>v.
     bind_res (case v of ProviderV r \<Rightarrow>
         bind_res r (\<lambda>s. Inr (case s of None \<Rightarrow> NoneV | Some x \<Rightarrow> SessionV x)) | _ \<Rightarrow> Inr v)
       (\<lambda>v'. if v' = NoneV then Inl (KeyError ''no MCP session'') else Inr v'))"

(* src/taxcalc-agent-svc/src/taxcalc_agent_svc/graph.py:187-233 run_config *)
definition run_config ::
  "string \<Rightarrow> nat \<Rightarrow> budget_guard \<Rightarrow> cfg_value \<Rightarrow> (string, cfg_value) dict \<Rightarrow> run_cfg" where
  "run_config thread limit g session extra =
     \<lparr>configurable = Some (dict_merge [(''thread_id'', OtherV thread), (BUDGET_GUARD_KEY, GuardV g),
        (MCP_SESSION_KEY, session)] extra),
      recursion_limit = limit\<rparr>"

lemma guard_of_run_config: "guard_of (Some (run_config th n g s [])) = Inr g"
  by (simp add: guard_of_def run_config_def configurable_of_def BUDGET_GUARD_KEY_def MCP_SESSION_KEY_def)

lemma session_of_run_config: "session_slot (Some (run_config th n g s [])) = Inr s"
  by (simp add: session_slot_def run_config_def configurable_of_def BUDGET_GUARD_KEY_def MCP_SESSION_KEY_def)

lemma open_session_run_config:
  "open_session (Some (run_config th n g (SessionV s) [])) = Inr (SessionV s)"
  "open_session (Some (run_config th n g (ProviderV (Inr (Some s))) [])) = Inr (SessionV s)"
  "open_session (Some (run_config th n g (ProviderV (Inl e)) [])) = Inl e"
  by (simp_all add: open_session_def session_of_run_config)

text \<open>
  The dependencies come from the configuration only. A configuration \<open>run_config\<close> builds yields
  its own guard; without a guard, or without a session, the node raises \<open>KeyError\<close> instead of
  running unguarded; a session slot holding \<open>None\<close> is refused when it is used.
\<close>

theorem dependencies_explicit:
  "guard_of (Some (run_config th n g s [])) = Inr g
   \<and> recursion_limit (run_config th n g s []) = n
   \<and> (\<exists>m. guard_of None = Inl (KeyError m)) \<and> (\<exists>m. open_session None = Inl (KeyError m))
   \<and> (\<exists>m. open_session (Some (run_config th n g NoneV [])) = Inl (KeyError m))
   \<and> (\<exists>m. open_session (Some (run_config th n g (ProviderV (Inr None)) [])) = Inl (KeyError m))"
  by (simp add: guard_of_run_config open_session_def session_of_run_config)
    (simp add: guard_of_def session_slot_def configurable_of_def run_config_def)

end
