(* ===== verification/Deadline.thy ===== *)
theory Deadline
  imports AgentState
begin

text \<open>
  \<open>taxcalc_agent_svc/nodes/_deadline.py\<close>: the wrapper every node body runs in. \<open>asyncio.wait_for\<close>
  either hands back what the body did (a value or an exception) or cancels it and raises
  \<open>TimeoutError\<close>; what the body would have done, and whether the budget runs out first, are the
  environment's choice, so the run of a body is a \<open>body_run\<close>.
\<close>

datatype 'a body_run =
    Finished "'a res"
  | CutOff

definition wait_for :: "'a body_run \<Rightarrow> 'a res" where
  "wait_for r = (case r of Finished x \<Rightarrow> x | CutOff \<Rightarrow> Inl TimeoutError)"

text \<open>The metadata recorded on the node's own run: the key and the limit.\<close>

(* src/taxcalc-agent-svc/src/taxcalc_agent_svc/nodes/_deadline.py:64-67 DEADLINE_EXCEEDED_KEY *)
definition DEADLINE_EXCEEDED_KEY :: string where
  "DEADLINE_EXCEEDED_KEY = ''deadline_exceeded''"

record 'a node_outcome =
  returned :: "'a res"
  metadata :: "(string \<times> rat) list"

(* src/taxcalc-agent-svc/src/taxcalc_agent_svc/nodes/_deadline.py:72-126 deadline *)
definition deadline :: "rat \<Rightarrow> 'a \<Rightarrow> bool \<Rightarrow> 'a body_run \<Rightarrow> 'a node_outcome" where
  "deadline seconds sentinel run_tree r =
     (case wait_for r of
        Inl TimeoutError \<Rightarrow>
          \<lparr>returned = Inr sentinel,
           metadata = (if run_tree then [(DEADLINE_EXCEEDED_KEY, seconds)] else [])\<rparr>
      | x \<Rightarrow> \<lparr>returned = x, metadata = []\<rparr>)"

lemma deadline_finished:
  "deadline s z t (Finished (Inr a)) = \<lparr>returned = Inr a, metadata = []\<rparr>"
  "e \<noteq> TimeoutError \<Longrightarrow> deadline s z t (Finished (Inl e)) = \<lparr>returned = Inl e, metadata = []\<rparr>"
  by (cases e; simp add: deadline_def wait_for_def)+

lemma deadline_cut:
  "returned (deadline s z t CutOff) = Inr z"
  "returned (deadline s z t (Finished (Inl TimeoutError))) = Inr z"
  by (simp_all add: deadline_def wait_for_def)

text \<open>The sentinel each node is wrapped with names the node's own output slot.\<close>

(* src/taxcalc-agent-svc/src/taxcalc_agent_svc/nodes/retrieval.py:258-258 retrieval sentinel *)
definition retrieval_sentinel :: partial_state where
  "retrieval_sentinel = empty_update\<lparr>p_docs := Some []\<rparr>"

(* src/taxcalc-agent-svc/src/taxcalc_agent_svc/nodes/api.py:292-292 api sentinel *)
definition api_sentinel :: partial_state where
  "api_sentinel = empty_update\<lparr>p_tool_results := Some []\<rparr>"

lemma sentinel_contributes_nothing:
  "u = retrieval_sentinel \<or> u = api_sentinel \<Longrightarrow>
     contrib (p_docs u) = [] \<and> or_empty (p_tool_results u) = [] \<and> contrib (p_visited u) = []
     \<and> contrib_cost (p_cost u) = 0"
  by (auto simp: retrieval_sentinel_def api_sentinel_def empty_update_def contrib_def or_empty_def
      contrib_cost_def)

section \<open>Properties\<close>

text \<open>
  A deadline never turns into a failed run: the wrapper returns exactly what the body returned
  or raised, except that a cut-off, and also a \<open>TimeoutError\<close> the body raised itself, returns the
  sentinel and tags the node's run; nothing else is tagged.
\<close>

theorem deadline_total:
  "returned (deadline s z t r) =
      (case r of CutOff \<Rightarrow> Inr z
       | Finished (Inl e) \<Rightarrow> (if e = TimeoutError then Inr z else Inl e)
       | Finished (Inr a) \<Rightarrow> Inr a)
   \<and> (metadata (deadline s z t r) \<noteq> [] \<longleftrightarrow> t \<and> (r = CutOff \<or> r = Finished (Inl TimeoutError)))"
  by (cases r) (auto simp: deadline_def wait_for_def split: sum.split exn.split)

text \<open>
  A leg that missed its deadline leaves the other leg's contribution intact: its sentinel adds
  no document, no tool result, no visit and no cost, whatever the other contributions are.
\<close>

theorem deadline_preserves_other_leg:
  assumes "u = retrieval_sentinel \<or> u = api_sentinel"
  shows "docs (fan_in am s (us @ u # vs)) = docs (fan_in am s (us @ vs))
    \<and> tool_results (fan_in am s (us @ u # vs)) = tool_results (fan_in am s (us @ vs))
    \<and> cost_usd_e5 (fan_in am s (us @ u # vs)) = cost_usd_e5 (fan_in am s (us @ vs))
    \<and> visited_nodes (fan_in am s (us @ u # vs)) = visited_nodes (fan_in am s (us @ vs))"
  using sentinel_contributes_nothing [OF assms]
  by (simp add: fan_in_docs fan_in_tools fan_in_cost fan_in_visited)
    (simp add: merge_tool_results_def or_empty_def)

theorem deadline_preserves_other_leg_witness:
  "docs (fan_in (@) (entry_state [] ''t'' ''th'') [retrieval_update, api_sentinel])
     = docs (fan_in (@) (entry_state [] ''t'' ''th'') [retrieval_update])
   \<and> docs (fan_in (@) (entry_state [] ''t'' ''th'') [retrieval_update]) \<noteq> []"
  using deadline_preserves_other_leg [of api_sentinel "(@)" "entry_state [] ''t'' ''th''" "[retrieval_update]" "[]"]
  by (simp add: retrieval_update_def contrib_def)

end
