(* ===== verification/Chunker.thy ===== *)
theory Chunker
  imports Json
begin

text \<open>
  \<open>taxcalc_ai/chunker.py\<close>: stamping split documents with synthetic chunk ids. The splitter itself
  is the library's (\<open>split\<close>, an argument: chunk size, overlap and documents to pieces that carry
  their document's metadata). Proved: identifiers are injective in document and ordinal, an
  ordinal is the position of a chunk within its own document, and the ids of one run are distinct.
\<close>

record source_doc =
  page_content :: string
  doc_meta :: jdict

(* src/taxcalc-ai/src/taxcalc_ai/chunker.py:42-45 DEFAULT_CHUNK_SIZE *)
definition DEFAULT_CHUNK_SIZE :: int where "DEFAULT_CHUNK_SIZE = 900"

(* src/taxcalc-ai/src/taxcalc_ai/chunker.py:47-50 DEFAULT_OVERLAP *)
definition DEFAULT_OVERLAP :: int where "DEFAULT_OVERLAP = 150"

(* src/taxcalc-ai/src/taxcalc_ai/chunker.py:68-71 UNKNOWN_DOC_ID *)
definition UNKNOWN_DOC_ID :: string where "UNKNOWN_DOC_ID = ''doc-synth-unknown''"

(* src/taxcalc-ai/src/taxcalc_ai/chunker.py:74-86 chunk_id_for *)
definition chunk_id_for :: "string \<Rightarrow> nat \<Rightarrow> string" where
  "chunk_id_for d n = ''chunk-'' @ d @ ''-p'' @ nat_str n"

(* src/taxcalc-ai/src/taxcalc_ai/chunker.py:89-115 make_splitter *)
definition make_splitter :: "int \<Rightarrow> int \<Rightarrow> (int \<times> int) res" where
  "make_splitter csize overlap =
     (if \<not> (0 \<le> overlap \<and> overlap < csize div 2)
      then Inl (ValueError ''overlap must satisfy 0 <= overlap < chunk_size/2'')
      else Inr (csize, overlap))"

(* src/taxcalc-ai/src/taxcalc_ai/chunker.py:147-147 doc_id of a chunk *)
definition source_doc_id :: "(json \<Rightarrow> string) \<Rightarrow> source_doc \<Rightarrow> string" where
  "source_doc_id rp c = py_str rp (get_or (doc_meta c) ''doc_id'' (JStr UNKNOWN_DOC_ID))"

(* src/taxcalc-ai/src/taxcalc_ai/chunker.py:145-152 stamping loop of chunk_docs *)
fun stamp :: "(json \<Rightarrow> string) \<Rightarrow> (string, nat) dict \<Rightarrow> source_doc list \<Rightarrow> source_doc list" where
  "stamp rp seen [] = []"
| "stamp rp seen (c # cs) =
     (let d = source_doc_id rp c;
          n = (case dict_get seen d of None \<Rightarrow> 0 | Some m \<Rightarrow> m);
          m1 = dict_set ''doc_id'' (JStr d) (doc_meta c);
          m2 = dict_set ''chunk_ordinal'' (JInt (int n)) m1;
          m3 = dict_set ''chunk_id'' (JStr (chunk_id_for d n)) m2
      in c\<lparr>doc_meta := m3\<rparr> # stamp rp (dict_set d (n + 1) seen) cs)"

(* src/taxcalc-ai/src/taxcalc_ai/chunker.py:118-164 chunk_docs *)
definition chunk_docs ::
  "(int \<Rightarrow> int \<Rightarrow> source_doc list \<Rightarrow> source_doc list) \<Rightarrow> (json \<Rightarrow> string) \<Rightarrow> source_doc list \<Rightarrow> int \<Rightarrow> int
     \<Rightarrow> source_doc list res" where
  "chunk_docs split rp ds csize overlap =
     bind_res (make_splitter csize overlap) (\<lambda>(sz, ov). Inr (stamp rp [] (split sz ov ds)))"

section \<open>Identifiers\<close>

lemma no_sep_in_digits:
  assumes "CHR ''-'' \<notin> set s"
  shows "rsplit1 ''-p'' s = None"
  unfolding rsplit1_None contains_sublist
  using assms by (auto dest: set_mono_sublist)

lemma rsplit1_chunk_tail: "rsplit1 ''-p'' (''-p'' @ nat_str n) = Some ([], nat_str n)"
proof -
  have no: "CHR ''-'' \<notin> set (nat_str n)" by (rule nat_str_no_char) simp
  have nop: "rsplit1 ''-p'' (CHR ''p'' # nat_str n) = None"
    by (rule no_sep_in_digits) (use no in simp)
  then show ?thesis by simp
qed

lemma rsplit1_chunk: "rsplit1 ''-p'' (t @ ''-p'' @ nat_str n) = Some (t, nat_str n)"
  by (rule rsplit1_at) (simp, rule rsplit1_chunk_tail)

lemma chunk_id_inj: "chunk_id_for d n = chunk_id_for d' n' \<longleftrightarrow> d = d' \<and> n = n'"
proof
  assume "chunk_id_for d n = chunk_id_for d' n'"
  then have "rsplit1 ''-p'' (d @ ''-p'' @ nat_str n) = rsplit1 ''-p'' (d' @ ''-p'' @ nat_str n')"
    by (simp add: chunk_id_for_def)
  then show "d = d' \<and> n = n'"
    by (simp only: rsplit1_chunk) (simp add: nat_str_inj)
qed simp

section \<open>Stamps\<close>

definition stamped_id :: "source_doc \<Rightarrow> json option" where
  "stamped_id c = dict_get (doc_meta c) ''chunk_id''"

definition seen_count :: "(string, nat) dict \<Rightarrow> string \<Rightarrow> nat" where
  "seen_count seen d = (case dict_get seen d of None \<Rightarrow> 0 | Some m \<Rightarrow> m)"

lemma seen_count_set: "seen_count (dict_set d n seen) d' = (if d' = d then n else seen_count seen d')"
  by (simp add: seen_count_def)

lemma seen_count_Nil [simp]: "seen_count [] d = 0"
  by (simp add: seen_count_def)

lemma stamp_length [simp]: "length (stamp rp seen cs) = length cs"
  by (induction cs arbitrary: seen) (simp_all add: Let_def)

text \<open>The i-th chunk's number: how many chunks of its document stood before it.\<close>

definition earlier :: "(json \<Rightarrow> string) \<Rightarrow> source_doc list \<Rightarrow> nat \<Rightarrow> nat" where
  "earlier rp cs i = length (filter (\<lambda>c. source_doc_id rp c = source_doc_id rp (cs ! i)) (take i cs))"

lemma stamp_nth:
  "i < length cs \<Longrightarrow>
     (let d = source_doc_id rp (cs ! i); n = seen_count seen d + earlier rp cs i; c = stamp rp seen cs ! i
      in page_content c = page_content (cs ! i)
       \<and> dict_get (doc_meta c) ''doc_id'' = Some (JStr d)
       \<and> dict_get (doc_meta c) ''chunk_ordinal'' = Some (JInt (int n))
       \<and> dict_get (doc_meta c) ''chunk_id'' = Some (JStr (chunk_id_for d n))
       \<and> (\<forall>k. k \<notin> {''doc_id'', ''chunk_ordinal'', ''chunk_id''} \<longrightarrow>
            dict_get (doc_meta c) k = dict_get (doc_meta (cs ! i)) k))"
proof (induction cs arbitrary: seen i)
  case (Cons c cs)
  show ?case
  proof (cases i)
    case 0
    then show ?thesis by (simp add: Let_def earlier_def seen_count_def)
  next
    case (Suc j)
    let ?d = "source_doc_id rp c"
    let ?seen = "dict_set ?d (seen_count seen ?d + 1) seen"
    have j: "j < length cs" using Cons.prems Suc by simp
    have nth: "stamp rp seen (c # cs) ! i = stamp rp ?seen cs ! j"
      by (simp add: Suc Let_def seen_count_def)
    have n: "seen_count seen (source_doc_id rp (cs ! j)) + earlier rp (c # cs) (Suc j)
        = seen_count ?seen (source_doc_id rp (cs ! j)) + earlier rp cs j"
      by (auto simp: earlier_def seen_count_set)
    show ?thesis
      using Cons.IH [OF j, of ?seen] unfolding nth Let_def by (simp add: Suc n)
  qed
qed simp

lemma earlier_less:
  assumes "i < j" "j < length cs" "source_doc_id rp (cs ! i) = source_doc_id rp (cs ! j)"
  shows "earlier rp cs i < earlier rp cs j"
proof -
  let ?P = "\<lambda>c. source_doc_id rp c = source_doc_id rp (cs ! j)"
  have "take j cs = take i cs @ cs ! i # take (j - Suc i) (drop (Suc i) cs)"
  proof -
    have "take j cs = take i cs @ take (j - i) (drop i cs)"
      using assms(1) by (metis le_add_diff_inverse less_imp_le take_add)
    moreover have "drop i cs = cs ! i # drop (Suc i) cs"
      using assms by (simp add: Cons_nth_drop_Suc)
    ultimately show ?thesis using assms(1) by (simp add: take_Cons' Suc_diff_Suc)
  qed
  then show ?thesis using assms(3) by (simp add: earlier_def)
qed

lemma stamp_distinct: "distinct (map stamped_id (stamp rp [] cs))"
proof (subst distinct_conv_nth, intro allI impI)
  fix i j
  assume i: "i < length (map stamped_id (stamp rp [] cs))" and j: "j < length (map stamped_id (stamp rp [] cs))"
    and "i \<noteq> j"
  have st: "stamped_id (stamp rp [] cs ! k) = Some (JStr (chunk_id_for (source_doc_id rp (cs ! k)) (earlier rp cs k)))"
    if "k < length cs" for k
    using stamp_nth [OF that, of rp "[]"] by (simp add: Let_def stamped_id_def)
  have "source_doc_id rp (cs ! i) \<noteq> source_doc_id rp (cs ! j) \<or> earlier rp cs i \<noteq> earlier rp cs j"
    using earlier_less [of i j cs rp] earlier_less [of j i cs rp] \<open>i \<noteq> j\<close> i j
    by (cases i j rule: linorder_cases) auto
  then show "map stamped_id (stamp rp [] cs) ! i \<noteq> map stamped_id (stamp rp [] cs) ! j"
    using st [of i] st [of j] i j by (auto simp: chunk_id_inj)
qed

section \<open>Properties\<close>

text \<open>
  Chunk ids are citations that stay resolvable: \<open>chunk_docs\<close> refuses an illegal overlap, and
  otherwise the i-th piece the splitter produced gets its document's id and the number of pieces
  of the same document before it, every other metadata entry untouched, and no two chunks of the
  run share an id.
\<close>

theorem chunk_docs_ids:
  assumes "chunk_docs split rp ds csize overlap = Inr cs"
  shows "0 \<le> overlap \<and> 2 * overlap < csize \<and> length cs = length (split csize overlap ds)
    \<and> distinct (map stamped_id cs)
    \<and> (\<forall>i < length cs. let p = split csize overlap ds ! i in
         page_content (cs ! i) = page_content p
       \<and> stamped_id (cs ! i) = Some (JStr (chunk_id_for (source_doc_id rp p) (earlier rp (split csize overlap ds) i)))
       \<and> (\<forall>k. k \<notin> {''doc_id'', ''chunk_ordinal'', ''chunk_id''} \<longrightarrow>
            dict_get (doc_meta (cs ! i)) k = dict_get (doc_meta p) k))"
proof -
  have ok: "0 \<le> overlap" "overlap < csize div 2" and cs: "cs = stamp rp [] (split csize overlap ds)"
    using assms by (auto simp: chunk_docs_def make_splitter_def bind_res_eq_Inr split: if_splits)
  have "2 * overlap < csize" using ok(2) by linarith
  moreover have "distinct (map stamped_id cs)" unfolding cs by (rule stamp_distinct)
  ultimately show ?thesis
    using ok(1) stamp_nth [of _ "split csize overlap ds" rp "[]"] by (simp add: cs Let_def stamped_id_def)
qed

definition demo_docs :: "source_doc list" where
  "demo_docs = [\<lparr>page_content = ''a'', doc_meta = [(''doc_id'', JStr ''d'')]\<rparr>,
     \<lparr>page_content = ''b'', doc_meta = []\<rparr>, \<lparr>page_content = ''c'', doc_meta = [(''doc_id'', JStr ''d'')]\<rparr>]"

theorem chunk_docs_ids_witness:
  "\<exists>cs. chunk_docs (\<lambda>_ _ ds. ds) (\<lambda>_. []) demo_docs 900 150 = Inr cs \<and> length cs = 3
     \<and> distinct (map stamped_id cs) \<and> stamped_id (cs ! 2) = Some (JStr ''chunk-d-p1'')"
proof -
  obtain cs where cs: "chunk_docs (\<lambda>_ _ ds. ds) (\<lambda>_. []) demo_docs 900 150 = Inr cs"
    by (simp add: chunk_docs_def make_splitter_def)
  have "stamped_id (cs ! 2) = Some (JStr ''chunk-d-p1'')" and "length cs = 3"
    using cs by (auto simp: chunk_docs_def make_splitter_def demo_docs_def stamped_id_def Let_def
        chunk_id_for_def source_doc_id_def py_str_def get_or_def nat_str_small digit_chars
        digit_chars(1) [simplified] digit_chars(2) [simplified] UNKNOWN_DOC_ID_def)
  then show ?thesis
    using cs chunk_docs_ids [OF cs] by auto
qed

end
