(* ===== verification/RetrievalNode.thy ===== *)
theory RetrievalNode
  imports Deps Deadline Chunker
begin

text \<open>
  \<open>taxcalc_agent_svc/nodes/retrieval.py\<close> and the seam of \<open>retrievers.py\<close>: a paid query rewrite,
  the paid retrieval pipeline, and the reduction of its citations to the three fields the graph
  carries. Arguments of the node: the model's answer to the rewrite request (\<open>rewrite\<close>), the
  pipeline (\<open>pipeline\<close>: query and tenant to its raw result), the parsers of numbers in strings and
  the rounding \<open>fl\<close>.
\<close>

section \<open>Definitions\<close>

(* src/taxcalc-agent-svc/src/taxcalc_agent_svc/nodes/retrieval.py:51-54 TOP_K *)
definition TOP_K :: nat where "TOP_K = 8"

(* src/taxcalc-agent-svc/src/taxcalc_agent_svc/nodes/retrieval.py:66-72 RERANKER_ENV *)
definition RERANKER_ENV :: string where "RERANKER_ENV = ''RERANKER''"

record num_env =
  num_fl :: "rat \<Rightarrow> rat"
  num_float :: "string \<Rightarrow> rat option"
  num_int :: "string \<Rightarrow> int option"
  num_repr :: "json \<Rightarrow> string"

definition text_parts :: "content_block list \<Rightarrow> string list" where
  "text_parts bs = concat (map (\<lambda>b. case b of TextBlock t \<Rightarrow> [t] | _ \<Rightarrow> []) bs)"

text \<open>
  The rewrite returns the query, the guard and the usage it billed (none when no response came).
\<close>

(* src/taxcalc-agent-svc/src/taxcalc_agent_svc/nodes/retrieval.py:75-124 rewrite_query *)
definition rewrite_query ::
  "string \<Rightarrow> llm_response res \<Rightarrow> budget_guard \<Rightarrow> string res \<times> budget_guard \<times> usage option list" where
  "rewrite_query q reply g =
     (case reply of
        Inl e \<Rightarrow> (if is_exception e then (Inr q, g, []) else (Inl e, g, []))
      | Inr resp \<Rightarrow>
          (let g' = record_call g (resp_usage resp);
               rewritten = strip (join '' '' (text_parts (content resp)))
           in (Inr (if rewritten \<noteq> [] then rewritten else q), g', [resp_usage resp])))"

text \<open>\<open>usage.get(k, 0) or 0\<close>, then \<open>int\<close>.\<close>

definition token_count :: "num_env \<Rightarrow> jdict \<Rightarrow> string \<Rightarrow> int res" where
  "token_count ne u k = (let v = get_or u k (JInt 0) in
     py_int (num_int ne) (if truthy v then v else JInt 0))"

(* src/taxcalc-agent-svc/src/taxcalc_agent_svc/nodes/retrieval.py:127-149 _record_pipeline_usage *)
definition record_pipeline_usage :: "num_env \<Rightarrow> jdict \<Rightarrow> budget_guard \<Rightarrow> usage option list res" where
  "record_pipeline_usage ne result g =
     (case dict_get result ''usage'' of
        Some (JObj u) \<Rightarrow>
          bind_res (token_count ne u ''input_tokens'') (\<lambda>i.
          bind_res (token_count ne u ''output_tokens'') (\<lambda>out.
            Inr [Some \<lparr>input_tokens = Some i, output_tokens = Some out\<rparr>]))
      | _ \<Rightarrow> Inr [])"

(* src/taxcalc-agent-svc/src/taxcalc_agent_svc/nodes/retrieval.py:181-194 doc_id_of *)
definition doc_id_of :: "string \<Rightarrow> string" where
  "doc_id_of cid =
     (if \<not> starts_with cid ''chunk-'' \<or> \<not> contains cid ''-p'' then cid
      else (let s = removeprefix ''chunk-'' cid in case rsplit1 ''-p'' s of Some (a, _) \<Rightarrow> a | None \<Rightarrow> s))"

definition shape_item :: "num_env \<Rightarrow> jdict \<Rightarrow> doc res" where
  "shape_item ne item =
     (let cid = py_str (num_repr ne) (get_or item ''chunk_id'' (JStr []));
          sc = get_or item ''score'' (JFloat 0)
      in bind_res (py_float (num_fl ne) (num_float ne) (if truthy sc then sc else JFloat 0))
           (\<lambda>r. Inr \<lparr>chunk_id = cid, doc_id = doc_id_of cid, score = r\<rparr>))"

fun dict_items :: "json list \<Rightarrow> jdict list" where
  "dict_items [] = []"
| "dict_items (JObj d # xs) = d # dict_items xs"
| "dict_items (x # xs) = dict_items xs"

(* src/taxcalc-agent-svc/src/taxcalc_agent_svc/nodes/retrieval.py:152-178 shape_docs *)
definition shape_docs :: "num_env \<Rightarrow> jdict \<Rightarrow> nat \<Rightarrow> doc list res" where
  "shape_docs ne result k =
     (case get_or result ''citations'' (JList []) of
        JList raw \<Rightarrow> map_res (shape_item ne) (dict_items (take k raw))
      | _ \<Rightarrow> Inr [])"

record retrieval_env =
  rewrite_llm :: "string \<Rightarrow> llm_response res"
  pipeline :: "string \<Rightarrow> string \<Rightarrow> jdict res"
  numbers :: num_env
  reranker_setting :: string

text \<open>What the node did: the usages it billed, the pipeline calls it made, the variable it set.\<close>

record retrieval_trace =
  r_guard :: budget_guard
  r_billed :: "usage option list"
  r_queries :: "(string \<times> string) list"
  r_environ :: "(string \<times> string) list"

text \<open>
  \<open>run_pipeline\<close> passes query and tenant on and drops \<open>top_k\<close>.
\<close>

(* src/taxcalc-agent-svc/src/taxcalc_agent_svc/retrievers.py:72-87 run_pipeline *)
definition run_pipeline :: "retrieval_env \<Rightarrow> string \<Rightarrow> string \<Rightarrow> nat \<Rightarrow> jdict res" where
  "run_pipeline e q tenant k = pipeline e q tenant"

(* src/taxcalc-agent-svc/src/taxcalc_agent_svc/nodes/retrieval.py:197-244 _retrieval *)
definition retrieval_body ::
  "retrieval_env \<Rightarrow> run_cfg option \<Rightarrow> agent_state \<Rightarrow> partial_state res \<times> retrieval_trace option" where
  "retrieval_body e cfg s =
     (case guard_of cfg of
        Inl x \<Rightarrow> (Inl x, None)
      | Inr g \<Rightarrow>
        (let t0 = \<lparr>r_guard = g, r_billed = [], r_queries = [], r_environ = []\<rparr> in
         case check_or_raise g of
           Inl x \<Rightarrow> (Inl x, Some t0)
         | Inr _ \<Rightarrow>
           (let (rq, g1, b1) = rewrite_query (question s) (rewrite_llm e (question s)) g;
                t1 = t0\<lparr>r_guard := g1, r_billed := b1\<rparr> in
            case rq of
              Inl x \<Rightarrow> (Inl x, Some t1)
            | Inr q \<Rightarrow>
              (let t2 = t1\<lparr>r_environ := [(RERANKER_ENV, reranker_setting e)]\<rparr> in
               case check_or_raise g1 of
                 Inl x \<Rightarrow> (Inl x, Some t2)
               | Inr _ \<Rightarrow>
                 (let t3 = t2\<lparr>r_queries := [(q, tenant_id s)]\<rparr> in
                  case run_pipeline e q (tenant_id s) TOP_K of
                    Inl x \<Rightarrow> (Inl x, Some t3)
                  | Inr result \<Rightarrow>
                    (case record_pipeline_usage (numbers e) result g1 of
                       Inl x \<Rightarrow> (Inl x, Some t3)
                     | Inr b2 \<Rightarrow>
                       (let g2 = charge_all record_call g1 b2;
                            t4 = t3\<lparr>r_guard := g2, r_billed := b1 @ b2\<rparr>
                        in (bind_res (shape_docs (numbers e) result TOP_K) (\<lambda>ds.
                              Inr (empty_update\<lparr>p_docs := Some ds,
                                p_cost := Some (spent_usd_e5 g2 - spent_usd_e5 g),
                                p_visited := Some [''retrieval_agent'']\<rparr>)), Some t4))))))))"

(* src/taxcalc-agent-svc/src/taxcalc_agent_svc/nodes/retrieval.py:247-275 make_retrieval_node *)
definition retrieval_node ::
  "rat \<Rightarrow> bool \<Rightarrow> partial_state body_run \<Rightarrow> partial_state node_outcome" where
  "retrieval_node seconds traced r = deadline seconds retrieval_sentinel traced r"

section \<open>Pieces\<close>

lemma rewrite_query_guard:
  "rewrite_query q reply g = (r, g', b) \<Longrightarrow> g' = charge_all record_call g b \<and> length b \<le> 1"
  by (auto simp: rewrite_query_def Let_def split: sum.splits if_splits)

lemma rewrite_query_falls_back:
  "is_exception e \<Longrightarrow> rewrite_query q (Inl e) g = (Inr q, g, [])"
  by (simp add: rewrite_query_def)

lemma rewrite_query_nonempty:
  "rewrite_query q reply g = (Inr q', g', b) \<Longrightarrow> q \<noteq> [] \<Longrightarrow> q' \<noteq> []"
  by (auto simp: rewrite_query_def Let_def split: sum.splits if_splits)

lemma record_pipeline_usage_length:
  "record_pipeline_usage ne result g = Inr b \<Longrightarrow> length b \<le> 1"
  by (auto simp: record_pipeline_usage_def bind_res_eq_Inr split: option.splits json.splits)

lemma length_dict_items: "length (dict_items xs) \<le> length xs"
  by (induction xs rule: dict_items.induct) auto

lemma shape_docs_length:
  assumes "shape_docs ne result k = Inr ds"
  shows "length ds \<le> k"
proof (cases "get_or result ''citations'' (JList [])")
  case (JList raw)
  then have "length ds = length (dict_items (take k raw))"
    using assms by (simp add: shape_docs_def map_res_length)
  then show ?thesis using length_dict_items [of "take k raw"] by simp
qed (use assms in \<open>simp_all add: shape_docs_def\<close>)

lemma shape_item_id: "shape_item ne i = Inr x \<Longrightarrow> doc_id x = doc_id_of (chunk_id x)"
  by (auto simp: shape_item_def Let_def bind_res_eq_Inr)

lemma shape_docs_items:
  assumes "shape_docs ne result k = Inr ds" and "x \<in> set ds"
  shows "doc_id x = doc_id_of (chunk_id x)"
proof (cases "get_or result ''citations'' (JList [])")
  case (JList raw)
  then have m: "map_res (shape_item ne) (dict_items (take k raw)) = Inr ds"
    using assms(1) by (simp add: shape_docs_def)
  obtain i where "i < length ds" and x: "x = ds ! i" using assms(2) by (auto simp: in_set_conv_nth)
  then have "shape_item ne (dict_items (take k raw) ! i) = Inr x"
    using map_res_nth [OF m] map_res_length [OF m] by simp
  then show ?thesis by (rule shape_item_id)
qed (use assms in \<open>simp_all add: shape_docs_def\<close>)

lemma charge_two: "length b \<le> 1 \<Longrightarrow> b = [] \<or> (\<exists>u. b = [u])"
  by (cases b) auto

text \<open>The spend of a node that was charged \<open>us\<close>.\<close>

lemma spent_charged: "spent_usd_e5 (charge_all record_call g us) - spent_usd_e5 g = sum_list (map usage_cost us)"
  by (simp add: bg.spent_charge_all)

lemma retrieval_body_trace:
  assumes "retrieval_body e cfg s = (r, Some t)" and g: "guard_of cfg = Inr g"
  shows "r_guard t = charge_all record_call g (r_billed t)
    \<and> admissible guard_passes record_call g (r_billed t)
    \<and> length (r_billed t) \<le> 2
    \<and> (\<forall>p \<in> set (r_queries t). snd p = tenant_id s) \<and> length (r_queries t) \<le> 1
    \<and> (\<forall>u. r = Inr u \<longrightarrow> p_cost u = Some (sum_list (map usage_cost (r_billed t))) \<and> r_queries t \<noteq> []
         \<and> (\<exists>ds. p_docs u = Some ds \<and> length ds \<le> TOP_K \<and> (\<forall>d \<in> set ds. doc_id d = doc_id_of (chunk_id d))))"
proof -
  obtain rq g1 b1 where rw: "rewrite_query (question s) (rewrite_llm e (question s)) g = (rq, g1, b1)"
    by (cases "rewrite_query (question s) (rewrite_llm e (question s)) g")
  from rewrite_query_guard [OF rw] have g1: "g1 = charge_all record_call g b1" and b1: "length b1 \<le> 1"
    by auto
  show ?thesis
  proof (cases "check_or_raise g")
    case (Inl x)
    then show ?thesis using assms by (auto simp: retrieval_body_def)
  next
    case pass: (Inr x)
    then have adm: "admissible guard_passes record_call g b1"
      using charge_two [OF b1] by (auto simp: guard_passes_def)
    show ?thesis
    proof (cases "\<exists>q. rq = Inr q \<and> check_or_raise g1 = Inr ()")
      case False
      then show ?thesis
        using assms pass rw adm b1 g1 by (auto simp: retrieval_body_def Let_def split: sum.splits)
    next
      case True
      then obtain q where q: "rq = Inr q" "check_or_raise g1 = Inr ()" by blast
      show ?thesis
      proof (cases "pipeline e q (tenant_id s)")
        case (Inl x)
        then show ?thesis
          using assms pass rw adm b1 g1 q by (auto simp: retrieval_body_def run_pipeline_def)
      next
        case pipe: (Inr result)
        show ?thesis
        proof (cases "record_pipeline_usage (numbers e) result g1")
          case (Inl x)
          then show ?thesis
            using assms pass rw adm b1 g1 q pipe by (auto simp: retrieval_body_def run_pipeline_def)
        next
          case usage: (Inr b2)
          from charge_two [OF record_pipeline_usage_length [OF usage]] q(2)
          have adm2: "admissible guard_passes record_call g1 b2" by (auto simp: guard_passes_def)
          have t: "r_guard t = charge_all record_call g1 b2" "r_billed t = b1 @ b2"
            "r_queries t = [(q, tenant_id s)]"
            and r: "r = bind_res (shape_docs (numbers e) result TOP_K) (\<lambda>ds.
                 Inr (empty_update\<lparr>p_docs := Some ds,
                   p_cost := Some (spent_usd_e5 (charge_all record_call g1 b2) - spent_usd_e5 g),
                   p_visited := Some [''retrieval_agent'']\<rparr>))"
            using assms pass rw q pipe usage by (auto simp: retrieval_body_def run_pipeline_def Let_def)
          have "spent_usd_e5 (charge_all record_call g1 b2) - spent_usd_e5 g
              = sum_list (map usage_cost (b1 @ b2))"
            unfolding g1 using spent_charged [of g "b1 @ b2"] by (simp add: charge_all_append)
          then show ?thesis
            using adm adm2 b1 record_pipeline_usage_length [OF usage]
            by (auto simp: t r g1 charge_all_append admissible_append bind_res_eq_Inr shape_docs_length
                shape_docs_items)
        qed
      qed
    qed
  qed
qed

section \<open>Properties\<close>

text \<open>
  Recovering the document id inverts building the chunk id, for every document id, one that
  contains \<open>-p\<close> included; and an id is only changed when it has the prefix and the separator.
\<close>

theorem doc_id_roundtrip:
  "doc_id_of (chunk_id_for d n) = d
   \<and> (doc_id_of cid = cid \<or> starts_with cid ''chunk-'' \<and> contains cid ''-p'')"
proof
  have "contains (''chunk-'' @ d @ ''-p'' @ nat_str n) ''-p''"
    using contains_append [of "''chunk-'' @ d" "''-p''" "nat_str n"] by simp
  moreover have "chunk_id_for d n = ''chunk-'' @ (d @ ''-p'' @ nat_str n)"
    by (simp add: chunk_id_for_def)
  ultimately show "doc_id_of (chunk_id_for d n) = d"
    using rsplit1_chunk [of d n]
    by (simp only: doc_id_of_def Let_def removeprefix_append starts_with_append) simp
qed (auto simp: doc_id_of_def)

text \<open>
  A retrieval run stays within its budget and its tenant: it makes at most two paid calls,
  each after a check that passed; it reports as its spend exactly what it billed; every query it
  sends to the pipeline carries the tenant of the state; and when it succeeds it contributes at
  most eight documents, each with the document id of its chunk.
\<close>

theorem retrieval_budget_and_tenant:
  assumes "retrieval_body e cfg s = (r, Some t)" and "guard_of cfg = Inr g"
  shows "r_guard t = charge_all record_call g (r_billed t)
    \<and> admissible guard_passes record_call g (r_billed t) \<and> length (r_billed t) \<le> 2
    \<and> (\<forall>p \<in> set (r_queries t). snd p = tenant_id s)
    \<and> (\<forall>u. r = Inr u \<longrightarrow> p_cost u = Some (sum_list (map usage_cost (r_billed t)))
         \<and> (\<exists>ds. p_docs u = Some ds \<and> length ds \<le> 8 \<and> (\<forall>d \<in> set ds. doc_id d = doc_id_of (chunk_id d))))"
  using retrieval_body_trace [OF assms] by (auto simp: TOP_K_def)

definition demo_numbers :: num_env where
  "demo_numbers = \<lparr>num_fl = (\<lambda>r. r), num_float = (\<lambda>s. None), num_int = (\<lambda>s. None), num_repr = (\<lambda>v. [])\<rparr>"

definition demo_retrieval :: "json \<Rightarrow> retrieval_env" where
  "demo_retrieval sc = \<lparr>rewrite_llm = (\<lambda>q. Inl (OtherError ''APIConnectionError'' [])),
     pipeline = (\<lambda>q t. Inr [(''citations'', JList [JObj [(''chunk_id'', JStr ''chunk-a-p1''), (''score'', sc)]]),
        (''usage'', JObj [(''input_tokens'', JInt 1000), (''output_tokens'', JInt 100)])]),
     numbers = demo_numbers, reranker_setting = ''bge''\<rparr>"

definition demo_cfg :: "int \<Rightarrow> run_cfg option" where
  "demo_cfg c = Some (run_config ''th'' 10 \<lparr>ceiling_usd_e5 = c, spent_usd_e5 = 0\<rparr> NoneV [])"

lemma demo_cfg_guard: "guard_of (demo_cfg c) = Inr \<lparr>ceiling_usd_e5 = c, spent_usd_e5 = 0\<rparr>"
  by (simp add: demo_cfg_def guard_of_run_config)

lemma demo_retrieval_run:
  "retrieval_body (demo_retrieval sc) (demo_cfg 500) (entry_state ''q'' ''t'' ''th'')
     = (bind_res (shape_docs demo_numbers [(''citations'', JList [JObj [(''chunk_id'', JStr ''chunk-a-p1''), (''score'', sc)]]),
          (''usage'', JObj [(''input_tokens'', JInt 1000), (''output_tokens'', JInt 100)])] 8)
          (\<lambda>ds. Inr (empty_update\<lparr>p_docs := Some ds, p_cost := Some 450, p_visited := Some [''retrieval_agent'']\<rparr>)),
        Some \<lparr>r_guard = \<lparr>ceiling_usd_e5 = 500, spent_usd_e5 = 450\<rparr>,
          r_billed = [Some \<lparr>input_tokens = Some 1000, output_tokens = Some 100\<rparr>],
          r_queries = [(''q'', ''t'')], r_environ = [(''RERANKER'', ''bge'')]\<rparr>)"
  by (simp add: retrieval_body_def demo_cfg_guard check_or_raise_def rewrite_query_def demo_retrieval_def
      run_pipeline_def record_pipeline_usage_def token_count_def get_or_def py_int_def entry_state_def
      record_call_def record_usage_def or_zero_def call_cost_def PRICE_IN_E5_PER_KTOK_def
      PRICE_OUT_E5_PER_KTOK_def TOP_K_def RERANKER_ENV_def)

lemma demo_shape:
  "shape_docs demo_numbers [(''citations'', JList [JObj [(''chunk_id'', JStr ''chunk-a-p1''), (''score'', JFloat (1/2))]]), u] 8
     = Inr [\<lparr>chunk_id = ''chunk-a-p1'', doc_id = ''a'', score = 1/2\<rparr>]"
  by (simp add: shape_docs_def get_or_def shape_item_def py_str_def py_float_def doc_id_of_def
      removeprefix_def)

theorem retrieval_budget_and_tenant_witness:
  "\<exists>u t. retrieval_body (demo_retrieval (JFloat (1/2))) (demo_cfg 500) (entry_state ''q'' ''t'' ''th'') = (Inr u, Some t)
     \<and> p_docs u = Some [\<lparr>chunk_id = ''chunk-a-p1'', doc_id = ''a'', score = 1/2\<rparr>]
     \<and> p_cost u = Some 450 \<and> length (r_billed t) \<le> 2 \<and> r_queries t = [(''q'', ''t'')]"
  using retrieval_budget_and_tenant [OF demo_retrieval_run [of "JFloat (1/2)"] demo_cfg_guard]
  by (auto simp: demo_retrieval_run demo_shape empty_update_def)

text \<open>
  Reducing the citations is not tolerant of a score of the wrong type: one citation among the
  first \<open>k\<close> whose score is a string that denotes no number, or a non-empty container, makes the
  whole reduction raise, whatever the other citations are.
\<close>

theorem shape_docs_score_raises:
  assumes "get_or result ''citations'' (JList []) = JList raw" and "JObj item \<in> set (take k raw)"
    and "dict_get item ''score'' = Some v"
    and "(\<exists>c s. v = JStr (c # s) \<and> num_float ne (c # s) = None) \<or> (\<exists>x xs. v = JList (x # xs)) \<or> (\<exists>x d. v = JObj (x # d))"
  shows "\<exists>e. shape_docs ne result k = Inl e"
proof -
  have bad: "\<exists>e. shape_item ne item = Inl e"
    using assms(3,4) by (auto simp: shape_item_def get_or_def py_float_def)
  have mem: "JObj d \<in> set xs \<Longrightarrow> d \<in> set (dict_items xs)" for d xs
    by (induction xs rule: dict_items.induct) auto
  have "x \<in> set xs \<Longrightarrow> \<exists>e. f x = Inl e \<Longrightarrow> \<exists>e. map_res f xs = Inl e" for f :: "jdict \<Rightarrow> doc res" and x xs
    by (induction xs) (auto split: sum.splits)
  then show ?thesis
    using bad mem [OF assms(2)] by (fastforce simp: shape_docs_def assms(1))
qed

theorem shape_docs_score_raises_witness:
  "\<exists>e. shape_docs demo_numbers [(''citations'', JList [JObj [(''chunk_id'', JStr ''chunk-a-p1''), (''score'', JFloat 1)],
      JObj [(''chunk_id'', JStr ''chunk-a-p2''), (''score'', JStr ''high'')]])] 8 = Inl e"
  by (rule shape_docs_score_raises [where item = "[(''chunk_id'', JStr ''chunk-a-p2''), (''score'', JStr ''high'')]"
        and v = "JStr ''high''" and raw = "[JObj [(''chunk_id'', JStr ''chunk-a-p1''), (''score'', JFloat 1)],
          JObj [(''chunk_id'', JStr ''chunk-a-p2''), (''score'', JStr ''high'')]]"])
    (simp_all add: get_or_def demo_numbers_def eval_nat_numeral)

end
