(* ===== verification/ApiNode.thy ===== *)
theory ApiNode
  imports Deps Deadline
begin

text \<open>
  \<open>taxcalc_agent_svc/nodes/api.py\<close>: the bounded tool-use loop against the discovered catalogue.
  The state of the loop carries the guard, the conversation, the results collected so far and,
  for the statements below, the record of what was sent: every prompt, every billed usage and
  every tool call. An exception ends the loop with the state it had reached, because calls that
  were made stay made and spend that was recorded stays recorded.

  Arguments of the node: the model (\<open>complete\<close>), the MCP session, \<open>uuid5\<close> (namespace and name to
  a UUID string), \<open>py_str\<close> (\<open>str\<close> of a tool's content) and \<open>fr\<close> (\<open>float.__repr__\<close>).
\<close>

section \<open>Definitions\<close>

(* src/taxcalc-agent-svc/src/taxcalc_agent_svc/nodes/api.py:77-80 IDEMPOTENCY_NS *)
definition IDEMPOTENCY_NS :: string where
  "IDEMPOTENCY_NS = ''12345678-1234-5678-1234-567812345678''"

(* src/taxcalc-agent-svc/src/taxcalc_agent_svc/nodes/api.py:82-84 MAX_TOOL_ITERATIONS *)
definition MAX_TOOL_ITERATIONS :: nat where
  "MAX_TOOL_ITERATIONS = 5"

(* src/taxcalc-agent-svc/src/taxcalc_agent_svc/nodes/api.py:90-93 TENANT_ARG *)
definition TENANT_ARG :: string where
  "TENANT_ARG = ''tenant_id''"

(* src/taxcalc-agent-svc/src/taxcalc_agent_svc/nodes/api.py:94-94 IDEMPOTENCY_ARG *)
definition IDEMPOTENCY_ARG :: string where
  "IDEMPOTENCY_ARG = ''idempotency_key''"

(* src/taxcalc-agent-svc/src/taxcalc_agent_svc/nodes/api.py:108-108 payload of idempotency_key *)
definition idempotency_payload :: "(rat \<Rightarrow> string) \<Rightarrow> string \<Rightarrow> string \<Rightarrow> jdict \<Rightarrow> string" where
  "idempotency_payload fr thread tool args =
     thread @ ''|'' @ tool @ ''|'' @ dumps fr (sort_keys (JObj args))"

(* src/taxcalc-agent-svc/src/taxcalc_agent_svc/nodes/api.py:98-110 idempotency_key *)
definition idempotency_key ::
  "(string \<Rightarrow> string \<Rightarrow> string) \<Rightarrow> (rat \<Rightarrow> string) \<Rightarrow> string \<Rightarrow> string \<Rightarrow> jdict \<Rightarrow> string" where
  "idempotency_key uuid5 fr thread tool args =
     uuid5 IDEMPOTENCY_NS (idempotency_payload fr thread tool args)"

text \<open>An Anthropic tool definition: the catalogue's entry with its schema under another key.\<close>

record tool_param =
  tp_name :: string
  tp_description :: string
  tp_schema :: jdict

(* src/taxcalc-agent-svc/src/taxcalc_agent_svc/nodes/api.py:113-127 tools_for_claude *)
definition tools_for_claude :: "tool_spec list \<Rightarrow> tool_param list" where
  "tools_for_claude cat =
     map (\<lambda>t. \<lparr>tp_name = tool_name t, tp_description = description t, tp_schema = input_schema t\<rparr>) cat"

(* src/taxcalc-agent-svc/src/taxcalc_agent_svc/nodes/api.py:130-143 declared_properties *)
fun declared_properties :: "tool_param list \<Rightarrow> string \<Rightarrow> string list" where
  "declared_properties [] name = []"
| "declared_properties (t # ts) name =
     (if tp_name t = name then
        (case dict_get (tp_schema t) ''properties'' of
           Some (JObj d) \<Rightarrow> dict_keys d
         | _ \<Rightarrow> [])
      else declared_properties ts name)"

record call_ctx =
  ctx_tools :: "tool_param list"
  ctx_session :: mcp_session
  ctx_complete :: "nat \<Rightarrow> turn list \<Rightarrow> llm_response res"
  ctx_tenant :: string
  ctx_thread :: string
  ctx_uuid5 :: "string \<Rightarrow> string \<Rightarrow> string"
  ctx_fr :: "rat \<Rightarrow> string"
  ctx_str :: "json \<Rightarrow> string"

(* src/taxcalc-agent-svc/src/taxcalc_agent_svc/nodes/api.py:146-170 inject_context *)
definition inject_context ::
  "(string \<Rightarrow> string \<Rightarrow> string) \<Rightarrow> (rat \<Rightarrow> string) \<Rightarrow> jdict \<Rightarrow> string list \<Rightarrow> string \<Rightarrow> string \<Rightarrow> string \<Rightarrow> jdict" where
  "inject_context uuid5 fr args declared tenant thread tool =
     (let sent = args;
          sent = (if TENANT_ARG \<in> set declared then dict_set TENANT_ARG (JStr tenant) sent else sent);
          sent = (if IDEMPOTENCY_ARG \<in> set declared
                  then dict_set IDEMPOTENCY_ARG (JStr (idempotency_key uuid5 fr thread tool args)) sent
                  else sent)
      in sent)"

record tool_call =
  called :: string
  proposed :: jdict
  sent :: jdict
  meta :: jdict

record loop_state =
  guard :: budget_guard
  turns :: "turn list"
  results :: jdict
  prompts :: "turn list list"
  billed :: "usage option list"
  calls :: "tool_call list"

(* src/taxcalc-agent-svc/src/taxcalc_agent_svc/nodes/api.py:239-239 proposed arguments *)
definition proposed_args :: "json \<Rightarrow> jdict" where
  "proposed_args v = (case v of JObj d \<Rightarrow> d | _ \<Rightarrow> [])"

(* src/taxcalc-agent-svc/src/taxcalc_agent_svc/nodes/api.py:239-255 tool call of _api *)
definition make_call :: "call_ctx \<Rightarrow> string \<Rightarrow> json \<Rightarrow> tool_call" where
  "make_call c name inp = (let args = proposed_args inp in
     \<lparr>called = name, proposed = args,
      sent = inject_context (ctx_uuid5 c) (ctx_fr c) args (declared_properties (ctx_tools c) name)
               (ctx_tenant c) (ctx_thread c) name,
      meta = [(''tenant_id'', JStr (ctx_tenant c)), (''thread_id'', JStr (ctx_thread c))]\<rparr>)"

(* src/taxcalc-agent-svc/src/taxcalc_agent_svc/nodes/api.py:235-261 block loop of _api *)
fun run_blocks :: "call_ctx \<Rightarrow> content_block list \<Rightarrow> loop_state \<Rightarrow> tool_result list res \<times> loop_state" where
  "run_blocks c [] st = (Inr [], st)"
| "run_blocks c (ToolUse i name inp # bs) st =
     (let tc = make_call c name inp;
          st1 = st\<lparr>calls := calls st @ [tc]\<rparr>
      in (case session_call (ctx_session c) (length (calls st)) name (sent tc) of
            Inl e \<Rightarrow> (Inl e, st1)
          | Inr r \<Rightarrow>
              (case run_blocks c bs (st1\<lparr>results := dict_set name r (results st1)\<rparr>) of
                 (Inl e, st2) \<Rightarrow> (Inl e, st2)
               | (Inr rs, st2) \<Rightarrow>
                   (Inr (\<lparr>tool_use_id = i, result_text = ctx_str c r, is_error = False\<rparr> # rs), st2))))"
| "run_blocks c (TextBlock t # bs) st = run_blocks c bs st"
| "run_blocks c (OtherBlock # bs) st = run_blocks c bs st"

(* src/taxcalc-agent-svc/src/taxcalc_agent_svc/nodes/api.py:217-264 tool-use loop of _api *)
fun tool_loop :: "call_ctx \<Rightarrow> nat \<Rightarrow> loop_state \<Rightarrow> unit res \<times> loop_state" where
  "tool_loop c 0 st = (Inr (), st)"
| "tool_loop c (Suc n) st =
     (case check_or_raise (guard st) of
        Inl e \<Rightarrow> (Inl e, st)
      | Inr _ \<Rightarrow>
          (let st1 = st\<lparr>prompts := prompts st @ [turns st]\<rparr> in
           (case ctx_complete c (length (prompts st)) (turns st) of
              Inl e \<Rightarrow> (Inl e, st1)
            | Inr resp \<Rightarrow>
                (let st2 = st1\<lparr>guard := record_call (guard st1) (resp_usage resp),
                               billed := billed st1 @ [resp_usage resp]\<rparr> in
                 if stop_reason resp \<noteq> ''tool_use'' then (Inr (), st2)
                 else (case run_blocks c (content resp) st2 of
                         (Inl e, st3) \<Rightarrow> (Inl e, st3)
                       | (Inr rs, st3) \<Rightarrow>
                           tool_loop c n (st3\<lparr>turns := turns st3 @ [AssistantTurn (content resp),
                                                                   ToolResultsTurn rs]\<rparr>))))))"

definition start_state :: "budget_guard \<Rightarrow> string \<Rightarrow> loop_state" where
  "start_state g q = \<lparr>guard = g, turns = [UserTurn q], results = [], prompts = [], billed = [], calls = []\<rparr>"

record api_env =
  env_complete :: "nat \<Rightarrow> turn list \<Rightarrow> llm_response res"
  env_uuid5 :: "string \<Rightarrow> string \<Rightarrow> string"
  env_fr :: "rat \<Rightarrow> string"
  env_str :: "json \<Rightarrow> string"

definition api_ctx :: "api_env \<Rightarrow> mcp_session \<Rightarrow> tool_spec list \<Rightarrow> agent_state \<Rightarrow> call_ctx" where
  "api_ctx e m cat s = \<lparr>ctx_tools = tools_for_claude cat, ctx_session = m, ctx_complete = env_complete e,
     ctx_tenant = tenant_id s, ctx_thread = thread_id s, ctx_uuid5 = env_uuid5 e, ctx_fr = env_fr e,
     ctx_str = env_str e\<rparr>"

text \<open>
  The node body. The guard is the one object shared by the request: its state is passed in and
  returned. \<open>Inl\<close> is an exception that leaves the node.
\<close>

(* src/taxcalc-agent-svc/src/taxcalc_agent_svc/nodes/api.py:173-269 _api *)
definition api_body :: "api_env \<Rightarrow> run_cfg option \<Rightarrow> agent_state \<Rightarrow> partial_state res \<times> loop_state option" where
  "api_body e cfg s =
     (case open_session cfg of
        Inl x \<Rightarrow> (Inl x, None)
      | Inr v \<Rightarrow> (case guard_of cfg of
          Inl x \<Rightarrow> (Inl x, None)
        | Inr g \<Rightarrow> (case v of
            SessionV m \<Rightarrow> (case list_tools m of
                Inl x \<Rightarrow> (Inl x, None)
              | Inr cat \<Rightarrow>
                  (let (r, st) = tool_loop (api_ctx e m cat s) MAX_TOOL_ITERATIONS (start_state g (question s))
                   in (bind_res r (\<lambda>_. Inr (empty_update\<lparr>p_tool_results := Some (results st),
                          p_cost := Some (spent_usd_e5 (guard st) - spent_usd_e5 g),
                          p_visited := Some [''api_agent'']\<rparr>)), Some st)))
          | _ \<Rightarrow> (Inl (OtherError ''AttributeError'' ''list_tools''), None))))"

section \<open>What one call sends\<close>

lemma tenant_not_idempotency [simp]: "TENANT_ARG \<noteq> IDEMPOTENCY_ARG"
  by (simp add: TENANT_ARG_def IDEMPOTENCY_ARG_def)

lemma inject_tenant:
  "TENANT_ARG \<in> set declared \<Longrightarrow>
     dict_get (inject_context u fr args declared tenant thread tool) TENANT_ARG = Some (JStr tenant)"
  by (simp add: inject_context_def Let_def tenant_not_idempotency)

lemma inject_idempotency:
  "IDEMPOTENCY_ARG \<in> set declared \<Longrightarrow>
     dict_get (inject_context u fr args declared tenant thread tool) IDEMPOTENCY_ARG
       = Some (JStr (idempotency_key u fr thread tool args))"
  by (simp add: inject_context_def Let_def)

lemma inject_other:
  "k \<noteq> TENANT_ARG \<Longrightarrow> k \<noteq> IDEMPOTENCY_ARG \<Longrightarrow>
     dict_get (inject_context u fr args declared tenant thread tool) k = dict_get args k"
  by (simp add: inject_context_def Let_def)

lemma inject_undeclared:
  "k \<notin> set declared \<Longrightarrow> dict_get (inject_context u fr args declared tenant thread tool) k = dict_get args k"
  by (auto simp: inject_context_def Let_def)

text \<open>What the code guarantees of one recorded call.\<close>

definition call_ok :: "call_ctx \<Rightarrow> tool_call \<Rightarrow> bool" where
  "call_ok c tc \<longleftrightarrow> (\<exists>inp. tc = make_call c (called tc) inp)"

lemma call_ok_make [simp]: "call_ok c (make_call c name inp)"
  by (auto simp: call_ok_def make_call_def Let_def)

section \<open>Invariants of the loop\<close>

lemma run_blocks_calls:
  "run_blocks c bs st = (r, st') \<Longrightarrow>
     \<exists>tcs. calls st' = calls st @ tcs \<and> (\<forall>tc \<in> set tcs. call_ok c tc)
       \<and> guard st' = guard st \<and> turns st' = turns st \<and> prompts st' = prompts st \<and> billed st' = billed st"
proof (induction c bs st arbitrary: r st' rule: run_blocks.induct)
  case (2 c i name inp bs st)
  define tc where "tc = make_call c name inp"
  define st1 where "st1 = st\<lparr>calls := calls st @ [tc]\<rparr>"
  show ?case
  proof (cases "session_call (ctx_session c) (length (calls st)) name (sent tc)")
    case (Inl e)
    then have "st' = st1" using "2.prems" by (simp add: Let_def tc_def st1_def)
    then show ?thesis by (auto simp: st1_def tc_def)
  next
    case (Inr x)
    define st2 where "st2 = st1\<lparr>results := dict_set name x (results st1)\<rparr>"
    obtain r2 st3 where r: "run_blocks c bs st2 = (r2, st3)" by (cases "run_blocks c bs st2")
    then have "st' = st3" using "2.prems" Inr
      by (auto simp: Let_def tc_def st1_def st2_def split: sum.splits)
    moreover have "\<exists>tcs. calls st3 = calls st2 @ tcs \<and> (\<forall>tc \<in> set tcs. call_ok c tc) \<and> guard st3 = guard st2
       \<and> turns st3 = turns st2 \<and> prompts st3 = prompts st2 \<and> billed st3 = billed st2"
      using "2.IH" [OF tc_def st1_def Inr] r by (simp add: st2_def)
    ultimately show ?thesis by (auto simp: st2_def st1_def tc_def)
  qed
qed auto

lemma run_blocks_ids:
  "run_blocks c bs st = (Inr rs, st') \<Longrightarrow> map tool_use_id rs = tool_use_ids bs"
proof (induction c bs st arbitrary: rs st' rule: run_blocks.induct)
  case (2 c i name inp bs st)
  then show ?case by (auto simp: Let_def split: sum.splits prod.splits)
qed auto

text \<open>
  The invariant: recorded calls are well formed, recorded prompts follow the protocol and so does
  the conversation, and the guard is the initial one charged with the billed calls, each of them
  made after a check that passed.
\<close>

definition loop_inv :: "call_ctx \<Rightarrow> budget_guard \<Rightarrow> loop_state \<Rightarrow> bool" where
  "loop_inv c g0 st \<longleftrightarrow>
     (\<forall>tc \<in> set (calls st). call_ok c tc) \<and> list_all protocol_ok (prompts st) \<and> protocol_ok (turns st)
     \<and> guard st = charge_all record_call g0 (billed st)
     \<and> admissible guard_passes record_call g0 (billed st)"

lemma loop_inv_start: "loop_inv c g (start_state g q)"
  by (simp add: loop_inv_def start_state_def)

lemma tool_loop_inv:
  "tool_loop c n st = (r, st') \<Longrightarrow> loop_inv c g0 st \<Longrightarrow>
     loop_inv c g0 st' \<and> length (prompts st') \<le> length (prompts st) + n
     \<and> length (billed st') + length (prompts st) \<le> length (prompts st') + length (billed st)"
proof (induction c n st arbitrary: r st' rule: tool_loop.induct)
  case (1 c st)
  then show ?case by simp
next
  case (2 c n st)
  show ?case
  proof (cases "check_or_raise (guard st)")
    case (Inl e)
    then show ?thesis using "2.prems" by simp
  next
    case (Inr x)
    then have pass: "guard_passes (guard st)" by (simp add: guard_passes_def)
    define st1 where "st1 = st\<lparr>prompts := prompts st @ [turns st]\<rparr>"
    show ?thesis
    proof (cases "ctx_complete c (length (prompts st)) (turns st)")
      case (Inl e)
      then have "st' = st1" using "2.prems"(1) Inr by (simp add: Let_def st1_def)
      then show ?thesis using "2.prems"(2) by (simp add: loop_inv_def st1_def)
    next
      case resp: (Inr resp)
      define st2 where "st2 = st1\<lparr>guard := record_call (guard st1) (resp_usage resp),
                               billed := billed st1 @ [resp_usage resp]\<rparr>"
      have inv2: "loop_inv c g0 st2"
        using "2.prems"(2) pass
        by (simp add: loop_inv_def st2_def st1_def charge_all_append admissible_append)
      show ?thesis
      proof (cases "stop_reason resp \<noteq> ''tool_use''")
        case True
        then have "st' = st2" using "2.prems"(1) Inr resp by (simp add: Let_def st1_def st2_def)
        then show ?thesis using inv2 by (simp add: st2_def st1_def)
      next
        case False
        obtain rb st3 where rb: "run_blocks c (content resp) st2 = (rb, st3)"
          by (cases "run_blocks c (content resp) st2")
        from run_blocks_calls [OF rb] inv2 have inv3: "loop_inv c g0 st3"
          and eqs: "prompts st3 = prompts st2" "billed st3 = billed st2" "turns st3 = turns st2"
          by (auto simp: loop_inv_def)
        show ?thesis
        proof (cases rb)
          case (Inl e)
          then have "st' = st3"
            using "2.prems"(1) Inr resp False rb by (simp add: Let_def st1_def st2_def)
          then show ?thesis using inv3 eqs by (simp add: st2_def st1_def)
        next
          case rs: (Inr rs)
          define st4 where "st4 = st3\<lparr>turns := turns st3 @ [AssistantTurn (content resp), ToolResultsTurn rs]\<rparr>"
          have inv4: "loop_inv c g0 st4"
            using inv3 protocol_ok_append run_blocks_ids [OF rb [unfolded rs]]
            by (simp add: loop_inv_def st4_def)
          have step: "tool_loop c n st4 = (r, st')"
            using "2.prems"(1) Inr resp False rb rs by (simp add: Let_def st1_def st2_def st4_def)
          have "loop_inv c g0 st' \<and> length (prompts st') \<le> length (prompts st4) + n
             \<and> length (billed st') + length (prompts st4) \<le> length (prompts st') + length (billed st4)"
            using "2.IH" [OF Inr st1_def resp st2_def False rb [symmetric] rs] step inv4
            by (simp add: st4_def)
          then show ?thesis by (simp add: st4_def eqs) (simp add: st2_def st1_def)
        qed
      qed
    qed
  qed
qed

lemma api_body_state:
  assumes "open_session cfg = Inr (SessionV m)" and "list_tools m = Inr cat" and "guard_of cfg = Inr g"
    and "api_body e cfg s = (r, Some st)"
  shows "loop_inv (api_ctx e m cat s) g st" "length (prompts st) \<le> MAX_TOOL_ITERATIONS"
    "length (billed st) \<le> length (prompts st)"
    "r = Inr u \<Longrightarrow> p_cost u = Some (spent_usd_e5 (guard st) - spent_usd_e5 g)
       \<and> p_tool_results u = Some (results st) \<and> p_visited u = Some [''api_agent'']"
proof -
  from assms obtain r0
    where l: "tool_loop (api_ctx e m cat s) MAX_TOOL_ITERATIONS (start_state g (question s)) = (r0, st)"
      and r: "r = bind_res r0 (\<lambda>_. Inr (empty_update\<lparr>p_tool_results := Some (results st),
                          p_cost := Some (spent_usd_e5 (guard st) - spent_usd_e5 g),
                          p_visited := Some [''api_agent'']\<rparr>))"
    by (auto simp: api_body_def split: prod.splits)
  from tool_loop_inv [OF l loop_inv_start]
  show "loop_inv (api_ctx e m cat s) g st" "length (prompts st) \<le> MAX_TOOL_ITERATIONS"
    "length (billed st) \<le> length (prompts st)"
    by (auto simp: start_state_def)
  show "r = Inr u \<Longrightarrow> p_cost u = Some (spent_usd_e5 (guard st) - spent_usd_e5 g)
       \<and> p_tool_results u = Some (results st) \<and> p_visited u = Some [''api_agent'']"
    by (cases r0) (auto simp: r)
qed

lemma api_body_runs:
  assumes "api_body e cfg s = (r, Some st)"
  shows "\<exists>g. guard_of cfg = Inr g"
  using assms by (auto simp: api_body_def split: sum.splits)

section \<open>The idempotency key\<close>

lemma split_at_bar:
  "c \<notin> set a \<Longrightarrow> c \<notin> set a' \<Longrightarrow> a @ c # b = a' @ c # b' \<longleftrightarrow> a = a' \<and> b = b'"
proof (induction a arbitrary: a')
  case Nil
  then show ?case by (cases a') auto
next
  case (Cons x a)
  then show ?case by (cases a') auto
qed

text \<open>
  The key de-duplicates retries and only retries: two calls on threads and tools whose names hold
  no bar hash the same text exactly when thread and tool agree and the proposed arguments are the
  same object up to the order of its entries (at every level).
\<close>

theorem idempotency_payload_iff:
  assumes a: "json_ok fr fl (JObj args)" and b: "json_ok fr fl (JObj args')"
    and bars: "CHR ''|'' \<notin> set thread" "CHR ''|'' \<notin> set thread'" "CHR ''|'' \<notin> set tool" "CHR ''|'' \<notin> set tool'"
  shows "idempotency_payload fr thread tool args = idempotency_payload fr thread' tool' args'
     \<longleftrightarrow> thread = thread' \<and> tool = tool' \<and> sort_keys (JObj args) = sort_keys (JObj args')"
proof -
  have "dumps fr (sort_keys (JObj args)) = dumps fr (sort_keys (JObj args'))
     \<longleftrightarrow> sort_keys (JObj args) = sort_keys (JObj args')"
    using dumps_inj [OF json_ok_sort_keys [OF a] json_ok_sort_keys [OF b]] by (auto simp del: sort_keys.simps)
  then show ?thesis
    using bars by (simp add: idempotency_payload_def split_at_bar del: sort_keys.simps dumps.simps)
qed

definition refund_args :: jdict where
  "refund_args = [(''order_id'', JStr ''ord-1''), (''amount'', JStr ''10.00'')]"

definition refund_args_reordered :: jdict where
  "refund_args_reordered = [(''amount'', JStr ''10.00''), (''order_id'', JStr ''ord-1'')]"

lemma refund_args_ok:
  "json_ok fr fl (JObj refund_args)" "json_ok fr fl (JObj refund_args_reordered)"
  by (simp_all add: refund_args_def refund_args_reordered_def dict_ok_def)

theorem idempotency_payload_iff_witness:
  "idempotency_payload (\<lambda>r. ''0'') ''t1'' ''orders.create_refund'' refund_args
     = idempotency_payload (\<lambda>r. ''0'') ''t1'' ''orders.create_refund'' refund_args_reordered
   \<and> idempotency_payload (\<lambda>r. ''0'') ''t1'' ''orders.create_refund'' refund_args
     \<noteq> idempotency_payload (\<lambda>r. ''0'') ''t2'' ''orders.create_refund'' refund_args"
proof -
  have "sort_keys (JObj refund_args) = sort_keys (JObj refund_args_reordered)"
    by (rule sort_keys_perm) (simp_all add: refund_args_def refund_args_reordered_def dict_ok_def)
  then show ?thesis
    using idempotency_payload_iff [OF refund_args_ok(1) refund_args_ok(2), of "''t1''" "''t1''"
        "''orders.create_refund''" "''orders.create_refund''"]
      idempotency_payload_iff [OF refund_args_ok(1) refund_args_ok(1), of "''t1''" "''t2''"
        "''orders.create_refund''" "''orders.create_refund''"]
    by (simp del: sort_keys.simps)
qed

text \<open>
  What the hash covers includes an idempotency key the model itself proposed: a retry of the same
  refund whose proposal carries a fresh key of its own is hashed from a different text, so the
  derived keys agree only if the hash collides.
\<close>

theorem proposed_key_changes_derived_key:
  assumes ok: "json_ok fr fl (JObj args)" and diff: "k1 \<noteq> k2"
  shows "idempotency_payload fr thread tool (dict_set IDEMPOTENCY_ARG (JStr k1) args)
     \<noteq> idempotency_payload fr thread tool (dict_set IDEMPOTENCY_ARG (JStr k2) args)"
proof
  let ?a1 = "dict_set IDEMPOTENCY_ARG (JStr k1) args"
  let ?a2 = "dict_set IDEMPOTENCY_ARG (JStr k2) args"
  assume "idempotency_payload fr thread tool ?a1 = idempotency_payload fr thread tool ?a2"
  then have eq: "dumps fr (sort_keys (JObj ?a1)) = dumps fr (sort_keys (JObj ?a2))"
    by (simp add: idempotency_payload_def del: sort_keys.simps dumps.simps)
  have set_ok: "json_ok fr fl (JObj (dict_set IDEMPOTENCY_ARG (JStr k) args))" for k
    by (rule json_ok_set [OF ok]) simp
  obtain e where e: "sort_keys (JObj ?a1) = JObj e" by simp
  have "sort_keys (JObj ?a2) = JObj e"
    using dumps_inj [OF json_ok_sort_keys [OF set_ok] json_ok_sort_keys [OF set_ok] eq] e by simp
  then have "map_option sort_keys (dict_get ?a1 IDEMPOTENCY_ARG) = map_option sort_keys (dict_get ?a2 IDEMPOTENCY_ARG)"
    using sort_keys_get [OF _ e] sort_keys_get [of ?a2 e] set_ok by (metis json_ok.simps(3))
  then show False using diff by simp
qed

theorem proposed_key_changes_derived_key_witness:
  "idempotency_payload (\<lambda>r. ''0'') ''t1'' ''orders.create_refund'' (dict_set IDEMPOTENCY_ARG (JStr ''k-1'') refund_args)
     \<noteq> idempotency_payload (\<lambda>r. ''0'') ''t1'' ''orders.create_refund'' (dict_set IDEMPOTENCY_ARG (JStr ''k-2'') refund_args)"
  using proposed_key_changes_derived_key [OF refund_args_ok(1), of "''k-1''" "''k-2''"] by simp

section \<open>The node\<close>

text \<open>
  C2. Tenancy is injected, never trusted: in every run of the node, however it ends, each tool call
  whose published schema declares \<open>tenant_id\<close> carries the request's tenant there, whatever the model
  proposed; one whose schema declares \<open>idempotency_key\<close> carries the derived key; an argument the
  schema does not declare is sent as proposed; and the call's metadata names tenant and thread.
\<close>

theorem api_calls_scoped:
  assumes ses: "open_session cfg = Inr (SessionV m)" and cat: "list_tools m = Inr cat"
    and run: "api_body e cfg s = (r, Some st)" and tc: "tc \<in> set (calls st)"
    and D: "D = set (declared_properties (tools_for_claude cat) (called tc))"
  shows "(TENANT_ARG \<in> D \<longrightarrow> dict_get (sent tc) TENANT_ARG = Some (JStr (tenant_id s)))
    \<and> (IDEMPOTENCY_ARG \<in> D \<longrightarrow> dict_get (sent tc) IDEMPOTENCY_ARG = Some (JStr
         (idempotency_key (env_uuid5 e) (env_fr e) (thread_id s) (called tc) (proposed tc))))
    \<and> (\<forall>k. k \<notin> D \<longrightarrow> dict_get (sent tc) k = dict_get (proposed tc) k)
    \<and> meta tc = [(''tenant_id'', JStr (tenant_id s)), (''thread_id'', JStr (thread_id s))]"
proof -
  from api_body_runs [OF run] obtain g where g: "guard_of cfg = Inr g" by blast
  from api_body_state(1) [OF ses cat g run] tc have "call_ok (api_ctx e m cat s) tc"
    by (simp add: loop_inv_def)
  then obtain inp where eq: "tc = make_call (api_ctx e m cat s) (called tc) inp"
    by (auto simp: call_ok_def)
  have "sent tc = inject_context (env_uuid5 e) (env_fr e) (proposed tc)
      (declared_properties (tools_for_claude cat) (called tc)) (tenant_id s) (thread_id s) (called tc)"
    and "meta tc = [(''tenant_id'', JStr (tenant_id s)), (''thread_id'', JStr (thread_id s))]"
    using eq by (cases tc; simp add: make_call_def api_ctx_def Let_def)+
  then show ?thesis
    by (simp add: D inject_tenant inject_idempotency inject_undeclared)
qed

text \<open>A request used to instantiate the statements: the model proposes another tenant, then stops.\<close>

definition demo_tools :: "tool_spec list" where
  "demo_tools = [\<lparr>tool_name = ''orders.get_order'', description = ''read'',
     input_schema = [(''properties'', JObj [(''order_id'', JNull), (''tenant_id'', JNull)])]\<rparr>]"

definition demo_session :: mcp_session where
  "demo_session = \<lparr>list_tools = Inr demo_tools, session_call = (\<lambda>n t a. Inr (JStr ''paid''))\<rparr>"

definition demo_usage :: "usage option" where
  "demo_usage = Some \<lparr>input_tokens = Some 100, output_tokens = Some 10\<rparr>"

definition demo_env :: api_env where
  "demo_env = \<lparr>env_complete = (\<lambda>n ts. Inr (if n = 0
       then \<lparr>stop_reason = ''tool_use'',
             content = [TextBlock ''hm'', ToolUse ''u1'' ''orders.get_order''
               (JObj [(''order_id'', JStr ''o1''), (''tenant_id'', JStr ''tenant-b'')])],
             resp_usage = demo_usage\<rparr>
       else \<lparr>stop_reason = ''end_turn'', content = [TextBlock ''done''], resp_usage = demo_usage\<rparr>)),
     env_uuid5 = (\<lambda>ns x. ns @ x), env_fr = (\<lambda>_. ''0.0''), env_str = (\<lambda>_. ''text'')\<rparr>"

definition demo_guard :: budget_guard where
  "demo_guard = \<lparr>ceiling_usd_e5 = 25000, spent_usd_e5 = 0\<rparr>"

definition demo_cfg :: "run_cfg option" where
  "demo_cfg = Some (run_config ''t1'' 25 demo_guard (SessionV demo_session) [])"

definition demo_request :: agent_state where
  "demo_request = entry_state ''status of o1'' ''tenant-a'' ''t1''"

definition demo_call :: tool_call where
  "demo_call = \<lparr>called = ''orders.get_order'',
     proposed = [(''order_id'', JStr ''o1''), (''tenant_id'', JStr ''tenant-b'')],
     sent = [(''order_id'', JStr ''o1''), (''tenant_id'', JStr ''tenant-a'')],
     meta = [(''tenant_id'', JStr ''tenant-a''), (''thread_id'', JStr ''t1'')]\<rparr>"

lemma demo_open: "open_session demo_cfg = Inr (SessionV demo_session)" "guard_of demo_cfg = Inr demo_guard"
  by (simp_all add: demo_cfg_def open_session_run_config guard_of_run_config)

lemma demo_make_call:
  "make_call (api_ctx demo_env demo_session demo_tools demo_request) ''orders.get_order''
     (JObj [(''order_id'', JStr ''o1''), (''tenant_id'', JStr ''tenant-b'')]) = demo_call"
  by (simp add: make_call_def api_ctx_def proposed_args_def inject_context_def tools_for_claude_def demo_tools_def
      TENANT_ARG_def IDEMPOTENCY_ARG_def demo_request_def entry_state_def demo_call_def py_simps)

lemma demo_run:
  "\<exists>u st. api_body demo_env demo_cfg demo_request = (Inr u, Some st) \<and> calls st = [demo_call]
     \<and> length (prompts st) = 2 \<and> spent_usd_e5 (guard st) = 90"
proof -
  let ?c = "api_ctx demo_env demo_session demo_tools demo_request"
  have c: "check_or_raise demo_guard = Inr ()"
    "check_or_raise (record_call demo_guard demo_usage) = Inr ()"
    "spent_usd_e5 (record_call (record_call demo_guard demo_usage) demo_usage) = 90"
    by (simp_all add: check_or_raise_def demo_guard_def usage_cost_def demo_usage_def or_zero_def
        call_cost_def PRICE_IN_E5_PER_KTOK_def PRICE_OUT_E5_PER_KTOK_def)
  obtain k where five: "MAX_TOOL_ITERATIONS = Suc (Suc k)" by (simp add: MAX_TOOL_ITERATIONS_def eval_nat_numeral)
  have cs: "ctx_session ?c = demo_session" "ctx_complete ?c = env_complete demo_env" "ctx_str ?c v = ''text''"
    for v by (simp_all add: api_ctx_def demo_env_def)
  have call: "session_call demo_session n t a = Inr (JStr ''paid'')" for n t a
    by (simp add: demo_session_def)
  have ask0: "env_complete demo_env 0 ts = Inr \<lparr>stop_reason = ''tool_use'',
      content = [TextBlock ''hm'', ToolUse ''u1'' ''orders.get_order''
        (JObj [(''order_id'', JStr ''o1''), (''tenant_id'', JStr ''tenant-b'')])],
      resp_usage = demo_usage\<rparr>" for ts
    by (simp add: demo_env_def)
  have ask1: "env_complete demo_env (Suc 0) ts =
      Inr \<lparr>stop_reason = ''end_turn'', content = [TextBlock ''done''], resp_usage = demo_usage\<rparr>" for ts
    by (simp add: demo_env_def)
  obtain st where "tool_loop ?c MAX_TOOL_ITERATIONS (start_state demo_guard (question demo_request)) = (Inr (), st)"
    and "calls st = [demo_call]" "length (prompts st) = 2" "spent_usd_e5 (guard st) = 90"
    unfolding five
    by (simp add: start_state_def c cs call ask0 ask1 Let_def demo_make_call del: spent_record_call)
  moreover have "list_tools demo_session = Inr demo_tools" by (simp add: demo_session_def)
  ultimately show ?thesis
    by (simp add: api_body_def demo_open)
qed

theorem api_calls_scoped_witness:
  "dict_get (sent demo_call) TENANT_ARG = Some (JStr ''tenant-a'')
   \<and> dict_get (proposed demo_call) TENANT_ARG = Some (JStr ''tenant-b'')"
proof -
  obtain u st where run: "api_body demo_env demo_cfg demo_request = (Inr u, Some st)" and tc: "calls st = [demo_call]"
    using demo_run by blast
  have cat: "list_tools demo_session = Inr demo_tools" by (simp add: demo_session_def)
  have "TENANT_ARG \<in> set (declared_properties (tools_for_claude demo_tools) (called demo_call))"
    by (simp add: tools_for_claude_def demo_tools_def demo_call_def TENANT_ARG_def)
  then show ?thesis
    using api_calls_scoped [OF demo_open(1) cat run, of demo_call, OF _ refl] tc
    by (simp add: demo_request_def entry_state_def demo_call_def TENANT_ARG_def)
qed



text \<open>
  Every conversation the node sends, and the one it ends with, obeys the API's protocol: one user
  turn, then assistant turns each followed by the results of exactly its tool calls, in order.
\<close>

theorem api_conversation_well_formed:
  assumes ses: "open_session cfg = Inr (SessionV m)" and cat: "list_tools m = Inr cat"
    and run: "api_body e cfg s = (r, Some st)"
  shows "list_all protocol_ok (prompts st) \<and> protocol_ok (turns st)"
proof -
  from api_body_runs [OF run] obtain g where g: "guard_of cfg = Inr g" by blast
  show ?thesis using api_body_state(1) [OF ses cat g run] by (simp add: loop_inv_def)
qed

theorem api_conversation_well_formed_witness:
  "\<exists>u st. api_body demo_env demo_cfg demo_request = (Inr u, Some st) \<and> length (prompts st) = 2
     \<and> list_all protocol_ok (prompts st)"
proof -
  obtain u st where run: "api_body demo_env demo_cfg demo_request = (Inr u, Some st)"
    and n: "length (prompts st) = 2"
    using demo_run by blast
  have cat: "list_tools demo_session = Inr demo_tools" by (simp add: demo_session_def)
  show ?thesis
    using api_conversation_well_formed [OF demo_open(1) cat run] run n by blast
qed

end
