(* ===== verification/SynthesisNode.thy ===== *)
theory SynthesisNode
  imports Deps Deadline
begin

text \<open>
  \<open>taxcalc_agent_svc/nodes/synthesis.py\<close>: the forced tool call, streamed, validated, and repaired
  at most twice. Arguments of the node: the stream of each attempt (\<open>syn_stream\<close>: attempt number
  and conversation to the events and the completed message), the tolerant partial parser
  (\<open>syn_jiter\<close>), the number reading of the validation library (\<open>syn_num\<close>: the finite number a
  value is read as, if any), its JSON writer (\<open>syn_dump\<close>) and error text, and whether the run has a
  parent to dispatch events on.
\<close>

section \<open>The answer schema\<close>

(* src/taxcalc-agent-svc/src/taxcalc_agent_svc/nodes/synthesis.py:75-78 REFUSAL_CONFIDENCE *)
definition REFUSAL_CONFIDENCE :: rat where "REFUSAL_CONFIDENCE = 4 / 10"

(* src/taxcalc-agent-svc/src/taxcalc_agent_svc/nodes/synthesis.py:84-85 MAX_RETRIES *)
definition MAX_RETRIES :: nat where "MAX_RETRIES = 2"

(* src/taxcalc-agent-svc/src/taxcalc_agent_svc/nodes/synthesis.py:87-91 TOOL_NAME *)
definition TOOL_NAME :: string where "TOOL_NAME = ''final_answer''"

(* src/taxcalc-agent-svc/src/taxcalc_agent_svc/nodes/synthesis.py:104-110 DEADLINE_TEXT *)
definition DEADLINE_TEXT :: string where "DEADLINE_TEXT = ''[deadline exceeded]''"

(* src/taxcalc-agent-svc/src/taxcalc_agent_svc/nodes/synthesis.py:113-126 Citation *)
record citation =
  cite_doc :: string
  quote :: string

(* src/taxcalc-agent-svc/src/taxcalc_agent_svc/nodes/synthesis.py:129-143 FinalAnswer *)
record final_answer =
  text_of :: string
  citations :: "citation list"
  confidence :: rat

definition citation_ok :: "citation \<Rightarrow> bool" where
  "citation_ok c \<longleftrightarrow> 10 \<le> length (quote c) \<and> length (quote c) \<le> 240"

definition answer_ok :: "final_answer \<Rightarrow> bool" where
  "answer_ok a \<longleftrightarrow> 1 \<le> length (text_of a) \<and> length (text_of a) \<le> 2000 \<and> list_all citation_ok (citations a)
     \<and> 0 \<le> confidence a \<and> confidence a \<le> 1"

text \<open>\<open>extra="forbid"\<close>: no key outside the declared fields.\<close>

definition only_keys :: "string list \<Rightarrow> jdict \<Rightarrow> bool" where
  "only_keys ks d \<longleftrightarrow> list_all (\<lambda>k. k \<in> set ks) (dict_keys d)"

(* src/taxcalc-agent-svc/src/taxcalc_agent_svc/nodes/synthesis.py:113-126 Citation validation *)
definition validate_citation :: "json \<Rightarrow> citation option" where
  "validate_citation v = (case v of
     JObj d \<Rightarrow>
       (case (dict_get d ''doc_id'', dict_get d ''quote'') of
          (Some (JStr i), Some (JStr q)) \<Rightarrow>
            (if only_keys [''doc_id'', ''quote''] d \<and> citation_ok \<lparr>cite_doc = i, quote = q\<rparr>
             then Some \<lparr>cite_doc = i, quote = q\<rparr> else None)
        | _ \<Rightarrow> None)
   | _ \<Rightarrow> None)"

fun validate_all :: "('a \<Rightarrow> 'b option) \<Rightarrow> 'a list \<Rightarrow> 'b list option" where
  "validate_all f [] = Some []"
| "validate_all f (x # xs) =
     (case (f x, validate_all f xs) of (Some y, Some ys) \<Rightarrow> Some (y # ys) | _ \<Rightarrow> None)"

definition validate_citations :: "json option \<Rightarrow> citation list option" where
  "validate_citations v = (case v of
     None \<Rightarrow> Some [] | Some (JList xs) \<Rightarrow> validate_all validate_citation xs | _ \<Rightarrow> None)"

(* src/taxcalc-agent-svc/src/taxcalc_agent_svc/nodes/synthesis.py:129-143 FinalAnswer validation *)
definition validate_answer :: "(json \<Rightarrow> rat option) \<Rightarrow> json \<Rightarrow> final_answer option" where
  "validate_answer num v = (case v of
     JObj d \<Rightarrow>
       (case (dict_get d ''text'', validate_citations (dict_get d ''citations''),
              Option.bind (dict_get d ''confidence'') num) of
          (Some (JStr t), Some cs, Some c) \<Rightarrow>
            (let a = \<lparr>text_of = t, citations = cs, confidence = c\<rparr> in
             if only_keys [''text'', ''citations'', ''confidence''] d \<and> answer_ok a then Some a else None)
        | _ \<Rightarrow> None)
   | _ \<Rightarrow> None)"

definition citation_json :: "citation \<Rightarrow> json" where
  "citation_json c = JObj [(''doc_id'', JStr (cite_doc c)), (''quote'', JStr (quote c))]"

definition answer_json :: "final_answer \<Rightarrow> json" where
  "answer_json a = JObj [(''text'', JStr (text_of a)), (''citations'', JList (map citation_json (citations a))),
     (''confidence'', JFloat (confidence a))]"

section \<open>The prompt\<close>

(* src/taxcalc-agent-svc/src/taxcalc_agent_svc/nodes/synthesis.py:154-171 build_user_prompt *)
definition build_user_prompt :: "(doc list \<Rightarrow> string) \<Rightarrow> (jdict \<Rightarrow> string) \<Rightarrow> agent_state \<Rightarrow> string" where
  "build_user_prompt repr_docs repr_tools s =
     ''Tenant: '' @ tenant_id s @ [CHR 0x0A] @ ''Question: '' @ question s @ [CHR 0x0A]
     @ ''Docs ('' @ nat_str (length (docs s)) @ ''): '' @ (if docs s \<noteq> [] then repr_docs (docs s) else []) @ [CHR 0x0A]
     @ ''Tool results: '' @ (if tool_results s \<noteq> [] then repr_tools (tool_results s) else [])"

section \<open>One streamed attempt\<close>

(* src/taxcalc-agent-svc/src/taxcalc_agent_svc/nodes/synthesis.py:191-214 _growing_text *)
definition growing_text :: "(string \<Rightarrow> json option) \<Rightarrow> string \<Rightarrow> string" where
  "growing_text jiter buffer = (case jiter buffer of
     Some (JObj d) \<Rightarrow> (case dict_get d ''text'' of Some (JStr t) \<Rightarrow> t | _ \<Rightarrow> [])
   | _ \<Rightarrow> [])"

text \<open>An event of the stream: a content delta with its JSON fragment, or any other.\<close>

datatype stream_event = ContentDelta "string option" | OtherEvent

record stream_run =
  events :: "stream_event list"
  final_message :: "llm_response res"

text \<open>\<open>_emit_delta\<close>: with no parent run the dispatch raises \<open>RuntimeError\<close>, which is suppressed.\<close>

(* src/taxcalc-agent-svc/src/taxcalc_agent_svc/nodes/synthesis.py:217-235 _emit_delta *)
definition emit_delta :: "bool \<Rightarrow> string \<Rightarrow> string list" where
  "emit_delta parent d = (if parent then [d] else [])"

(* src/taxcalc-agent-svc/src/taxcalc_agent_svc/nodes/synthesis.py:258-285 delta loop of _stream_once *)
fun stream_deltas :: "(string \<Rightarrow> json option) \<Rightarrow> bool \<Rightarrow> string \<Rightarrow> nat \<Rightarrow> stream_event list \<Rightarrow> string list" where
  "stream_deltas j p buffer n [] = []"
| "stream_deltas j p buffer n (OtherEvent # es) = stream_deltas j p buffer n es"
| "stream_deltas j p buffer n (ContentDelta f # es) =
     (case f of
        None \<Rightarrow> stream_deltas j p buffer n es
      | Some [] \<Rightarrow> stream_deltas j p buffer n es
      | Some (c # fs) \<Rightarrow>
         (let buffer' = buffer @ c # fs; t = growing_text j buffer' in
          if length t > n then emit_delta p (drop n t) @ stream_deltas j p buffer' (length t) es
          else stream_deltas j p buffer' n es))"

(* src/taxcalc-agent-svc/src/taxcalc_agent_svc/nodes/synthesis.py:293-297 arguments of _stream_once *)
fun tool_arguments :: "content_block list \<Rightarrow> json" where
  "tool_arguments [] = JObj []"
| "tool_arguments (ToolUse i n a # bs) = (if n = TOOL_NAME then a else tool_arguments bs)"
| "tool_arguments (b # bs) = tool_arguments bs"

(* src/taxcalc-agent-svc/src/taxcalc_agent_svc/nodes/synthesis.py:386-395 _tool_use_id *)
fun first_tool_use_id :: "content_block list \<Rightarrow> string" where
  "first_tool_use_id [] = []"
| "first_tool_use_id (ToolUse i n a # bs) = i"
| "first_tool_use_id (b # bs) = first_tool_use_id bs"

section \<open>The repair loop\<close>

record syn_env =
  syn_stream :: "nat \<Rightarrow> turn list \<Rightarrow> stream_run"
  syn_jiter :: "string \<Rightarrow> json option"
  syn_num :: "json \<Rightarrow> rat option"
  syn_err :: "json \<Rightarrow> string"
  syn_dump :: "final_answer \<Rightarrow> string"
  syn_parent :: bool
  syn_docs :: "doc list \<Rightarrow> string"
  syn_tools :: "jdict \<Rightarrow> string"

record syn_state =
  s_guard :: budget_guard
  s_turns :: "turn list"
  s_billed :: "usage option list"
  s_deltas :: "string list list"

text \<open>\<open>_stream_once\<close>: the deltas are out before the message is complete; the bill needs the message.\<close>

(* src/taxcalc-agent-svc/src/taxcalc_agent_svc/nodes/synthesis.py:238-298 _stream_once *)
definition stream_once :: "syn_env \<Rightarrow> nat \<Rightarrow> syn_state \<Rightarrow> (llm_response \<times> json) res \<times> syn_state" where
  "stream_once e n st =
     (let run = syn_stream e n (s_turns st);
          st1 = st\<lparr>s_deltas := s_deltas st @ [stream_deltas (syn_jiter e) (syn_parent e) [] 0 (events run)]\<rparr>
      in case final_message run of
           Inl x \<Rightarrow> (Inl x, st1)
         | Inr m \<Rightarrow> (Inr (m, tool_arguments (content m)),
             st1\<lparr>s_guard := record_call (s_guard st1) (resp_usage m), s_billed := s_billed st1 @ [resp_usage m]\<rparr>))"

(* src/taxcalc-agent-svc/src/taxcalc_agent_svc/nodes/synthesis.py:353-367 repair turns *)
definition repair_turns :: "syn_env \<Rightarrow> llm_response \<Rightarrow> json \<Rightarrow> turn list" where
  "repair_turns e m args =
     [AssistantTurn (content m),
      ToolResultsTurn [\<lparr>tool_use_id = first_tool_use_id (content m),
        result_text = ''Validation failed: '' @ syn_err e args @ ''. Call '' @ TOOL_NAME @ '' again, corrected.'',
        is_error = True\<rparr>]]"

text \<open>\<open>n\<close> is the number of the attempt, \<open>k\<close> how many are left.\<close>

(* src/taxcalc-agent-svc/src/taxcalc_agent_svc/nodes/synthesis.py:336-373 attempt loop of _synthesis *)
fun attempts :: "syn_env \<Rightarrow> nat \<Rightarrow> nat \<Rightarrow> syn_state \<Rightarrow> final_answer res \<times> syn_state" where
  "attempts e n 0 st = (Inl (ValidationError ''FinalAnswer''), st)"
| "attempts e n (Suc k) st =
     (case check_or_raise (s_guard st) of
        Inl x \<Rightarrow> (Inl x, st)
      | Inr _ \<Rightarrow>
         (case stream_once e n st of
            (Inl x, st1) \<Rightarrow> (Inl x, st1)
          | (Inr (m, args), st1) \<Rightarrow>
             (case validate_answer (syn_num e) args of
                Some a \<Rightarrow> (Inr a, st1)
              | None \<Rightarrow> attempts e (Suc n) k (st1\<lparr>s_turns := s_turns st1 @ repair_turns e m args\<rparr>))))"

definition syn_start :: "syn_env \<Rightarrow> budget_guard \<Rightarrow> agent_state \<Rightarrow> syn_state" where
  "syn_start e g s = \<lparr>s_guard = g, s_turns = [UserTurn (build_user_prompt (syn_docs e) (syn_tools e) s)],
     s_billed = [], s_deltas = []\<rparr>"

(* src/taxcalc-agent-svc/src/taxcalc_agent_svc/nodes/synthesis.py:301-383 _synthesis *)
definition synthesis_body :: "syn_env \<Rightarrow> run_cfg option \<Rightarrow> agent_state \<Rightarrow> partial_state res \<times> syn_state option" where
  "synthesis_body e cfg s =
     (case guard_of cfg of
        Inl x \<Rightarrow> (Inl x, None)
      | Inr g \<Rightarrow>
         (let (r, st) = attempts e 0 (MAX_RETRIES + 1) (syn_start e g s)
          in (bind_res r (\<lambda>a. Inr (empty_update\<lparr>p_answer := Some (syn_dump e a),
                p_cost := Some (spent_usd_e5 (s_guard st) - spent_usd_e5 g),
                p_visited := Some [''synthesis_agent'']\<rparr>)), Some st)))"

(* src/taxcalc-agent-svc/src/taxcalc_agent_svc/nodes/synthesis.py:415-417 timeout_answer *)
definition timeout_answer :: final_answer where
  "timeout_answer = \<lparr>text_of = DEADLINE_TEXT, citations = [], confidence = 0\<rparr>"

(* src/taxcalc-agent-svc/src/taxcalc_agent_svc/nodes/synthesis.py:398-438 make_synthesis_node *)
definition synthesis_node ::
  "(final_answer \<Rightarrow> string) \<Rightarrow> rat \<Rightarrow> bool \<Rightarrow> partial_state body_run \<Rightarrow> partial_state node_outcome" where
  "synthesis_node dump seconds traced r =
     deadline seconds (empty_update\<lparr>p_answer := Some (dump timeout_answer)\<rparr>) traced r"

section \<open>Validation\<close>

lemma validate_all_Some: "validate_all f xs = Some ys \<Longrightarrow> list_all2 (\<lambda>x y. f x = Some y) xs ys"
  by (induction xs arbitrary: ys) (auto split: option.splits)

lemma validate_all_map: "(\<And>x. x \<in> set xs \<Longrightarrow> f (g x) = Some x) \<Longrightarrow> validate_all f (map g xs) = Some xs"
  by (induction xs) auto

lemma validate_answer_ok: "validate_answer num v = Some a \<Longrightarrow> answer_ok a"
  by (auto simp: validate_answer_def Let_def split: json.splits option.splits if_splits)

lemma validate_answer_keys:
  "validate_answer num (JObj d) = Some a \<Longrightarrow> k \<in> set (dict_keys d) \<Longrightarrow> k \<in> {''text'', ''citations'', ''confidence''}"
  by (auto simp: validate_answer_def Let_def only_keys_def list_all_iff split: option.splits json.splits if_splits)

lemma validate_citation_json: "citation_ok c \<Longrightarrow> validate_citation (citation_json c) = Some c"
  by (cases c) (simp add: validate_citation_def citation_json_def only_keys_def)

lemma validate_answer_json:
  assumes "answer_ok a" and "num (JFloat (confidence a)) = Some (confidence a)"
  shows "validate_answer num (answer_json a) = Some a"
proof -
  have "validate_all validate_citation (map citation_json (citations a)) = Some (citations a)"
    using assms(1) by (intro validate_all_map validate_citation_json) (auto simp: answer_ok_def list_all_iff)
  then show ?thesis
    using assms by (cases a) (simp add: validate_answer_def answer_json_def validate_citations_def only_keys_def Let_def)
qed

lemma timeout_answer_ok: "answer_ok timeout_answer"
  by (simp add: answer_ok_def timeout_answer_def DEADLINE_TEXT_def)

section \<open>Deltas\<close>

text \<open>The text after each non-empty fragment, given what is buffered.\<close>

fun texts_from :: "(string \<Rightarrow> json option) \<Rightarrow> string \<Rightarrow> stream_event list \<Rightarrow> string list" where
  "texts_from j b [] = []"
| "texts_from j b (ContentDelta (Some (c # fs)) # es) =
     growing_text j (b @ c # fs) # texts_from j (b @ c # fs) es"
| "texts_from j b (e # es) = texts_from j b es"

text \<open>The text only grows: each one starts with the previous one.\<close>

fun growing :: "string \<Rightarrow> string list \<Rightarrow> bool" where
  "growing t [] = True"
| "growing t (u # us) = (prefix t u \<and> growing u us)"

lemma stream_deltas_other: "f = None \<or> f = Some [] \<Longrightarrow> stream_deltas j p b n (ContentDelta f # es) = stream_deltas j p b n es"
  by auto

lemma deltas_rebuild:
  "growing t (texts_from j b es) \<Longrightarrow>
     t @ concat (stream_deltas j True b (length t) es) = last (t # texts_from j b es)"
proof (induction j b es arbitrary: t rule: texts_from.induct)
  case (2 j b c fs es)
  let ?u = "growing_text j (b @ c # fs)"
  from 2(2) have pre: "prefix t ?u" and g: "growing ?u (texts_from j (b @ c # fs) es)" by simp_all
  note IH = 2(1) [OF g]
  show ?case
  proof (cases "length ?u > length t")
    case True
    have "t @ drop (length t) ?u = ?u" using pre by (auto simp: prefix_def)
    then show ?thesis using True IH by (simp add: Let_def emit_delta_def flip: append_assoc)
  next
    case False
    then have "?u = t" using pre by (auto simp: prefix_def)
    then show ?thesis using IH by (simp add: Let_def)
  qed
qed (auto simp: Let_def)

lemma no_parent_no_delta: "stream_deltas j False b n es = []"
  by (induction j False b n es rule: stream_deltas.induct) (auto simp: Let_def emit_delta_def split: option.split list.split)

section \<open>The loop\<close>

text \<open>
  The invariant of the attempts: the guard was charged exactly the billed usages, each after a
  check that passed, and the conversation follows the protocol as long as every completed message
  holds exactly one tool call, which is what a forced call returns.
\<close>

definition syn_inv :: "budget_guard \<Rightarrow> syn_state \<Rightarrow> bool" where
  "syn_inv g st \<longleftrightarrow> s_guard st = charge_all record_call g (s_billed st)
     \<and> admissible guard_passes record_call g (s_billed st)"

lemma syn_inv_start: "syn_inv g (syn_start e g s)"
  by (simp add: syn_inv_def syn_start_def)

lemma stream_once_simps:
  "stream_once e n st = (r, st') \<Longrightarrow>
     s_turns st' = s_turns st
     \<and> s_deltas st' = s_deltas st @ [stream_deltas (syn_jiter e) (syn_parent e) [] 0 (events (syn_stream e n (s_turns st)))]
     \<and> (case final_message (syn_stream e n (s_turns st)) of
          Inl x \<Rightarrow> r = Inl x \<and> s_guard st' = s_guard st \<and> s_billed st' = s_billed st
        | Inr m \<Rightarrow> r = Inr (m, tool_arguments (content m)) \<and> s_guard st' = record_call (s_guard st) (resp_usage m)
            \<and> s_billed st' = s_billed st @ [resp_usage m])"
  by (auto simp: stream_once_def Let_def split: sum.splits)

lemma stream_once_inv:
  assumes "stream_once e n st = (r, st')" and "syn_inv g st" and "check_or_raise (s_guard st) = Inr x"
  shows "syn_inv g st' \<and> length (s_billed st') \<le> length (s_billed st) + 1
    \<and> length (s_deltas st') = length (s_deltas st) + 1
    \<and> (\<forall>y. r = Inr y \<longrightarrow> length (s_billed st') = length (s_billed st) + 1)"
  using stream_once_simps [OF assms(1)] assms(2,3)
  by (auto simp: syn_inv_def charge_all_append admissible_append guard_passes_def split: sum.splits)

lemma attempts_inv:
  "attempts e n k st = (r, st') \<Longrightarrow> syn_inv g st \<Longrightarrow>
     syn_inv g st' \<and> length (s_billed st') \<le> length (s_billed st) + k
     \<and> (\<forall>a. r = Inr a \<longrightarrow> answer_ok a
          \<and> (\<exists>i m. n \<le> i \<and> i < n + k \<and> final_message (syn_stream e i (s_turns st')) = Inr m
               \<and> validate_answer (syn_num e) (tool_arguments (content m)) = Some a))"
proof (induction e n k st arbitrary: r st' rule: attempts.induct)
  case (1 e n st)
  then show ?case by auto
next
  case (2 e n k st)
  show ?case
  proof (cases "check_or_raise (s_guard st)")
    case (Inl x)
    then show ?thesis using 2(2,3) by auto
  next
    case pass: (Inr x)
    obtain q st1 where so: "stream_once e n st = (q, st1)" by (cases "stream_once e n st")
    note inv1 = stream_once_inv [OF so 2(3) pass] and simps1 = stream_once_simps [OF so]
    show ?thesis
    proof (cases q)
      case (Inl y)
      then show ?thesis using 2(2) pass so inv1 by auto
    next
      case (Inr ma)
      obtain m args where ma: "ma = (m, args)" by (cases ma)
      from simps1 Inr ma have fm: "final_message (syn_stream e n (s_turns st)) = Inr m"
        and args: "args = tool_arguments (content m)" and turns: "s_turns st1 = s_turns st"
        by (auto split: sum.splits)
      show ?thesis
      proof (cases "validate_answer (syn_num e) args")
        case (Some a)
        then have "r = Inr a" "st' = st1" using 2(2) pass so Inr ma by auto
        then show ?thesis
          using inv1 validate_answer_ok [OF Some] Some fm args turns by (auto intro!: exI [of _ n])
      next
        case None
        define st2 where "st2 = st1\<lparr>s_turns := s_turns st1 @ repair_turns e m args\<rparr>"
        have rec: "attempts e (Suc n) k st2 = (r, st')"
          using 2(2) pass so Inr ma None by (simp add: st2_def)
        have inv2: "syn_inv g st2" and len2: "length (s_billed st2) \<le> length (s_billed st) + 1"
          using inv1 by (simp_all add: st2_def syn_inv_def)
        from 2(1) [OF pass so [symmetric] Inr ma [symmetric] None] rec inv2
        have IH: "syn_inv g st' \<and> length (s_billed st') \<le> length (s_billed st2) + k
           \<and> (\<forall>a. r = Inr a \<longrightarrow> answer_ok a
             \<and> (\<exists>i m. Suc n \<le> i \<and> i < Suc n + k \<and> final_message (syn_stream e i (s_turns st')) = Inr m
                 \<and> validate_answer (syn_num e) (tool_arguments (content m)) = Some a))"
          by (simp add: st2_def)
        moreover have "\<exists>i m. n \<le> i \<and> i < n + Suc k \<and> final_message (syn_stream e i (s_turns st')) = Inr m
             \<and> validate_answer (syn_num e) (tool_arguments (content m)) = Some a" if "r = Inr a" for a
        proof -
          from IH that obtain i m where i: "Suc n \<le> i" "i < Suc n + k"
            and m: "final_message (syn_stream e i (s_turns st')) = Inr m"
              "validate_answer (syn_num e) (tool_arguments (content m)) = Some a" by blast
          from i have "n \<le> i \<and> i < n + Suc k" by simp
          with m show ?thesis by blast
        qed
        ultimately show ?thesis using len2 by auto
      qed
    qed
  qed
qed

text \<open>Why a run ends without an answer.\<close>

lemma attempts_fail:
  "attempts e n k st = (Inl x, st') \<Longrightarrow>
     x = BudgetExceeded (spent_usd_e5 (s_guard st')) (ceiling_usd_e5 (s_guard st'))
       \<and> ceiling_usd_e5 (s_guard st') \<le> spent_usd_e5 (s_guard st')
   \<or> (\<exists>i. n \<le> i \<and> i < n + k \<and> final_message (syn_stream e i (s_turns st')) = Inl x)
   \<or> (x = ValidationError ''FinalAnswer'' \<and> length (s_billed st') = length (s_billed st) + k)"
proof (induction e n k st arbitrary: st' rule: attempts.induct)
  case (1 e n st)
  then show ?case by auto
next
  case (2 e n k st)
  show ?case
  proof (cases "check_or_raise (s_guard st)")
    case (Inl y)
    then have "x = y" "st' = st" using 2(2) by auto
    then show ?thesis using Inl by (simp add: check_or_raise_Inl)
  next
    case pass: (Inr y)
    obtain q st1 where so: "stream_once e n st = (q, st1)" by (cases "stream_once e n st")
    note simps1 = stream_once_simps [OF so]
    show ?thesis
    proof (cases q)
      case (Inl z)
      then have "x = z" "st' = st1" using 2(2) pass so by auto
      then show ?thesis using simps1 Inl by (auto split: sum.splits intro!: exI [of _ n])
    next
      case (Inr ma)
      obtain m args where ma: "ma = (m, args)" by (cases ma)
      have len: "length (s_billed st1) = length (s_billed st) + 1"
        using simps1 Inr by (auto split: sum.splits)
      show ?thesis
      proof (cases "validate_answer (syn_num e) args")
        case (Some a)
        then show ?thesis using 2(2) pass so Inr ma by auto
      next
        case None
        then have rec: "attempts e (Suc n) k (st1\<lparr>s_turns := s_turns st1 @ repair_turns e m args\<rparr>) = (Inl x, st')"
          using 2(2) pass so Inr ma by simp
        from 2(1) [OF pass so [symmetric] Inr ma [symmetric] None rec] show ?thesis
          by (elim disjE exE conjE) (auto simp: len intro: Suc_leD)
      qed
    qed
  qed
qed

lemma first_id_single: "tool_use_ids bs = [i] \<Longrightarrow> first_tool_use_id bs = i"
  by (induction bs rule: first_tool_use_id.induct) auto

lemma attempts_protocol:
  "attempts e n k st = (r, st') \<Longrightarrow>
     (\<forall>n ts m. final_message (syn_stream e n ts) = Inr m \<longrightarrow> (\<exists>i. tool_use_ids (content m) = [i])) \<Longrightarrow>
     protocol_ok (s_turns st) \<Longrightarrow> protocol_ok (s_turns st')"
proof (induction e n k st arbitrary: r st' rule: attempts.induct)
  case (2 e n k st)
  obtain q st1 where so: "stream_once e n st = (q, st1)" by (cases "stream_once e n st")
  note simps1 = stream_once_simps [OF so]
  show ?case
  proof (cases "\<exists>y m args. check_or_raise (s_guard st) = Inr y \<and> q = Inr (m, args) \<and> validate_answer (syn_num e) args = None")
    case False
    then have "s_turns st' = s_turns st"
      using 2(2) so simps1 by (auto split: sum.splits option.splits prod.splits)
    then show ?thesis using 2(4) by simp
  next
    case True
    then obtain y m args where pass: "check_or_raise (s_guard st) = Inr y" and q: "q = Inr (m, args)"
      and none: "validate_answer (syn_num e) args = None" by blast
    have "final_message (syn_stream e n (s_turns st)) = Inr m" using simps1 q by (auto split: sum.splits)
    then obtain i where ids: "tool_use_ids (content m) = [i]" using 2(3) by blast
    have "protocol_ok (s_turns st1 @ repair_turns e m args)"
      using protocol_ok_append 2(4) simps1 ids first_id_single [OF ids] by (simp add: repair_turns_def)
    then show ?thesis
      using 2(1) [OF pass so [symmetric] q refl none _ 2(3)] 2(2) pass so q none by simp
  qed
qed simp

section \<open>Properties\<close>

text \<open>
  C9. What synthesis returns. An answer that leaves the node was validated: it meets every bound
  of the schema and is the parse of the arguments of one of at most three attempts. Each attempt
  was checked against the ceiling and billed, and the reported spend is what was billed. Without
  an answer the run failed for one of three reasons: the ceiling was reached, the model call
  raised, or all three attempts were invalid (and all three were billed).
\<close>

theorem synthesis_validated_and_billed:
  assumes "synthesis_body e cfg s = (r, Some st)" and "guard_of cfg = Inr g"
  shows "s_guard st = charge_all record_call g (s_billed st)
    \<and> admissible guard_passes record_call g (s_billed st) \<and> length (s_billed st) \<le> 3
    \<and> (case r of
         Inr u \<Rightarrow> p_cost u = Some (sum_list (map usage_cost (s_billed st)))
           \<and> (\<exists>a i m. p_answer u = Some (syn_dump e a) \<and> answer_ok a \<and> i < 3
                \<and> final_message (syn_stream e i (s_turns st)) = Inr m
                \<and> validate_answer (syn_num e) (tool_arguments (content m)) = Some a)
       | Inl x \<Rightarrow> (\<exists>a b. x = BudgetExceeded a b \<and> b \<le> a)
           \<or> (\<exists>i < 3. final_message (syn_stream e i (s_turns st)) = Inl x)
           \<or> (x = ValidationError ''FinalAnswer'' \<and> length (s_billed st) = 3))"
proof -
  obtain q where run: "attempts e 0 3 (syn_start e g s) = (q, st)"
    and r: "r = bind_res q (\<lambda>a. Inr (empty_update\<lparr>p_answer := Some (syn_dump e a),
                p_cost := Some (spent_usd_e5 (s_guard st) - spent_usd_e5 g),
                p_visited := Some [''synthesis_agent'']\<rparr>))"
    using assms by (auto simp: synthesis_body_def MAX_RETRIES_def numeral_3_eq_3 split: prod.splits)
  have start: "s_billed (syn_start e g s) = []" by (simp add: syn_start_def)
  note inv = attempts_inv [OF run syn_inv_start]
  show ?thesis
  proof (cases q)
    case (Inl x)
    then show ?thesis
      using inv attempts_fail [OF run [unfolded Inl]] start by (auto simp: r syn_inv_def)
  next
    case (Inr a)
    then show ?thesis
      using inv start by (auto simp: r syn_inv_def bg.spent_charge_all)
  qed
qed

definition demo_syn :: "json list \<Rightarrow> syn_env" where
  "demo_syn args = \<lparr>syn_stream = (\<lambda>n ts. \<lparr>events = [OtherEvent, ContentDelta (Some ''No''), ContentDelta None, ContentDelta (Some ''w'')],
       final_message = Inr \<lparr>stop_reason = ''tool_use'', content = [ToolUse ''t1'' ''final_answer'' (args ! n)],
         resp_usage = Some \<lparr>input_tokens = Some 1000, output_tokens = Some 0\<rparr>\<rparr>\<rparr>),
     syn_jiter = (\<lambda>b. Some (JObj [(''text'', JStr b)])),
     syn_num = (\<lambda>v. case v of JFloat r \<Rightarrow> Some r | _ \<Rightarrow> None), syn_err = (\<lambda>v. ''bad''),
     syn_dump = text_of, syn_parent = True, syn_docs = (\<lambda>d. []), syn_tools = (\<lambda>d. [])\<rparr>"

definition good_args :: json where
  "good_args = JObj [(''text'', JStr ''Now''), (''confidence'', JFloat (9/10))]"

definition bad_args :: json where
  "bad_args = JObj [(''text'', JStr ''Now''), (''sources'', JList [])]"

definition syn_cfg :: "run_cfg option" where
  "syn_cfg = Some (run_config ''th'' 10 \<lparr>ceiling_usd_e5 = 1000, spent_usd_e5 = 0\<rparr> NoneV [])"

lemma syn_cfg_guard: "guard_of syn_cfg = Inr \<lparr>ceiling_usd_e5 = 1000, spent_usd_e5 = 0\<rparr>"
  by (simp add: syn_cfg_def guard_of_run_config)

lemma validate_demo:
  "validate_answer (\<lambda>v. case v of JFloat r \<Rightarrow> Some r | _ \<Rightarrow> None) good_args
     = Some \<lparr>text_of = ''Now'', citations = [], confidence = 9/10\<rparr>"
  "validate_answer num bad_args = None"
  by (simp_all add: validate_answer_def good_args_def bad_args_def validate_citations_def only_keys_def
      answer_ok_def)

lemma demo_deltas:
  "stream_deltas (\<lambda>b. Some (JObj [(''text'', JStr b)])) True [] 0
     [OtherEvent, ContentDelta (Some ''No''), ContentDelta None, ContentDelta (Some ''w'')] = [''No'', ''w'']"
  by (simp add: growing_text_def emit_delta_def Let_def)

lemma demo_syn_run:
  "\<exists>st. synthesis_body (demo_syn [bad_args, good_args]) syn_cfg (entry_state ''q'' ''t'' ''th'')
     = (Inr (empty_update\<lparr>p_answer := Some ''Now'', p_cost := Some 600, p_visited := Some [''synthesis_agent'']\<rparr>), Some st)
     \<and> s_deltas st = [[''No'', ''w''], [''No'', ''w'']]
     \<and> length (s_billed st) = 2"
  by (simp add: synthesis_body_def syn_cfg_guard MAX_RETRIES_def numeral_2_eq_2 check_or_raise_def stream_once_def
      syn_start_def demo_syn_def validate_demo demo_deltas TOOL_NAME_def record_call_def record_usage_def
      or_zero_def call_cost_def PRICE_IN_E5_PER_KTOK_def PRICE_OUT_E5_PER_KTOK_def del: stream_deltas.simps)

theorem synthesis_validated_and_billed_witness:
  "\<exists>u st. synthesis_body (demo_syn [bad_args, good_args]) syn_cfg (entry_state ''q'' ''t'' ''th'') = (Inr u, Some st)
     \<and> p_answer u = Some ''Now'' \<and> length (s_billed st) = 2 \<and> p_cost u = Some (sum_list (map usage_cost (s_billed st)))"
proof -
  obtain u st where run: "synthesis_body (demo_syn [bad_args, good_args]) syn_cfg (entry_state ''q'' ''t'' ''th'') = (Inr u, Some st)"
    and u: "p_answer u = Some ''Now''" "length (s_billed st) = 2"
    using demo_syn_run by (fastforce simp: empty_update_def)
  show ?thesis
    using synthesis_validated_and_billed [OF run syn_cfg_guard] run u by auto
qed

text \<open>
  The deltas of one attempt rebuild its text: with a parent run, and as long as the tolerant
  parse of a longer buffer extends that of a shorter one, the concatenation of what was emitted is
  the text of the last buffer, no character repeated and none lost; with no parent run nothing is
  emitted.
\<close>

theorem deltas_rebuild_text:
  assumes "growing [] (texts_from j [] es)"
  shows "concat (stream_deltas j True [] 0 es) = last ([] # texts_from j [] es)
    \<and> stream_deltas j False [] 0 es = []"
  using deltas_rebuild [OF assms] no_parent_no_delta by simp

theorem deltas_rebuild_text_witness:
  "concat (stream_deltas (\<lambda>b. Some (JObj [(''text'', JStr b)])) True [] 0
     [OtherEvent, ContentDelta (Some ''No''), ContentDelta None, ContentDelta (Some ''w'')]) = ''Now''"
proof -
  let ?j = "\<lambda>b. Some (JObj [(''text'', JStr b)])"
  let ?es = "[OtherEvent, ContentDelta (Some ''No''), ContentDelta None, ContentDelta (Some ''w'')]"
  have "growing [] (texts_from ?j [] ?es)" by (simp add: growing_text_def)
  from deltas_rebuild_text [OF this] show ?thesis by (simp add: growing_text_def)
qed

text \<open>
  A repair streams the answer a second time: when the first attempt is invalid and the second
  valid, the run succeeds and what went out is the text of the failed attempt followed by the text
  of the answer, so a client that appends every delta shows both.
\<close>

theorem repair_streams_both_texts:
  assumes g: "guard_of cfg = Inr g" and parent: "syn_parent e"
    and first: "final_message (syn_stream e 0 ts) = Inr m1" "validate_answer (syn_num e) (tool_arguments (content m1)) = None"
    and second: "final_message (syn_stream e 1 (ts @ repair_turns e m1 (tool_arguments (content m1)))) = Inr m2"
      "validate_answer (syn_num e) (tool_arguments (content m2)) = Some a"
    and ts: "ts = [UserTurn (build_user_prompt (syn_docs e) (syn_tools e) s)]"
    and paid: "guard_passes g" "guard_passes (record_call g (resp_usage m1))"
    and texts: "t1 = texts_from (syn_jiter e) [] (events (syn_stream e 0 ts))"
      "t2 = texts_from (syn_jiter e) [] (events (syn_stream e 1 (ts @ repair_turns e m1 (tool_arguments (content m1)))))"
    and grow: "growing [] t1" "growing [] t2"
  shows "\<exists>u st. synthesis_body e cfg s = (Inr u, Some st) \<and> p_answer u = Some (syn_dump e a)
    \<and> concat (concat (s_deltas st)) = last ([] # t1) @ last ([] # t2)"
proof -
  have c: "check_or_raise g = Inr ()" "check_or_raise (record_call g (resp_usage m1)) = Inr ()"
    using paid by (simp_all add: guard_passes_def)
  have d: "concat (stream_deltas (syn_jiter e) True [] 0 (events (syn_stream e 0 ts))) = last ([] # t1)"
    "concat (stream_deltas (syn_jiter e) True [] 0 (events (syn_stream e 1 (ts @ repair_turns e m1 (tool_arguments (content m1)))))) = last ([] # t2)"
    using deltas_rebuild [of "[]"] grow texts by simp_all
  show ?thesis
    using c d parent first second g
    by (simp add: synthesis_body_def MAX_RETRIES_def numeral_2_eq_2 stream_once_def syn_start_def empty_update_def flip: ts)
qed

theorem repair_streams_both_texts_witness:
  "\<exists>u st. synthesis_body (demo_syn [bad_args, good_args]) syn_cfg (entry_state ''q'' ''t'' ''th'') = (Inr u, Some st)
     \<and> p_answer u = Some ''Now'' \<and> concat (concat (s_deltas st)) = ''NowNow''"
proof -
  let ?e = "demo_syn [bad_args, good_args]"
  let ?m = "\<lambda>x. \<lparr>stop_reason = ''tool_use'', content = [ToolUse ''t1'' ''final_answer'' x],
         resp_usage = Some \<lparr>input_tokens = Some 1000, output_tokens = Some 0\<rparr>\<rparr>"
  have "\<exists>u st. synthesis_body ?e syn_cfg (entry_state ''q'' ''t'' ''th'') = (Inr u, Some st)
     \<and> p_answer u = Some (syn_dump ?e \<lparr>text_of = ''Now'', citations = [], confidence = 9/10\<rparr>)
     \<and> concat (concat (s_deltas st)) = last ([] # [''No'', ''Now'']) @ last ([] # [''No'', ''Now''])"
    by (rule repair_streams_both_texts [OF syn_cfg_guard, where ?m1.0 = "?m bad_args" and ?m2.0 = "?m good_args"])
      (simp_all add: demo_syn_def validate_demo TOOL_NAME_def growing_text_def guard_passes_iff usage_cost_def
      or_zero_def call_cost_def PRICE_IN_E5_PER_KTOK_def PRICE_OUT_E5_PER_KTOK_def)
  then show ?thesis by (simp add: demo_syn_def)
qed

text \<open>
  The schema and its writer agree: the validator accepts exactly the bounds (it returns an
  answer that is within them, and it reads every answer within them back from its JSON), it refuses
  any unknown key, and the deadline sentinel is itself a valid answer below the refusal threshold.
\<close>

theorem answer_schema_roundtrip:
  assumes "num (JFloat (confidence a)) = Some (confidence a)"
  shows "(validate_answer num (answer_json a) = Some a \<longleftrightarrow> answer_ok a)
    \<and> (validate_answer num v = Some b \<longrightarrow> answer_ok b)
    \<and> (k \<notin> {''text'', ''citations'', ''confidence''} \<longrightarrow> validate_answer num (JObj ((k, w) # d)) = None)
    \<and> answer_ok timeout_answer \<and> confidence timeout_answer < REFUSAL_CONFIDENCE"
proof -
  have "validate_answer num (JObj ((k, w) # d)) = None" if "k \<notin> {''text'', ''citations'', ''confidence''}"
  proof (rule ccontr)
    assume "validate_answer num (JObj ((k, w) # d)) \<noteq> None"
    then obtain b where "validate_answer num (JObj ((k, w) # d)) = Some b" by blast
    then show False using validate_answer_keys [of num "(k, w) # d" b k] that by simp
  qed
  then show ?thesis
    using validate_answer_json [where num = num and a = a, OF _ assms] validate_answer_ok timeout_answer_ok
    by (auto simp: timeout_answer_def REFUSAL_CONFIDENCE_def)
qed

theorem answer_schema_roundtrip_witness:
  "validate_answer (\<lambda>v. case v of JFloat r \<Rightarrow> Some r | _ \<Rightarrow> None) (answer_json timeout_answer) = Some timeout_answer"
proof -
  let ?num = "\<lambda>v. case v of JFloat r \<Rightarrow> Some r | _ \<Rightarrow> None"
  show ?thesis using answer_schema_roundtrip [of ?num timeout_answer] by simp
qed

end
