(* ===== verification/AgentGraph.thy ===== *)
theory AgentGraph
  imports RetrievalNode ApiNode SynthesisNode
begin

text \<open>
  \<open>taxcalc_agent_svc/graph.py\<close>: the router, the wiring, and a run of the wired graph. The graph
  library is not part of the repository; what the code relies on is its documented super-step
  semantics, written out as \<open>pregel\<close>: all tasks of a step run on the state the step began with,
  their contributions are folded in task order, the successors along the edges are the tasks of
  the next step, each once, and a run that still has tasks when its steps are used up raises
  \<open>GraphRecursionError\<close>. How many super-steps the library grants for a recursion limit, what each
  node body does and whether its deadline cuts it off are arguments.
\<close>

section \<open>Routing\<close>

(* src/taxcalc-agent-svc/src/taxcalc_agent_svc/graph.py:70-73 RETRIEVAL_AGENT *)
definition RETRIEVAL_AGENT :: string where "RETRIEVAL_AGENT = ''retrieval_agent''"

(* src/taxcalc-agent-svc/src/taxcalc_agent_svc/graph.py:74-74 API_AGENT *)
definition API_AGENT :: string where "API_AGENT = ''api_agent''"

(* src/taxcalc-agent-svc/src/taxcalc_agent_svc/graph.py:75-75 SYNTHESIS_AGENT *)
definition SYNTHESIS_AGENT :: string where "SYNTHESIS_AGENT = ''synthesis_agent''"

(* src/taxcalc-agent-svc/src/taxcalc_agent_svc/graph.py:77-79 DOCS_KEYWORDS *)
definition DOCS_KEYWORDS :: "string list" where
  "DOCS_KEYWORDS = [''policy'', ''docs'', ''how do i'', ''rule'', ''deduction'']"

(* src/taxcalc-agent-svc/src/taxcalc_agent_svc/graph.py:81-82 API_KEYWORDS *)
definition API_KEYWORDS :: "string list" where
  "API_KEYWORDS = [''order'', ''refund'', ''status'', ''ord-'']"

definition mentions :: "string list \<Rightarrow> string \<Rightarrow> bool" where
  "mentions ks q \<longleftrightarrow> list_ex (\<lambda>t. contains q t) ks"

text \<open>The payload of every \<open>Send\<close> is the whole state, so a plan is the list of workers.\<close>

(* src/taxcalc-agent-svc/src/taxcalc_agent_svc/graph.py:85-109 supervisor *)
definition supervisor :: "agent_state \<Rightarrow> string list" where
  "supervisor s =
     (let q = lower (question s);
          needs_docs = mentions DOCS_KEYWORDS q;
          needs_api = mentions API_KEYWORDS q;
          targets = (if needs_docs then [RETRIEVAL_AGENT] else []) @ (if needs_api then [API_AGENT] else [])
      in if targets = [] then [RETRIEVAL_AGENT] else targets)"

section \<open>Wiring\<close>

record graph =
  g_nodes :: "string list"
  g_entry :: "agent_state \<Rightarrow> string list"
  g_targets :: "string list"
  g_edges :: "(string \<times> string) list"

definition END_NODE :: string where "END_NODE = ''__end__''"

(* src/taxcalc-agent-svc/src/taxcalc_agent_svc/graph.py:112-139 build_graph *)
definition build_graph :: graph where
  "build_graph = \<lparr>g_nodes = [RETRIEVAL_AGENT, API_AGENT, SYNTHESIS_AGENT], g_entry = supervisor,
     g_targets = [RETRIEVAL_AGENT, API_AGENT],
     g_edges = [(RETRIEVAL_AGENT, SYNTHESIS_AGENT), (API_AGENT, SYNTHESIS_AGENT), (SYNTHESIS_AGENT, END_NODE)]\<rparr>"

definition successors :: "graph \<Rightarrow> string list \<Rightarrow> string list" where
  "successors g done = remdups (concat (map (\<lambda>(a, b). if a \<in> set done \<and> b \<noteq> END_NODE then [b] else []) (g_edges g)))"

section \<open>A run\<close>

record run_out =
  outcome :: "agent_state res"
  ran :: "string list list"

fun pregel ::
  "(json list \<Rightarrow> json list \<Rightarrow> json list) \<Rightarrow> graph \<Rightarrow> (string \<Rightarrow> agent_state \<Rightarrow> partial_state res) \<Rightarrow> nat
     \<Rightarrow> string list \<Rightarrow> agent_state \<Rightarrow> run_out" where
  "pregel am g node 0 tasks s =
     (if tasks = [] then \<lparr>outcome = Inr s, ran = []\<rparr>
      else \<lparr>outcome = Inl (GraphRecursionError ''recursion limit''), ran = []\<rparr>)"
| "pregel am g node (Suc n) tasks s =
     (if tasks = [] then \<lparr>outcome = Inr s, ran = []\<rparr>
      else case map_res (\<lambda>t. node t s) tasks of
        Inl e \<Rightarrow> \<lparr>outcome = Inl e, ran = [tasks]\<rparr>
      | Inr us \<Rightarrow> (let r = pregel am g node n (successors g tasks) (fan_in am s us)
                   in r\<lparr>ran := tasks # ran r\<rparr>))"

text \<open>
  What a node is: its body under its deadline. \<open>body\<close> says how the run of each body goes.
\<close>

definition node_sentinel :: "(final_answer \<Rightarrow> string) \<Rightarrow> string \<Rightarrow> partial_state" where
  "node_sentinel dump t =
     (if t = RETRIEVAL_AGENT then retrieval_sentinel
      else if t = API_AGENT then api_sentinel
      else empty_update\<lparr>p_answer := Some (dump timeout_answer)\<rparr>)"

definition wrapped ::
  "(final_answer \<Rightarrow> string) \<Rightarrow> (string \<Rightarrow> agent_state \<Rightarrow> partial_state body_run) \<Rightarrow> string \<Rightarrow> agent_state \<Rightarrow> partial_state res" where
  "wrapped dump body t s = returned (deadline 1 (node_sentinel dump t) False (body t s))"

text \<open>The inputs of a request overwrite the input slots of the checkpointed state.\<close>

definition resume :: "agent_state \<Rightarrow> string \<Rightarrow> string \<Rightarrow> string \<Rightarrow> agent_state" where
  "resume s q tenant thread = s\<lparr>question := q, tenant_id := tenant, thread_id := thread\<rparr>"

definition run_graph ::
  "(json list \<Rightarrow> json list \<Rightarrow> json list) \<Rightarrow> (string \<Rightarrow> agent_state \<Rightarrow> partial_state res) \<Rightarrow> nat \<Rightarrow> agent_state \<Rightarrow> run_out" where
  "run_graph am node steps s = pregel am build_graph node steps (g_entry build_graph s) s"

section \<open>The fan-out is a plan of workers\<close>

lemma node_names [simp]:
  "RETRIEVAL_AGENT \<noteq> API_AGENT" "API_AGENT \<noteq> RETRIEVAL_AGENT" "RETRIEVAL_AGENT \<noteq> SYNTHESIS_AGENT"
  "API_AGENT \<noteq> SYNTHESIS_AGENT" "SYNTHESIS_AGENT \<noteq> RETRIEVAL_AGENT" "SYNTHESIS_AGENT \<noteq> API_AGENT"
  "SYNTHESIS_AGENT \<noteq> END_NODE"
  by (simp_all add: RETRIEVAL_AGENT_def API_AGENT_def SYNTHESIS_AGENT_def END_NODE_def)

lemma supervisor_cases:
  obtains "supervisor s = [RETRIEVAL_AGENT]" | "supervisor s = [API_AGENT]"
    | "supervisor s = [RETRIEVAL_AGENT, API_AGENT]"
proof -
  have "supervisor s \<in> {[RETRIEVAL_AGENT], [API_AGENT], [RETRIEVAL_AGENT, API_AGENT]}"
    by (simp add: supervisor_def Let_def)
  then show ?thesis using that by blast
qed

lemma successors_workers: "successors build_graph (supervisor s) = [SYNTHESIS_AGENT]"
  by (cases s rule: supervisor_cases) (simp_all add: successors_def build_graph_def)

lemma successors_synthesis: "successors build_graph [SYNTHESIS_AGENT] = []"
  by (simp add: successors_def build_graph_def)

lemma supervisor_nonempty [simp]: "supervisor s \<noteq> []"
  by (cases s rule: supervisor_cases) simp_all

lemma entry_supervisor [simp]: "g_entry build_graph = supervisor"
  by (simp add: build_graph_def)

text \<open>The two super-steps of a run, written out.\<close>

lemma run_graph_two_steps:
  "run_graph am node (Suc (Suc n)) s =
     (case map_res (\<lambda>t. node t s) (supervisor s) of
        Inl e \<Rightarrow> \<lparr>outcome = Inl e, ran = [supervisor s]\<rparr>
      | Inr us \<Rightarrow>
         (case node SYNTHESIS_AGENT (fan_in am s us) of
            Inl e \<Rightarrow> \<lparr>outcome = Inl e, ran = [supervisor s, [SYNTHESIS_AGENT]]\<rparr>
          | Inr u \<Rightarrow> \<lparr>outcome = Inr (fan_in am s (us @ [u])), ran = [supervisor s, [SYNTHESIS_AGENT]]\<rparr>))"
proof -
  have nil: "pregel am g node n [] s' = \<lparr>outcome = Inr s', ran = []\<rparr>" for g s'
    by (cases n) simp_all
  show ?thesis
    by (simp add: run_graph_def successors_workers successors_synthesis nil fan_in_def Let_def split: sum.split)
qed

lemma run_graph_few_steps:
  "run_graph am node 0 s = \<lparr>outcome = Inl (GraphRecursionError ''recursion limit''), ran = []\<rparr>"
  by (simp add: run_graph_def)

lemma map_res_Inl: "map_res f xs = Inl e \<Longrightarrow> \<exists>x \<in> set xs. f x = Inl e"
  by (induction xs) (auto split: sum.splits)

lemma map_res_all_Inr: "map_res f xs = Inr ys \<Longrightarrow> x \<in> set xs \<Longrightarrow> \<exists>y \<in> set ys. f x = Inr y"
  by (induction xs arbitrary: ys) (auto split: sum.splits)

lemma map_res_map: "map_res f xs = Inr ys \<Longrightarrow> map f xs = map Inr ys"
  by (induction xs arbitrary: ys) (auto split: sum.splits)

section \<open>Properties\<close>

text \<open>
  The router never routes nowhere and never past the workers: its plan is one or both of the
  workers, retrieval first; retrieval is left out only for a question that has an API keyword and
  no documents keyword; and the letter case of the question is irrelevant.
\<close>

theorem supervisor_plan:
  "supervisor s \<noteq> [] \<and> distinct (supervisor s) \<and> subseq (supervisor s) (g_targets build_graph)
   \<and> (RETRIEVAL_AGENT \<notin> set (supervisor s) \<longleftrightarrow>
        mentions API_KEYWORDS (lower (question s)) \<and> \<not> mentions DOCS_KEYWORDS (lower (question s)))
   \<and> (API_AGENT \<in> set (supervisor s) \<longleftrightarrow> mentions API_KEYWORDS (lower (question s)))
   \<and> supervisor (s\<lparr>question := lower (question s)\<rparr>) = supervisor s"
  by (auto simp: supervisor_def Let_def lower_idem build_graph_def)

text \<open>
  C32. A run with at least two super-steps never loops: it runs the plan, then synthesis exactly
  once, whatever the node bodies do. It either ends in the exception of one of the nodes, or in the
  state that has every worker's contribution in plan order followed by synthesis's. With fewer
  super-steps it ends in \<open>GraphRecursionError\<close> or a node's exception, never in an answer.
\<close>

theorem graph_run_shape:
  "(2 \<le> steps \<longrightarrow>
      (case outcome (run_graph am node steps s) of
         Inl e \<Rightarrow> (\<exists>t \<in> set (supervisor s). node t s = Inl e)
            \<or> (\<exists>us. map (\<lambda>t. node t s) (supervisor s) = map Inr us \<and> node SYNTHESIS_AGENT (fan_in am s us) = Inl e)
       | Inr s' \<Rightarrow> ran (run_graph am node steps s) = [supervisor s, [SYNTHESIS_AGENT]]
            \<and> (\<exists>us u. map (\<lambda>t. node t s) (supervisor s) = map Inr us
                 \<and> node SYNTHESIS_AGENT (fan_in am s us) = Inr u \<and> s' = fan_in am s (us @ [u]))))
   \<and> (steps < 2 \<longrightarrow> (\<exists>e. outcome (run_graph am node steps s) = Inl e
        \<and> ((\<exists>m. e = GraphRecursionError m) \<or> (\<exists>t \<in> set (supervisor s). node t s = Inl e))))"
proof (intro conjI impI)
  assume "2 \<le> steps"
  then obtain n where n: "steps = Suc (Suc n)" by (metis Suc_le_D numeral_2_eq_2 Suc_le_mono)
  show "case outcome (run_graph am node steps s) of
         Inl e \<Rightarrow> (\<exists>t \<in> set (supervisor s). node t s = Inl e)
            \<or> (\<exists>us. map (\<lambda>t. node t s) (supervisor s) = map Inr us \<and> node SYNTHESIS_AGENT (fan_in am s us) = Inl e)
       | Inr s' \<Rightarrow> ran (run_graph am node steps s) = [supervisor s, [SYNTHESIS_AGENT]]
            \<and> (\<exists>us u. map (\<lambda>t. node t s) (supervisor s) = map Inr us
                 \<and> node SYNTHESIS_AGENT (fan_in am s us) = Inr u \<and> s' = fan_in am s (us @ [u]))"
    unfolding n run_graph_two_steps
    using map_res_Inl [of "\<lambda>t. node t s" "supervisor s"] map_res_map [of "\<lambda>t. node t s" "supervisor s"]
    by (auto split: sum.split)
next
  assume "steps < 2"
  then consider "steps = 0" | "steps = Suc 0" by linarith
  then show "\<exists>e. outcome (run_graph am node steps s) = Inl e
        \<and> ((\<exists>m. e = GraphRecursionError m) \<or> (\<exists>t \<in> set (supervisor s). node t s = Inl e))"
  proof cases
    case 1
    then show ?thesis by (simp add: run_graph_few_steps)
  next
    case 2
    then show ?thesis
      using map_res_Inl [of "\<lambda>t. node t s" "supervisor s"]
      by (auto simp: run_graph_def successors_workers Let_def split: sum.split)
  qed
qed

definition demo_state :: agent_state where
  "demo_state = entry_state ''What is the policy for a refund?'' ''t'' ''th''"

definition demo_node :: "string \<Rightarrow> agent_state \<Rightarrow> partial_state res" where
  "demo_node t s = (if t = RETRIEVAL_AGENT then Inr retrieval_update else if t = API_AGENT then Inr api_update
     else Inr (empty_update\<lparr>p_answer := Some ''done'', p_cost := Some 30, p_visited := Some [t]\<rparr>))"

lemma demo_plan: "supervisor demo_state = [RETRIEVAL_AGENT, API_AGENT]"
  by (simp add: supervisor_def demo_state_def entry_state_def mentions_def DOCS_KEYWORDS_def API_KEYWORDS_def
      lower_def lower_char_def Let_def)

theorem graph_run_shape_witness:
  "(\<exists>s'. outcome (run_graph (@) demo_node 25 demo_state) = Inr s' \<and> answer s' = Some ''done''
      \<and> visited_nodes s' = [''retrieval_agent'', ''api_agent'', ''synthesis_agent''] \<and> cost_usd_e5 s' = 350)
   \<and> (\<exists>e. outcome (run_graph (@) demo_node 1 demo_state) = Inl e)"
proof -
  have two: "(2 :: nat) \<le> 25" "(1 :: nat) < 2" by simp_all
  obtain s' where s': "outcome (run_graph (@) demo_node 25 demo_state) = Inr s'"
  proof (cases "outcome (run_graph (@) demo_node 25 demo_state)")
    case (Inl e)
    then have False
      using graph_run_shape [where steps = 25 and am = "(@)" and node = demo_node and s = demo_state] two by (simp add: demo_node_def demo_plan)
    then show ?thesis ..
  qed
  then have "s' = fan_in (@) demo_state [retrieval_update, api_update,
      empty_update\<lparr>p_answer := Some ''done'', p_cost := Some 30, p_visited := Some [SYNTHESIS_AGENT]\<rparr>]"
    using graph_run_shape [where steps = 25 and am = "(@)" and node = demo_node and s = demo_state] two by (auto simp: demo_node_def demo_plan)
  then show ?thesis
    using s' graph_run_shape [where steps = 1 and am = "(@)" and node = demo_node and s = demo_state] two
    by (auto simp: retrieval_update_def api_update_def empty_update_def demo_state_def entry_state_def
        contrib_def contrib_cost_def SYNTHESIS_AGENT_def)
qed

text \<open>
  Deadlines degrade, they do not fail: if every body returns, is cut off, or raises
  \<open>TimeoutError\<close>, the run ends in a state. That state has exactly the documents, tools and visits of
  the legs that were not cut off, and a cut-off synthesis leaves the sentinel answer.
\<close>

theorem deadlines_degrade:
  assumes steps: "2 \<le> steps"
    and bodies: "\<And>t s e. body t s = Finished (Inl e) \<Longrightarrow> e = TimeoutError"
  shows "\<exists>s' us u. outcome (run_graph am (wrapped dump body) steps s) = Inr s' \<and> s' = fan_in am s (us @ [u])
    \<and> map (\<lambda>t. wrapped dump body t s) (supervisor s) = map Inr us
    \<and> (\<forall>i < length us. \<forall>a. body (supervisor s ! i) s = Finished (Inr a) \<longrightarrow> us ! i = a)
    \<and> (\<forall>i < length us. (\<forall>a. body (supervisor s ! i) s \<noteq> Finished (Inr a)) \<longrightarrow>
         us ! i = retrieval_sentinel \<or> us ! i = api_sentinel)
    \<and> (body SYNTHESIS_AGENT (fan_in am s us) = CutOff \<longrightarrow> answer s' = Some (dump timeout_answer))"
proof -
  have total: "\<exists>u. wrapped dump body t s = Inr u \<and> (\<forall>a. body t s = Finished (Inr a) \<longrightarrow> u = a)
      \<and> ((\<forall>a. body t s \<noteq> Finished (Inr a)) \<longrightarrow> u = node_sentinel dump t)" for t s
  proof (cases "body t s")
    case (Finished r)
    then show ?thesis
      using bodies [of t s] by (cases r) (auto simp: wrapped_def deadline_def wait_for_def)
  next
    case CutOff
    then show ?thesis by (simp add: wrapped_def deadline_cut)
  qed
  define us where "us = map (\<lambda>t. projr (wrapped dump body t s)) (supervisor s)"
  have inr: "wrapped dump body t s = Inr (projr (wrapped dump body t s))" for t s
    using total [of t s] by auto
  have us: "map_res (\<lambda>t. wrapped dump body t s) (supervisor s) = Inr us"
    unfolding us_def by (rule map_res_Inr_map) (rule inr)
  define u where "u = projr (wrapped dump body SYNTHESIS_AGENT (fan_in am s us))"
  obtain n where n: "steps = Suc (Suc n)" using steps by (metis Suc_le_D numeral_2_eq_2 Suc_le_mono)
  have out: "outcome (run_graph am (wrapped dump body) steps s) = Inr (fan_in am s (us @ [u]))"
    unfolding n run_graph_two_steps us using inr [of SYNTHESIS_AGENT "fan_in am s us"]
    by (auto simp: u_def split: sum.split)
  have workers: "t \<in> set (supervisor s) \<Longrightarrow> node_sentinel dump t \<in> {retrieval_sentinel, api_sentinel}" for t
    by (cases s rule: supervisor_cases) (auto simp: node_sentinel_def)
  have nth: "us ! i = projr (wrapped dump body (supervisor s ! i) s)" if "i < length us" for i
    using that by (simp add: us_def)
  have a: "us ! i = a" if "i < length us" "body (supervisor s ! i) s = Finished (Inr a)" for i a
    using total [of "supervisor s ! i" s] that nth [OF that(1)] by auto
  have b: "us ! i = retrieval_sentinel \<or> us ! i = api_sentinel"
    if "i < length us" "\<forall>a. body (supervisor s ! i) s \<noteq> Finished (Inr a)" for i
    using total [of "supervisor s ! i" s] that nth [OF that(1)] workers [of "supervisor s ! i"]
    by (auto simp: us_def)
  have c: "answer (fan_in am s (us @ [u])) = Some (dump timeout_answer)"
    if "body SYNTHESIS_AGENT (fan_in am s us) = CutOff"
  proof -
    have "u = empty_update\<lparr>p_answer := Some (dump timeout_answer)\<rparr>"
      using that by (simp add: u_def wrapped_def deadline_cut node_sentinel_def)
    then show ?thesis by (simp add: fan_in_def empty_update_def)
  qed
  show ?thesis using out map_res_map [OF us] a b c by blast
qed

definition demo_body :: "string \<Rightarrow> agent_state \<Rightarrow> partial_state body_run" where
  "demo_body t s = (if t = RETRIEVAL_AGENT then Finished (Inr retrieval_update) else CutOff)"

lemma demo_wrapped:
  "wrapped text_of demo_body t s = Inr (if t = RETRIEVAL_AGENT then retrieval_update else node_sentinel text_of t)"
  by (simp add: wrapped_def demo_body_def deadline_def wait_for_def)

lemma demo_docs_empty: "docs demo_state = []"
  by (simp add: demo_state_def entry_state_def)

theorem deadlines_degrade_witness:
  "\<exists>s'. outcome (run_graph (@) (wrapped text_of demo_body) 25 demo_state) = Inr s'
     \<and> answer s' = Some ''[deadline exceeded]'' \<and> docs s' = contrib (p_docs retrieval_update)"
proof -
  have "\<exists>s' us u. outcome (run_graph (@) (wrapped text_of demo_body) 25 demo_state) = Inr s'
    \<and> s' = fan_in (@) demo_state (us @ [u])
    \<and> map (\<lambda>t. wrapped text_of demo_body t demo_state) (supervisor demo_state) = map Inr us
    \<and> (\<forall>i < length us. \<forall>a. demo_body (supervisor demo_state ! i) demo_state = Finished (Inr a) \<longrightarrow> us ! i = a)
    \<and> (\<forall>i < length us. (\<forall>a. demo_body (supervisor demo_state ! i) demo_state \<noteq> Finished (Inr a)) \<longrightarrow>
         us ! i = retrieval_sentinel \<or> us ! i = api_sentinel)
    \<and> (demo_body SYNTHESIS_AGENT (fan_in (@) demo_state us) = CutOff \<longrightarrow> answer s' = Some (text_of timeout_answer))"
    by (rule deadlines_degrade) (auto simp: demo_body_def split: if_splits)
  moreover have "docs s' = contrib (p_docs retrieval_update)"
    if "outcome (run_graph (@) (wrapped text_of demo_body) 25 demo_state) = Inr s'" for s'
    using that run_graph_two_steps [of "(@)" "wrapped text_of demo_body" 23 demo_state]
    by (auto simp: demo_plan demo_wrapped fan_in_docs node_sentinel_def api_sentinel_def empty_update_def
        contrib_def demo_docs_empty)
  ultimately show ?thesis by (auto simp: demo_body_def timeout_answer_def DEADLINE_TEXT_def)
qed

text \<open>
  Evidence of earlier turns stays in the prompt: a later turn on the same thread hands
  synthesis the documents of every earlier turn before its own, so once a thread has collected one
  document the count in the prompt is never zero again, even when every leg of the turn found
  nothing; the visits and the spend of the thread accumulate in the same way.
\<close>

theorem earlier_documents_persist:
  assumes "outcome (run_graph am node (Suc (Suc n)) (resume s q tenant thread)) = Inr s'"
  shows "\<exists>us u. node SYNTHESIS_AGENT (fan_in am (resume s q tenant thread) us) = Inr u
    \<and> docs (fan_in am (resume s q tenant thread) us) = docs s @ concat (map (\<lambda>x. contrib (p_docs x)) us)
    \<and> question (fan_in am (resume s q tenant thread) us) = q
    \<and> set (dict_keys (tool_results s)) \<subseteq> set (dict_keys (tool_results (fan_in am (resume s q tenant thread) us)))
    \<and> prefix (visited_nodes s) (visited_nodes s')
    \<and> cost_usd_e5 s' = cost_usd_e5 s + sum_list (map (\<lambda>x. contrib_cost (p_cost x)) (us @ [u]))"
proof -
  let ?s = "resume s q tenant thread"
  obtain us u where us: "node SYNTHESIS_AGENT (fan_in am ?s us) = Inr u" and s': "s' = fan_in am ?s (us @ [u])"
    using assms unfolding run_graph_two_steps by (auto split: sum.splits)
  have "set (dict_keys (tool_results ?s)) \<subseteq> set (dict_keys (tool_results (fan_in am ?s us)))"
    unfolding fan_in_tools tools_channel.content_fold by blast
  moreover have "prefix (visited_nodes s) (visited_nodes s')"
    by (simp add: s' fan_in_visited resume_def)
  ultimately show ?thesis
    using us by (intro exI [of _ us] exI [of _ u]) (simp add: s' fan_in_docs fan_in_cost, simp add: resume_def)
qed

theorem earlier_documents_persist_witness:
  "let s = apply_update (@) demo_state retrieval_update;
       s' = projr (outcome (run_graph (@) (wrapped text_of (\<lambda>t s. CutOff)) 2 (resume s ''hello'' ''t'' ''th'')))
   in docs s' = docs s \<and> docs s \<noteq> [] \<and> prefix (visited_nodes s) (visited_nodes s')"
proof -
  let ?s = "apply_update (@) demo_state retrieval_update"
  let ?r = "resume ?s ''hello'' ''t'' ''th''"
  have "supervisor ?r = [RETRIEVAL_AGENT]"
    by (simp add: supervisor_def resume_def mentions_def DOCS_KEYWORDS_def API_KEYWORDS_def
      lower_def lower_char_def Let_def)
  then have run: "outcome (run_graph (@) (wrapped text_of (\<lambda>t s. CutOff)) (Suc (Suc 0)) ?r)
      = Inr (fan_in (@) ?r [retrieval_sentinel, empty_update\<lparr>p_answer := Some (text_of timeout_answer)\<rparr>])"
    unfolding run_graph_two_steps by (simp add: wrapped_def deadline_cut node_sentinel_def)
  have "docs ?s \<noteq> []" "docs (fan_in (@) ?r [retrieval_sentinel, empty_update\<lparr>p_answer := Some (text_of timeout_answer)\<rparr>]) = docs ?s"
    by (simp_all add: retrieval_update_def contrib_def resume_def retrieval_sentinel_def empty_update_def)
  then show ?thesis
    using earlier_documents_persist [OF run] unfolding Let_def numeral_2_eq_2 run sum.sel by blast
qed

section \<open>Spend reported by legs that share the guard\<close>

text \<open>
  Every node reads the spend when it starts and reports the difference when it ends. In a fan-out
  the two legs do so on the same guard, interleaved. An event is a leg's start, one charge, or a
  leg's end; the state is the guard and the spend each running leg saw at its start.
\<close>

datatype leg_event = LegStart string | LegCharge string "usage option" | LegEnd string

(* src/taxcalc-agent-svc/src/taxcalc_agent_svc/nodes/api.py:215-264 spend bookkeeping *)
fun run_legs :: "leg_event list \<Rightarrow> budget_guard \<Rightarrow> (string, int) dict \<Rightarrow> budget_guard \<times> partial_state list" where
  "run_legs [] g before = (g, [])"
| "run_legs (LegStart t # es) g before = run_legs es g (dict_set t (spent_usd_e5 g) before)"
| "run_legs (LegCharge t u # es) g before = run_legs es (record_call g u) before"
| "run_legs (LegEnd t # es) g before =
     (let spent_before = (case dict_get before t of Some b \<Rightarrow> b | None \<Rightarrow> 0);
          (g', us) = run_legs es g before
      in (g', empty_update\<lparr>p_cost := Some (spent_usd_e5 g - spent_before)\<rparr> # us))"

definition charges :: "(string \<times> usage option) list \<Rightarrow> leg_event list" where
  "charges cs = map (\<lambda>(t, u). LegCharge t u) cs"

lemma run_legs_charges:
  "run_legs (charges cs @ es) g b = run_legs es (charge_all record_call g (map snd cs)) b"
  by (induction cs arbitrary: g) (auto simp: charges_def)

text \<open>
  Parallel legs double-count: when both legs of a fan-out are running while the calls are
  made, each reports the whole spend, so the \<open>cost_usd_e5\<close> channel gains twice what the guard was
  charged; run one after the other, the channel gains exactly the charge.
\<close>

theorem parallel_legs_double_count:
  "(let (g', us) = run_legs ([LegStart r, LegStart a] @ charges cs @ [LegEnd r, LegEnd a]) g [] in
      cost_usd_e5 (fan_in am s us) = cost_usd_e5 s + 2 * (spent_usd_e5 g' - spent_usd_e5 g))
   \<and> (let (g', us) = run_legs ([LegStart r] @ charges cs @ [LegEnd r] @ [LegStart a] @ charges ds @ [LegEnd a]) g [] in
      cost_usd_e5 (fan_in am s us) = cost_usd_e5 s + (spent_usd_e5 g' - spent_usd_e5 g))"
  by (simp add: run_legs_charges Let_def empty_update_def contrib_cost_def)

end
