(* ===== verification/SseBridge.thy ===== *)
theory SseBridge
  imports AgentGraph
begin

text \<open>
  \<open>taxcalc_agent_svc/sse.py\<close>: the bridge from the events of a run to the frames on the wire.
  A run is the list of its events and the exception that ended it, if any. Arguments: \<open>fr\<close> and
  \<open>fl\<close>, the writing and reading of floats; \<open>exn_str\<close>, \<open>str\<close> of an exception; \<open>rp\<close>, \<open>str\<close> of a
  container.
\<close>

(* src/taxcalc-agent-svc/src/taxcalc_agent_svc/sse.py:59-61 TEXT_CHANNEL *)
definition TEXT_CHANNEL :: char where "TEXT_CHANNEL = CHR ''0''"

(* src/taxcalc-agent-svc/src/taxcalc_agent_svc/sse.py:62-62 DATA_CHANNEL *)
definition DATA_CHANNEL :: char where "DATA_CHANNEL = CHR ''2''"

(* src/taxcalc-agent-svc/src/taxcalc_agent_svc/sse.py:63-63 ERROR_CHANNEL *)
definition ERROR_CHANNEL :: char where "ERROR_CHANNEL = CHR ''3''"

(* src/taxcalc-agent-svc/src/taxcalc_agent_svc/nodes/synthesis.py:93-102 ANSWER_DELTA_EVENT *)
definition ANSWER_DELTA_EVENT :: string where "ANSWER_DELTA_EVENT = ''answer_delta''"

(* src/taxcalc-agent-svc/src/taxcalc_agent_svc/sse.py:85-92 frame *)
definition frame :: "(rat \<Rightarrow> string) \<Rightarrow> char \<Rightarrow> json \<Rightarrow> string" where
  "frame fr channel payload = [channel] @ '':'' @ dumps fr payload @ [CHR 0x0A]"

(* src/taxcalc-agent-svc/src/taxcalc_agent_svc/sse.py:95-119 _final_answer_payload *)
definition final_answer_payload :: "(rat \<Rightarrow> rat) \<Rightarrow> (json \<Rightarrow> string) \<Rightarrow> json \<Rightarrow> jdict option" where
  "final_answer_payload fl rp output = (case output of
     JObj d \<Rightarrow>
       (let raw = get_or d ''answer'' JNull;
            fallback = [(''text'', JStr (py_str rp raw)), (''citations'', JList []), (''confidence'', JFloat 0)]
        in if \<not> truthy raw then None
           else case raw of
             JStr s \<Rightarrow> (case loads fl s of
                 Inl e \<Rightarrow> Some fallback
               | Inr (JObj p) \<Rightarrow> Some p
               | Inr v \<Rightarrow> None)
           | _ \<Rightarrow> Some fallback)
   | _ \<Rightarrow> None)"

text \<open>
  An event: a custom event with its name and data, a chat model chunk with its content, the end of
  a chain with its name and output, or one the bridge does not look at.
\<close>

datatype run_event =
    CustomEvent string json
  | ModelStream json
  | ChainEnd string json
  | OtherRunEvent

definition delta_of :: "json \<Rightarrow> json" where
  "delta_of data = (case data of JObj d \<Rightarrow> get_or d ''delta'' JNull | _ \<Rightarrow> JNull)"

(* src/taxcalc-agent-svc/src/taxcalc_agent_svc/sse.py:142-164 event dispatch of event_stream *)
fun event_frames :: "(rat \<Rightarrow> string) \<Rightarrow> (rat \<Rightarrow> rat) \<Rightarrow> (json \<Rightarrow> string) \<Rightarrow> run_event \<Rightarrow> string list" where
  "event_frames fr fl rp (CustomEvent name data) =
     (if name = ANSWER_DELTA_EVENT \<and> truthy (delta_of data) then [frame fr TEXT_CHANNEL (delta_of data)] else [])"
| "event_frames fr fl rp (ModelStream c) = (if truthy c then [frame fr TEXT_CHANNEL c] else [])"
| "event_frames fr fl rp (ChainEnd name output) =
     (if name = SYNTHESIS_AGENT
      then (case final_answer_payload fl rp output of
              Some p \<Rightarrow> [frame fr DATA_CHANNEL (JObj [(''finalAnswer'', JObj p)])] | None \<Rightarrow> [])
      else [])"
| "event_frames fr fl rp OtherRunEvent = []"

definition error_frame :: "(rat \<Rightarrow> string) \<Rightarrow> string \<Rightarrow> string \<Rightarrow> string" where
  "error_frame fr code detail = frame fr ERROR_CHANNEL (JObj [(''error'', JStr code), (''detail'', JStr detail)])"

(* src/taxcalc-agent-svc/src/taxcalc_agent_svc/sse.py:165-183 error branches of event_stream *)
definition error_code :: "exn \<Rightarrow> string" where
  "error_code e = (case e of
     GraphRecursionError m \<Rightarrow> ''recursion_limit'' | BudgetExceeded a b \<Rightarrow> ''budget_exceeded'' | _ \<Rightarrow> ''internal'')"

(* src/taxcalc-agent-svc/src/taxcalc_agent_svc/sse.py:122-183 event_stream *)
definition event_stream ::
  "(rat \<Rightarrow> string) \<Rightarrow> (rat \<Rightarrow> rat) \<Rightarrow> (json \<Rightarrow> string) \<Rightarrow> (exn \<Rightarrow> string) \<Rightarrow> run_event list \<Rightarrow> exn option
     \<Rightarrow> string list \<times> exn option" where
  "event_stream fr fl rp exn_str evs failure =
     (let fs = concat (map (event_frames fr fl rp) evs) in
      case failure of
        None \<Rightarrow> (fs, None)
      | Some e \<Rightarrow> (if is_exception e then (fs @ [error_frame fr (error_code e) (exn_str e)], None)
                  else (fs, Some e)))"

text \<open>A fresh id when tracing is on, the empty string when it is off.\<close>

(* src/taxcalc-agent-svc/src/taxcalc_agent_svc/sse.py:186-206 new_trace_id *)
definition new_trace_id :: "bool \<Rightarrow> string \<Rightarrow> string" where
  "new_trace_id tracing fresh = (if tracing then fresh else [])"

section \<open>Frames\<close>

text \<open>The writer of floats used on the wire: printable, and read back by the reader.\<close>

definition wire_ok :: "(rat \<Rightarrow> string) \<Rightarrow> bool" where
  "wire_ok fr \<longleftrightarrow> (\<forall>r. list_all printable (fr r))"

lemma frame_one_line:
  assumes "wire_ok fr" and "channel \<noteq> CHR 0x0A"
  shows "filter (\<lambda>c. c = CHR 0x0A) (frame fr channel payload) = [CHR 0x0A] \<and> last (frame fr channel payload) = CHR 0x0A"
proof -
  have "CHR 0x0A \<notin> set (dumps fr payload)"
    using assms(1) by (intro dumps_no_newline) (auto simp: wire_ok_def)
  then have "filter (\<lambda>c. c = CHR 0x0A) (dumps fr payload) = []" by (auto simp: filter_empty_conv)
  then show ?thesis using assms(2) by (simp add: frame_def)
qed

definition channel_of :: "string \<Rightarrow> char" where "channel_of f = hd f"

definition body_of :: "string \<Rightarrow> string" where "body_of f = butlast (drop 2 f)"

lemma frame_parts: "channel_of (frame fr c p) = c" "body_of (frame fr c p) = dumps fr p"
proof -
  show "channel_of (frame fr c p) = c" by (simp add: channel_of_def frame_def)
  have "drop 2 (frame fr c p) = dumps fr p @ [CHR 0x0A]" by (simp add: frame_def)
  then show "body_of (frame fr c p) = dumps fr p" by (simp add: body_of_def)
qed

lemma event_frames_channels:
  "f \<in> set (event_frames fr fl rp ev) \<Longrightarrow> channel_of f \<in> {TEXT_CHANNEL, DATA_CHANNEL}"
proof (cases ev)
  case (ChainEnd n v)
  then show "f \<in> set (event_frames fr fl rp ev) \<Longrightarrow> ?thesis"
    by (cases "n = SYNTHESIS_AGENT"; cases "final_answer_payload fl rp v") (auto simp: frame_parts)
qed (auto simp: frame_parts split: if_splits)

text \<open>The deltas of a run, and how the client shows them: appended.\<close>

fun text_delta :: "run_event \<Rightarrow> string list" where
  "text_delta (CustomEvent name data) =
     (if name = ANSWER_DELTA_EVENT then (case delta_of data of JStr s \<Rightarrow> (if s = [] then [] else [s]) | _ \<Rightarrow> []) else [])"
| "text_delta e = []"

section \<open>Properties\<close>

text \<open>
  A frame is one line and carries its payload: it holds exactly one line break, its last
  character, so a reader that splits on lines never splits a payload; channel and payload are read
  back from it, so different payloads give different frames.
\<close>

theorem frame_roundtrip:
  assumes "wire_ok fr" and "channel \<noteq> CHR 0x0A" and "json_ok fr fl payload"
  shows "filter (\<lambda>c. c = CHR 0x0A) (frame fr channel payload) = [CHR 0x0A]
    \<and> last (frame fr channel payload) = CHR 0x0A
    \<and> channel_of (frame fr channel payload) = channel
    \<and> loads fl (body_of (frame fr channel payload)) = Inr payload
    \<and> (json_ok fr fl q \<and> frame fr channel payload = frame fr c q \<longrightarrow> channel = c \<and> payload = q)"
proof -
  have "channel = c \<and> payload = q" if "json_ok fr fl q" "frame fr channel payload = frame fr c q"
    using that dumps_inj [OF assms(3) that(1)] by (simp add: frame_def)
  then show ?thesis
    using frame_one_line [OF assms(1,2)] loads_dumps [OF assms(3)] by (simp add: frame_parts)
qed

theorem frame_roundtrip_witness:
  "loads (\<lambda>r. r) (body_of (frame (\<lambda>r. ''0'') TEXT_CHANNEL (JStr [CHR ''a'', CHR 0x0A, CHR 0x22]))) = Inr (JStr [CHR ''a'', CHR 0x0A, CHR 0x22])
   \<and> filter (\<lambda>c. c = CHR 0x0A) (frame (\<lambda>r. ''0'') TEXT_CHANNEL (JStr [CHR ''a'', CHR 0x0A, CHR 0x22])) = [CHR 0x0A]"
proof -
  have w: "wire_ok (\<lambda>r. ''0'')" by (simp add: wire_ok_def printable_def)
  have t: "TEXT_CHANNEL \<noteq> CHR 0x0A" by (simp add: TEXT_CHANNEL_def)
  have j: "json_ok (\<lambda>r. ''0'') (\<lambda>r. r) (JStr [CHR ''a'', CHR 0x0A, CHR 0x22])" by simp
  show ?thesis using frame_roundtrip [OF w t j] by blast
qed


definition demo_events :: "run_event list" where
  "demo_events = [CustomEvent ''answer_delta'' (JObj [(''delta'', JStr ''No'')]), OtherRunEvent,
     ChainEnd ''synthesis_agent'' (JObj [(''answer'', JStr ''not json'')])]"


text \<open>
  The answer survives the trip from synthesis to the client: written as JSON into the state's
  answer slot and read back by the bridge, it is the answer synthesis validated, field by field;
  and the sentinel of a missed deadline arrives as an answer of confidence zero.
\<close>

theorem answer_reaches_client:
  assumes "answer_ok a" and "loads fl text = Inr (answer_json a)" and "text \<noteq> []"
    and "dict_get output ''answer'' = Some (JStr text)"
    and "\<And>r. num (JFloat r) = Some r"
  shows "\<exists>p. final_answer_payload fl rp (JObj output) = Some p \<and> validate_answer num (JObj p) = Some a
    \<and> event_frames fr fl rp (ChainEnd SYNTHESIS_AGENT (JObj output)) = [frame fr DATA_CHANNEL (JObj [(''finalAnswer'', JObj p)])]"
proof -
  obtain p where p: "answer_json a = JObj p" by (simp add: answer_json_def)
  have "final_answer_payload fl rp (JObj output) = Some p"
    using assms(2-4) unfolding final_answer_payload_def get_or_def p by (simp add: Let_def)
  moreover have "validate_answer num (JObj p) = Some a"
    using validate_answer_json [OF assms(1)] assms(5) by (simp add: p)
  ultimately show ?thesis by simp
qed

definition demo_fr :: "rat \<Rightarrow> string" where "demo_fr r = ''0.0''"

lemma demo_float_ok: "float_ok demo_fr (\<lambda>r. r) 0"
proof -
  have "parse_num (\<lambda>r. r) (''0.0'' @ s) = Some (JFloat 0, s)" if "stop_ok s" for s
    using that by (cases s) (auto simp: parse_num_def parse_int_part_def parse_frac_def parse_exp_def decimal_value_def
        stop_ok_def is_digit_def digit_val_def Let_def)
  then show ?thesis by (simp add: float_ok_def demo_fr_def is_digit_def digit_val_def)
qed

theorem answer_reaches_client_witness:
  "\<exists>p. final_answer_payload (\<lambda>r. r) (\<lambda>v. []) (JObj [(''answer'', JStr (dumps demo_fr (answer_json timeout_answer)))]) = Some p
     \<and> validate_answer (\<lambda>v. case v of JFloat r \<Rightarrow> Some r | _ \<Rightarrow> None) (JObj p) = Some timeout_answer"
proof -
  have ok: "json_ok demo_fr (\<lambda>r. r) (answer_json timeout_answer)"
    using demo_float_ok by (simp add: answer_json_def timeout_answer_def dict_ok_def)
  have ne: "dumps demo_fr (answer_json timeout_answer) \<noteq> []" by (simp add: answer_json_def)
  show ?thesis
    using answer_reaches_client [OF timeout_answer_ok loads_dumps [OF ok] ne,
        of "[(''answer'', JStr (dumps demo_fr (answer_json timeout_answer)))]"
          "\<lambda>v. case v of JFloat r \<Rightarrow> Some r | _ \<Rightarrow> None"] by auto
qed

text \<open>
  What the client shows is what the node emitted: the payloads of the text frames, appended,
  are the deltas of the events in order, none lost and none repeated.
\<close>

theorem client_text:
  assumes "\<forall>e \<in> set evs. case e of CustomEvent n d \<Rightarrow> (\<exists>s. delta_of d = JStr s) | ModelStream c \<Rightarrow> \<not> truthy c | _ \<Rightarrow> True"
  shows "map (\<lambda>f. loads fl (body_of f)) (filter (\<lambda>f. channel_of f = TEXT_CHANNEL) (fst (event_stream fr fl rp es evs failure)))
    = map (\<lambda>s. Inr (JStr s)) (concat (map text_delta evs))"
proof -
  let ?P = "\<lambda>f. channel_of f = TEXT_CHANNEL" and ?L = "\<lambda>f. loads fl (body_of f)"
  have ch: "DATA_CHANNEL \<noteq> TEXT_CHANNEL" "ERROR_CHANNEL \<noteq> TEXT_CHANNEL"
    by (simp_all add: DATA_CHANNEL_def TEXT_CHANNEL_def ERROR_CHANNEL_def)
  have one: "map ?L (filter ?P (event_frames fr fl rp e)) = map (\<lambda>s. Inr (JStr s)) (text_delta e)"
    if h: "case e of CustomEvent n d \<Rightarrow> (\<exists>s. delta_of d = JStr s) | ModelStream c \<Rightarrow> \<not> truthy c | _ \<Rightarrow> True" for e
  proof (cases e)
    case (ChainEnd n v)
    then show ?thesis using ch
      by (cases "n = SYNTHESIS_AGENT"; cases "final_answer_payload fl rp v") (simp_all add: frame_parts)
  next
    case (CustomEvent n d)
    then obtain x where "delta_of d = JStr x" using h by auto
    then show ?thesis using loads_dumps [of fr fl "JStr x"] by (simp add: CustomEvent frame_parts)
  qed (use h in simp_all)
  have all: "map ?L (filter ?P (concat (map (event_frames fr fl rp) evs)))
      = map (\<lambda>s. Inr (JStr s)) (concat (map text_delta evs))"
    using assms by (induction evs) (simp_all add: one)
  show ?thesis
    using all ch by (auto simp: event_stream_def Let_def error_frame_def frame_parts split: option.split)
qed

theorem client_text_witness:
  "map (\<lambda>f. loads (\<lambda>r. r) (body_of f)) (filter (\<lambda>f. channel_of f = TEXT_CHANNEL)
      (fst (event_stream (\<lambda>r. ''0'') (\<lambda>r. r) (\<lambda>v. []) (\<lambda>e. []) demo_events None))) = [Inr (JStr ''No'')]"
  using client_text [of demo_events "\<lambda>r. r" "\<lambda>r. ''0''" "\<lambda>v. []" "\<lambda>e. []" None]
  by (simp add: demo_events_def delta_of_def get_or_def ANSWER_DELTA_EVENT_def)

end
