(* ===== verification/Runtime.thy ===== *)
theory Runtime
  imports Prelude
begin

text \<open>
  \<open>taxcalc_agent_svc/runtime.py\<close>: the lazily opened shared dependencies. The state is the holder's
  fields; the MCP transport lives in tasks of its own, numbered in the order they are created, and
  a task's success or failure is a separate step, because it happens after the call that created
  it may already have returned. Whether an attempt to connect succeeds is the environment's choice.
  \<open>retry\<close> is the retry library's documented behaviour with a bounded number of attempts and
  \<open>reraise=True\<close>: the first success, or the last exception; a cancellation is not retried.
\<close>

(* src/taxcalc-agent-svc/src/taxcalc_agent_svc/runtime.py:52-55 OPEN_ATTEMPTS *)
definition OPEN_ATTEMPTS :: nat where "OPEN_ATTEMPTS = 3"

fun retry :: "nat \<Rightarrow> (nat \<Rightarrow> 'a res) \<Rightarrow> nat \<Rightarrow> exn \<Rightarrow> 'a res \<times> nat" where
  "retry 0 f i e = (Inl e, i)"
| "retry (Suc n) f i e =
     (case f i of
        Inr a \<Rightarrow> (Inr a, Suc i)
      | Inl x \<Rightarrow> (if is_exception x then retry n f (Suc i) x else (Inl x, Suc i)))"

(* src/taxcalc-agent-svc/src/taxcalc_agent_svc/runtime.py:81-108 Dependencies fields *)
record deps =
  d_graph :: bool
  d_session :: "nat option"
  d_task :: "nat option"
  d_running :: "nat list"
  d_up :: bool
  d_closing :: bool
  d_error :: "string option"
  d_next :: nat

(* src/taxcalc-agent-svc/src/taxcalc_agent_svc/runtime.py:92-108 Dependencies.__init__ *)
definition new_deps :: deps where
  "new_deps = \<lparr>d_graph = False, d_session = None, d_task = None, d_running = [], d_up = False,
     d_closing = False, d_error = None, d_next = 0\<rparr>"

(* src/taxcalc-agent-svc/src/taxcalc_agent_svc/runtime.py:118-127 Dependencies.graph_ready *)
definition graph_ready :: "deps \<Rightarrow> bool" where "graph_ready d = d_graph d"

(* src/taxcalc-agent-svc/src/taxcalc_agent_svc/runtime.py:129-138 Dependencies.session_ready *)
definition session_ready :: "deps \<Rightarrow> bool" where "session_ready d = (d_session d \<noteq> None)"

(* src/taxcalc-agent-svc/src/taxcalc_agent_svc/runtime.py:140-169 Dependencies.graph *)
definition open_graph :: "(nat \<Rightarrow> unit res) \<Rightarrow> deps \<Rightarrow> unit res \<times> deps" where
  "open_graph attempt d =
     (if d_graph d then (Inr (), d)
      else case fst (retry OPEN_ATTEMPTS attempt 0 Cancelled) of
        Inr _ \<Rightarrow> (Inr (), d\<lparr>d_graph := True\<rparr>)
      | Inl e \<Rightarrow> (if is_exception e then (Inl (DependencyUnavailable ''checkpointer unavailable''), d) else (Inl e, d)))"

(* src/taxcalc-agent-svc/src/taxcalc_agent_svc/runtime.py:171-189 Dependencies._auth_headers *)
definition auth_headers :: "string \<Rightarrow> (string \<times> string) list option" where
  "auth_headers token = (if token \<noteq> [] then Some [(''Authorization'', ''Bearer '' @ token)] else None)"

text \<open>
  \<open>session()\<close>: with no live session a task is created and the caller waits for the event. A set
  event does not suspend the caller, so the fields are read before the new task has run.
\<close>

datatype session_reply = Got nat | Refused string | Waits | AssertFails

(* src/taxcalc-agent-svc/src/taxcalc_agent_svc/runtime.py:217-227 after the wait in session *)
definition after_wait :: "deps \<Rightarrow> session_reply" where
  "after_wait d = (case d_error d of
     Some e \<Rightarrow> Refused e
   | None \<Rightarrow> (case d_session d of Some i \<Rightarrow> Got i | None \<Rightarrow> AssertFails))"

(* src/taxcalc-agent-svc/src/taxcalc_agent_svc/runtime.py:191-227 Dependencies.session *)
definition session_call :: "deps \<Rightarrow> session_reply \<times> deps" where
  "session_call d =
     (case d_session d of
        Some i \<Rightarrow> (Got i, d)
      | None \<Rightarrow>
         (let d1 = d\<lparr>d_task := Some (d_next d), d_running := d_running d @ [d_next d], d_next := Suc (d_next d)\<rparr>
          in if d_up d then (after_wait d1, d1) else (Waits, d1)))"

text \<open>
  A task's step: it connects within the attempts, publishes the session and parks; or it fails and
  publishes the error. Either way the event is set. The reply is what a waiting caller then gets.
\<close>

(* src/taxcalc-agent-svc/src/taxcalc_agent_svc/runtime.py:229-264 Dependencies._serve_session *)
definition serve_session :: "(nat \<Rightarrow> unit res) \<Rightarrow> nat \<Rightarrow> deps \<Rightarrow> deps" where
  "serve_session attempt i d =
     (case fst (retry OPEN_ATTEMPTS attempt 0 Cancelled) of
        Inr _ \<Rightarrow> d\<lparr>d_session := Some i, d_up := True\<rparr>
      | Inl e \<Rightarrow> d\<lparr>d_running := remove1 i (d_running d),
           d_error := (if is_exception e then Some ''MCP server unavailable'' else d_error d),
           d_session := None, d_up := True\<rparr>)"

text \<open>A parked task ends once closing is set.\<close>

definition serve_ends :: "nat \<Rightarrow> deps \<Rightarrow> deps" where
  "serve_ends i d = (if d_closing d then d\<lparr>d_running := remove1 i (d_running d), d_session := None\<rparr> else d)"

(* src/taxcalc-agent-svc/src/taxcalc_agent_svc/runtime.py:304-321 Dependencies.aclose *)
definition aclose :: "deps \<Rightarrow> deps" where
  "aclose d = (case d_task d of
     Some i \<Rightarrow> (serve_ends i (d\<lparr>d_closing := True\<rparr>))\<lparr>d_task := None\<rparr>
   | None \<Rightarrow> d)"

text \<open>
  \<open>warmup\<close> tries both and swallows \<open>DependencyUnavailable\<close>; the session part waits for its task.
\<close>

(* src/taxcalc-agent-svc/src/taxcalc_agent_svc/runtime.py:266-279 Dependencies.warmup *)
definition warmup :: "(nat \<Rightarrow> unit res) \<Rightarrow> (nat \<Rightarrow> unit res) \<Rightarrow> deps \<Rightarrow> unit res \<times> deps" where
  "warmup ga sa d =
     (case open_graph ga d of
        (Inl Cancelled, d1) \<Rightarrow> (Inl Cancelled, d1)
      | (_, d1) \<Rightarrow> (case session_call d1 of
            (Waits, d2) \<Rightarrow> (let d3 = serve_session sa (d_next d1) d2 in
               case after_wait d3 of AssertFails \<Rightarrow> (Inl (OtherError ''AssertionError'' []), d3) | _ \<Rightarrow> (Inr (), d3))
          | (AssertFails, d2) \<Rightarrow> (Inl (OtherError ''AssertionError'' []), d2)
          | (_, d2) \<Rightarrow> (Inr (), d2)))"

text \<open>
  \<open>reconnect_forever\<close>: \<open>rounds\<close> says how each round's attempts go. \<open>None\<close>: still trying after \<open>n\<close>
  rounds. The count is the number of sleeps.
\<close>

(* src/taxcalc-agent-svc/src/taxcalc_agent_svc/runtime.py:281-302 Dependencies.reconnect_forever *)
fun reconnect :: "nat \<Rightarrow> (nat \<Rightarrow> nat \<Rightarrow> unit res) \<Rightarrow> nat \<Rightarrow> deps \<Rightarrow> (unit res \<times> nat \<times> deps) option" where
  "reconnect 0 rounds r d = (if d_graph d then Some (Inr (), r, d) else None)"
| "reconnect (Suc n) rounds r d =
     (if d_graph d then Some (Inr (), r, d)
      else case open_graph (rounds r) d of
        (Inr _, d') \<Rightarrow> Some (Inr (), r, d')
      | (Inl (DependencyUnavailable m), d') \<Rightarrow> reconnect n rounds (Suc r) d'
      | (Inl e, d') \<Rightarrow> Some (Inl e, r, d'))"

section \<open>Retrying\<close>

lemma retry_bound: "retry n f i e = (r, j) \<Longrightarrow> i \<le> j \<and> j \<le> i + n"
  by (induction n f i e rule: retry.induct) (auto split: sum.splits if_splits)

lemma retry_success:
  "retry n f i e = (Inr a, j) \<Longrightarrow> i < j \<and> f (j - 1) = Inr a \<and> (\<forall>k. i \<le> k \<and> k < j - 1 \<longrightarrow> (\<exists>x. f k = Inl x \<and> is_exception x))"
proof (induction n f i e rule: retry.induct)
  case (2 n f i e)
  show ?case
  proof (cases "f i")
    case (Inl x)
    then have ex: "is_exception x" and rec: "retry n f (Suc i) x = (Inr a, j)"
      using 2(2) by (auto split: if_splits)
    from 2(1) [OF Inl ex rec] Inl ex show ?thesis
      by (auto simp: le_less_Suc_eq) (metis Suc_leI le_neq_implies_less)
  next
    case (Inr b)
    then show ?thesis using 2(2) by auto
  qed
qed simp

lemma retry_finds:
  "k < n \<Longrightarrow> f (i + k) = Inr a \<Longrightarrow> (\<forall>l < k. \<exists>x. f (i + l) = Inl x \<and> is_exception x) \<Longrightarrow> retry n f i e = (Inr a, i + k + 1)"
proof (induction n f i e arbitrary: k rule: retry.induct)
  case (2 n f i e)
  show ?case
  proof (cases k)
    case 0
    then show ?thesis using 2 by simp
  next
    case (Suc l)
    obtain x where x: "f i = Inl x" "is_exception x"
      using 2(4) Suc by (metis add_0_right zero_less_Suc)
    have "retry n f (Suc i) x = (Inr a, Suc i + l + 1)"
      using 2(2-4) Suc by (intro 2(1) [OF x]) (auto simp: less_Suc_eq_0_disj)
    then show ?thesis using x Suc by simp
  qed
qed simp

lemma retry_all_fail:
  "0 < n \<Longrightarrow> (\<forall>l < n. \<exists>x. f (i + l) = Inl x \<and> is_exception x) \<Longrightarrow> \<exists>x. retry n f i e = (Inl x, i + n) \<and> is_exception x"
proof (induction n f i e rule: retry.induct)
  case (2 n f i e)
  obtain x where x: "f i = Inl x" "is_exception x" using 2(3) by (metis add_0_right zero_less_Suc)
  show ?case
  proof (cases n)
    case 0
    then show ?thesis using x by simp
  next
    case (Suc m)
    have "\<forall>l < n. \<exists>y. f (Suc i + l) = Inl y \<and> is_exception y"
      using 2(3) by (metis Suc_less_eq add_Suc_shift)
    then have "\<exists>y. retry n f (Suc i) x = (Inl y, Suc i + n) \<and> is_exception y"
      using Suc by (intro 2(1) [OF x]) simp_all
    then show ?thesis using x by simp
  qed
qed simp

section \<open>Opening\<close>

lemma open_graph_cases:
  "open_graph att d = (r, d') \<Longrightarrow>
     (r = Inr () \<and> d_graph d' \<and> d' = d\<lparr>d_graph := True\<rparr>) \<or>
     ((r = Inl (DependencyUnavailable ''checkpointer unavailable'') \<or> r = Inl Cancelled) \<and> d' = d \<and> \<not> d_graph d)"
  by (auto simp: open_graph_def split: if_splits sum.splits elim: is_exception.elims)

fun calls_n :: "nat \<Rightarrow> deps \<Rightarrow> session_reply list \<times> deps" where
  "calls_n 0 d = ([], d)"
| "calls_n (Suc k) d = (let (r, d') = session_call d; (rs, d'') = calls_n k d' in (r # rs, d''))"

lemma calls_live: "d_session d = Some i \<Longrightarrow> calls_n k d = (replicate k (Got i), d)"
  by (induction k) (simp_all add: session_call_def)

text \<open>Calls made after a failed opening, before any of the new tasks has run.\<close>

lemma calls_stale:
  "d_session d = None \<Longrightarrow> d_up d \<Longrightarrow> d_error d = Some e \<Longrightarrow>
     fst (calls_n k d) = replicate k (Refused e)
     \<and> d_running (snd (calls_n k d)) = d_running d @ [d_next d ..< d_next d + k]
     \<and> d_error (snd (calls_n k d)) = Some e \<and> d_session (snd (calls_n k d)) = None"
proof (induction k arbitrary: d)
  case (Suc k)
  define d1 where "d1 = d\<lparr>d_task := Some (d_next d), d_running := d_running d @ [d_next d], d_next := Suc (d_next d)\<rparr>"
  have call: "session_call d = (Refused e, d1)"
    using Suc.prems by (simp add: session_call_def d1_def Let_def after_wait_def)
  have "fst (calls_n k d1) = replicate k (Refused e)
     \<and> d_running (snd (calls_n k d1)) = d_running d1 @ [d_next d1 ..< d_next d1 + k]
     \<and> d_error (snd (calls_n k d1)) = Some e \<and> d_session (snd (calls_n k d1)) = None"
    by (rule Suc.IH) (use Suc.prems in \<open>simp_all add: d1_def\<close>)
  then show ?case
    by (simp add: call Let_def case_prod_beta) (simp add: d1_def upt_conv_Cons)
qed simp

section \<open>Properties\<close>

text \<open>
  Opening the graph is bounded, happens once and is reported honestly: at most three attempts
  are made; the graph is up afterwards exactly when one of them succeeded before any cancellation;
  a failure leaves the holder unchanged and is a \<open>DependencyUnavailable\<close>; and once it is up no
  attempt is made again.
\<close>

theorem graph_opens_once:
  "snd (retry OPEN_ATTEMPTS att 0 Cancelled) \<le> 3
   \<and> (case open_graph att d of
        (Inr _, d') \<Rightarrow> graph_ready d' \<and> open_graph att2 d' = (Inr (), d') \<and> (d_graph d \<or> (\<exists>k < 3. att k = Inr ()))
      | (Inl e, d') \<Rightarrow> d' = d \<and> \<not> graph_ready d \<and> (e = Cancelled \<or> (\<exists>m. e = DependencyUnavailable m)))"
proof
  obtain r j where r: "retry OPEN_ATTEMPTS att 0 Cancelled = (r, j)" by (cases "retry OPEN_ATTEMPTS att 0 Cancelled")
  then show "snd (retry OPEN_ATTEMPTS att 0 Cancelled) \<le> 3"
    using retry_bound [OF r] by (simp add: OPEN_ATTEMPTS_def)
  have some: "\<exists>k < 3. att k = Inr ()" if "r = Inr u" for u
    using retry_success [OF r [unfolded that]] retry_bound [OF r]
    by (intro exI [of _ "j - 1"]) (auto simp: OPEN_ATTEMPTS_def)
  obtain q d' where o: "open_graph att d = (q, d')" by (cases "open_graph att d")
  show "case open_graph att d of
        (Inr _, d') \<Rightarrow> graph_ready d' \<and> open_graph att2 d' = (Inr (), d') \<and> (d_graph d \<or> (\<exists>k < 3. att k = Inr ()))
      | (Inl e, d') \<Rightarrow> d' = d \<and> \<not> graph_ready d \<and> (e = Cancelled \<or> (\<exists>m. e = DependencyUnavailable m))"
    using open_graph_cases [OF o] some o r
    by (cases q; cases r) (auto simp: graph_ready_def open_graph_def split: if_splits)
qed

text \<open>
  One session is shared: after the first call's task has connected, any number of calls
  returns that session and creates no task.
\<close>

theorem session_shared:
  assumes "att j = Inr ()" and "j < 3" and "\<forall>l < j. \<exists>x. att l = Inl x \<and> is_exception x"
  shows "session_call new_deps = (Waits, new_deps\<lparr>d_task := Some 0, d_running := [0], d_next := 1\<rparr>)
    \<and> (let d = serve_session att 0 (snd (session_call new_deps)) in
        after_wait d = Got 0 \<and> session_ready d \<and> calls_n k d = (replicate k (Got 0), d) \<and> d_running d = [0])"
proof -
  have call: "session_call new_deps = (Waits, new_deps\<lparr>d_task := Some 0, d_running := [0], d_next := 1\<rparr>)"
    by (simp add: session_call_def new_deps_def Let_def)
  have "retry OPEN_ATTEMPTS att 0 Cancelled = (Inr (), 0 + j + 1)"
    by (rule retry_finds) (use assms in \<open>auto simp: OPEN_ATTEMPTS_def\<close>)
  then have "serve_session att 0 d = d\<lparr>d_session := Some 0, d_up := True\<rparr>" for d
    by (simp add: serve_session_def)
  then show ?thesis
    using call by (simp add: Let_def calls_live session_ready_def) (simp add: after_wait_def new_deps_def)
qed

theorem session_shared_witness:
  "fst (calls_n 5 (serve_session (\<lambda>k. if k = 0 then Inl TimeoutError else Inr ()) 0 (snd (session_call new_deps))))
     = replicate 5 (Got 0)"
proof -
  let ?d = "serve_session (\<lambda>k. if k = 0 then Inl TimeoutError else Inr ()) 0 (snd (session_call new_deps))"
  have "calls_n 5 ?d = (replicate 5 (Got 0), ?d)"
    by (rule session_shared [of "\<lambda>k. if k = 0 then Inl TimeoutError else Inr ()" 1 5, unfolded Let_def,
          THEN conjunct2, THEN conjunct2, THEN conjunct2, THEN conjunct1]) auto
  then show ?thesis by simp
qed

text \<open>
  A failed opening poisons the next calls: once an opening has failed, every call is refused
  with that error, before its own task has run and whatever that task will find, and every such
  call creates one more task; after a task has connected the error is never cleared, but calls
  return the live session.
\<close>

theorem failed_opening_is_sticky:
  assumes "\<forall>l < 3. \<exists>x. att l = Inl x \<and> is_exception x"
  shows "let d = serve_session att 0 (snd (session_call new_deps)) in
      after_wait d = Refused ''MCP server unavailable''
    \<and> fst (calls_n k d) = replicate k (Refused ''MCP server unavailable'')
    \<and> d_running (snd (calls_n k d)) = [1 ..< Suc k]
    \<and> d_error (serve_session att2 i (snd (calls_n k d))) \<noteq> None"
proof -
  define d where "d = serve_session att 0 (snd (session_call new_deps))"
  obtain x where x: "retry OPEN_ATTEMPTS att 0 Cancelled = (Inl x, 0 + OPEN_ATTEMPTS)" "is_exception x"
    using retry_all_fail [of OPEN_ATTEMPTS att 0 Cancelled] assms by (auto simp: OPEN_ATTEMPTS_def)
  have d: "d = new_deps\<lparr>d_task := Some 0, d_running := [], d_next := 1,
      d_error := Some ''MCP server unavailable'', d_up := True\<rparr>"
    using x by (simp add: d_def serve_session_def session_call_def Let_def) (simp add: new_deps_def)
  have "d_session d = None" "d_up d" "d_error d = Some ''MCP server unavailable''" "d_running d = []" "d_next d = 1"
    by (simp_all add: d new_deps_def)
  from calls_stale [OF this(1-3), of k] this(3-5)
  show ?thesis
    unfolding d_def [symmetric] Let_def
    by (auto simp: after_wait_def serve_session_def split: sum.split)
qed

theorem failed_opening_is_sticky_witness:
  "fst (calls_n 2 (serve_session (\<lambda>k. Inl TimeoutError) 0 (snd (session_call new_deps))))
     = [Refused ''MCP server unavailable'', Refused ''MCP server unavailable'']"
  using failed_opening_is_sticky [of "\<lambda>k. Inl TimeoutError" 2] by (simp add: Let_def numeral_2_eq_2)

lemma open_graph_fails:
  assumes "\<forall>l < 3. \<exists>x. att l = Inl x \<and> is_exception x" and "\<not> d_graph d"
  shows "open_graph att d = (Inl (DependencyUnavailable ''checkpointer unavailable''), d)"
  using retry_all_fail [of OPEN_ATTEMPTS att 0 Cancelled] assms by (auto simp: open_graph_def OPEN_ATTEMPTS_def)

lemma reconnect_skip:
  "(\<forall>q < k. \<forall>l < 3. \<exists>x. rounds (s + q) l = Inl x \<and> is_exception x) \<Longrightarrow> \<not> d_graph d \<Longrightarrow>
     reconnect (k + n) rounds s d = reconnect n rounds (s + k) d"
proof (induction k arbitrary: s)
  case (Suc k)
  have fail: "\<forall>l < 3. \<exists>x. rounds s l = Inl x \<and> is_exception x"
    using Suc.prems(1) by (metis add_0_right zero_less_Suc)
  have "\<forall>q < k. \<forall>l < 3. \<exists>x. rounds (Suc s + q) l = Inl x \<and> is_exception x"
    using Suc.prems(1) by (metis Suc_less_eq add_Suc_shift)
  from Suc.IH [OF this Suc.prems(2)] show ?case
    using Suc.prems(2) open_graph_fails [OF fail Suc.prems(2)] by simp
qed simp

text \<open>
  The background reconnect converges: if every attempt of the first \<open>r\<close> rounds fails and an
  attempt of round \<open>r\<close> succeeds, it stops after exactly \<open>r\<close> sleeps with the graph up, so readiness
  does not depend on traffic; while every round fails it does not stop.
\<close>

theorem reconnect_converges:
  assumes "\<forall>q < r. \<forall>l < 3. \<exists>x. rounds q l = Inl x \<and> is_exception x" and "\<not> d_graph d"
  shows "reconnect r rounds 0 d = None
    \<and> (rounds r 0 = Inr () \<longrightarrow> reconnect (r + 1) rounds 0 d = Some (Inr (), r, d\<lparr>d_graph := True\<rparr>))"
proof -
  have "reconnect (r + 0) rounds 0 d = reconnect 0 rounds (0 + r) d"
    by (rule reconnect_skip) (use assms in simp_all)
  moreover have "reconnect (r + 1) rounds 0 d = reconnect 1 rounds (0 + r) d"
    by (rule reconnect_skip) (use assms in simp_all)
  moreover have "open_graph (rounds r) d = (Inr (), d\<lparr>d_graph := True\<rparr>)" if "rounds r 0 = Inr ()"
    using that assms(2) by (simp add: open_graph_def OPEN_ATTEMPTS_def numeral_3_eq_3)
  ultimately show ?thesis using assms(2) by simp
qed

theorem reconnect_converges_witness:
  "reconnect 2 (\<lambda>q l. if q = 0 then Inl TimeoutError else Inr ()) 0 new_deps = Some (Inr (), 1, new_deps\<lparr>d_graph := True\<rparr>)"
  using reconnect_converges [of 1 "\<lambda>q l. if q = 0 then Inl TimeoutError else Inr ()" new_deps]
  by (simp add: new_deps_def numeral_2_eq_2)

end
