(* ===== verification/Cache.thy ===== *)
theory Cache
  imports Json
begin

text \<open>
  \<open>taxcalc_ai/cache.py\<close>: the semantic cache. The server is a map from keys to a value and an
  optional expiry time, read at a time \<open>now\<close>; the three commands the code sends are written out.
  Arguments: \<open>digest\<close>, the sixteen hexadecimal characters the code derives from a query vector,
  and the float functions of the JSON text. The locale states what the code relies on of a keyed
  store with expiry; it is interpreted on the model of the server.
\<close>

section \<open>The server\<close>

type_synonym redis = "(string, string \<times> int option) dict"

definition r_get :: "int \<Rightarrow> redis \<Rightarrow> string \<Rightarrow> string option" where
  "r_get now r k = (case dict_get r k of
     None \<Rightarrow> None
   | Some (v, None) \<Rightarrow> Some v
   | Some (v, Some t) \<Rightarrow> (if now < t then Some v else None))"

definition r_set :: "int \<Rightarrow> string \<Rightarrow> string \<Rightarrow> int option \<Rightarrow> redis \<Rightarrow> redis" where
  "r_set now k v ttl r = dict_set k (v, map_option (\<lambda>s. now + s) ttl) r"

text \<open>\<open>INCR\<close>: a missing key counts as 0; a value that is no integer is an error.\<close>

definition r_incr :: "int \<Rightarrow> string \<Rightarrow> redis \<Rightarrow> nat res \<times> redis" where
  "r_incr now k r = (case r_get now r k of
     None \<Rightarrow> (Inr 1, r_set now k (nat_str 1) None r)
   | Some s \<Rightarrow> (case str_nat s of
        None \<Rightarrow> (Inl (OtherError ''ResponseError'' []), r)
      | Some n \<Rightarrow> (Inr (n + 1), dict_set k (nat_str (n + 1), Option.bind (dict_get r k) snd) r)))"

locale expiring_store =
  fixes get :: "int \<Rightarrow> 's \<Rightarrow> 'k \<Rightarrow> 'v option"
    and put :: "int \<Rightarrow> 'k \<Rightarrow> 'v \<Rightarrow> int option \<Rightarrow> 's \<Rightarrow> 's"
  assumes get_put_same: "get t (put now k v ttl s) k = (case ttl of None \<Rightarrow> Some v | Some d \<Rightarrow> if t < now + d then Some v else None)"
    and get_put_other: "k' \<noteq> k \<Longrightarrow> get t (put now k v ttl s) k' = get t s k'"
begin

lemma fresh_read: "0 < d \<Longrightarrow> get now (put now k v (Some d) s) k = Some v"
  by (simp add: get_put_same)

lemma expired_read: "now + d \<le> t \<Longrightarrow> get t (put now k v (Some d) s) k = None"
  by (simp add: get_put_same)

end

interpretation rs: expiring_store r_get r_set
  by unfold_locales (auto simp: r_get_def r_set_def split: option.split)

section \<open>The cache\<close>

(* src/taxcalc-ai/src/taxcalc_ai/cache.py:64-67 DEFAULT_TTL_SECONDS *)
definition DEFAULT_TTL_SECONDS :: int where "DEFAULT_TTL_SECONDS = 3600"

(* src/taxcalc-ai/src/taxcalc_ai/cache.py:59-62 HASH_PREFIX_LENGTH *)
definition HASH_PREFIX_LENGTH :: nat where "HASH_PREFIX_LENGTH = 16"

(* src/taxcalc-ai/src/taxcalc_ai/cache.py:69-71 _EPOCH_KEY_TEMPLATE *)
definition epoch_key :: "string \<Rightarrow> string" where
  "epoch_key tenant = ''taxcalc_ai:cache-epoch:'' @ tenant"

(* src/taxcalc-ai/src/taxcalc_ai/cache.py:85-101 _bucket_key *)
definition bucket_key :: "('v \<Rightarrow> string) \<Rightarrow> 'v \<Rightarrow> string \<Rightarrow> nat \<Rightarrow> string" where
  "bucket_key digest q tenant epoch =
     ''taxcalc_ai:sem:'' @ tenant @ '':e'' @ nat_str epoch @ '':'' @ take HASH_PREFIX_LENGTH (digest q)"

(* src/taxcalc-ai/src/taxcalc_ai/cache.py:104-118 get_epoch *)
definition get_epoch :: "int \<Rightarrow> redis \<Rightarrow> string \<Rightarrow> nat res" where
  "get_epoch now r tenant = (case r_get now r (epoch_key tenant) of
     None \<Rightarrow> Inr 0
   | Some raw \<Rightarrow> (case str_nat raw of Some n \<Rightarrow> Inr n | None \<Rightarrow> Inl (ValueError raw)))"

(* src/taxcalc-ai/src/taxcalc_ai/cache.py:121-137 bump_epoch *)
definition bump_epoch :: "int \<Rightarrow> redis \<Rightarrow> string \<Rightarrow> nat res \<times> redis" where
  "bump_epoch now r tenant = r_incr now (epoch_key tenant) r"

text \<open>The check on a stored answer: a citation that is a dictionary must carry the tenant.\<close>

(* src/taxcalc-ai/src/taxcalc_ai/cache.py:164-180 citation check of cache_lookup *)
definition citations_match :: "string \<Rightarrow> jdict \<Rightarrow> bool" where
  "citations_match tenant a = (case get_or a ''citations'' (JList []) of
     JList cs \<Rightarrow> list_all (\<lambda>c. case c of JObj d \<Rightarrow> dict_get d ''tenant_id'' = Some (JStr tenant) | _ \<Rightarrow> True) cs
   | _ \<Rightarrow> True)"

(* src/taxcalc-ai/src/taxcalc_ai/cache.py:140-186 cache_lookup *)
definition cache_lookup ::
  "(rat \<Rightarrow> rat) \<Rightarrow> ('v \<Rightarrow> string) \<Rightarrow> int \<Rightarrow> redis \<Rightarrow> 'v \<Rightarrow> string \<Rightarrow> jdict option res" where
  "cache_lookup fl digest now r q tenant =
     bind_res (get_epoch now r tenant) (\<lambda>epoch.
       case r_get now r (bucket_key digest q tenant epoch) of
         None \<Rightarrow> Inr None
       | Some raw \<Rightarrow> bind_res (loads fl raw) (\<lambda>v. case v of
             JObj a \<Rightarrow> Inr (if citations_match tenant a then Some a else None)
           | _ \<Rightarrow> Inl (OtherError ''AttributeError'' ''get'')))"

(* src/taxcalc-ai/src/taxcalc_ai/cache.py:189-224 cache_store *)
definition cache_store ::
  "(rat \<Rightarrow> string) \<Rightarrow> ('v \<Rightarrow> string) \<Rightarrow> int \<Rightarrow> redis \<Rightarrow> 'v \<Rightarrow> string \<Rightarrow> jdict \<Rightarrow> int \<Rightarrow> redis res" where
  "cache_store fr digest now r q tenant a ttl =
     bind_res (get_epoch now r tenant) (\<lambda>epoch.
       Inr (r_set now (bucket_key digest q tenant epoch) (dumps fr (JObj a)) (Some ttl) r))"

section \<open>Keys\<close>

text \<open>The digest has sixteen characters, so tenant and epoch can be read off a key from the right.\<close>

definition digest_ok :: "('v \<Rightarrow> string) \<Rightarrow> bool" where
  "digest_ok digest \<longleftrightarrow> (\<forall>q. HASH_PREFIX_LENGTH \<le> length (digest q))"

lemma append_eq_len: "xs @ us = ys @ vs \<Longrightarrow> length us = length vs \<Longrightarrow> xs = ys \<and> us = vs"
  by simp

lemma nat_tail_unique:
  assumes "a @ [CHR ''e''] @ nat_str m = b @ [CHR ''e''] @ nat_str n"
  shows "a = b \<and> m = n"
proof -
  have e: "CHR ''e'' \<notin> set (nat_str k)" for k
    by (rule nat_str_no_char) (simp add: is_digit_def digit_val_def)
  have "rev (nat_str m) @ CHR ''e'' # rev a = rev (nat_str n) @ CHR ''e'' # rev b"
    using arg_cong [OF assms, of rev] by simp
  then have "takeWhile (\<lambda>c. c \<noteq> CHR ''e'') (rev (nat_str m) @ CHR ''e'' # rev a)
      = takeWhile (\<lambda>c. c \<noteq> CHR ''e'') (rev (nat_str n) @ CHR ''e'' # rev b)" by simp
  moreover have "takeWhile (\<lambda>c. c \<noteq> CHR ''e'') (rev (nat_str k) @ CHR ''e'' # xs) = rev (nat_str k)" for k xs
    using e [of k] by (subst takeWhile_append2) auto
  ultimately have "nat_str m = nat_str n" by simp
  then show ?thesis using assms nat_str_inj by simp
qed

lemma bucket_key_inj:
  assumes "digest_ok digest" and "bucket_key digest q t e = bucket_key digest q' t' e'"
  shows "t = t' \<and> e = e' \<and> take HASH_PREFIX_LENGTH (digest q) = take HASH_PREFIX_LENGTH (digest q')"
proof -
  have len: "length (take HASH_PREFIX_LENGTH (digest x)) = HASH_PREFIX_LENGTH" for x
    using assms(1) by (simp add: digest_ok_def)
  have eq: "(t @ '':e'' @ nat_str e @ '':'') @ take HASH_PREFIX_LENGTH (digest q)
      = (t' @ '':e'' @ nat_str e' @ '':'') @ take HASH_PREFIX_LENGTH (digest q')"
    using assms(2) by (simp add: bucket_key_def)
  have both: "t @ '':e'' @ nat_str e @ '':'' = t' @ '':e'' @ nat_str e' @ '':''
      \<and> take HASH_PREFIX_LENGTH (digest q) = take HASH_PREFIX_LENGTH (digest q')"
    using append_eq_len [OF eq] by (simp only: len)
  then have "(t @ '':'') @ [CHR ''e''] @ nat_str e = (t' @ '':'') @ [CHR ''e''] @ nat_str e'"
    by simp
  from nat_tail_unique [OF this] both show ?thesis by simp
qed

lemma epoch_not_bucket: "epoch_key t \<noteq> bucket_key digest q t' e"
  by (simp add: epoch_key_def bucket_key_def)

lemma epoch_key_inj: "epoch_key t = epoch_key t' \<longleftrightarrow> t = t'"
  by (simp add: epoch_key_def)

lemma get_epoch_store:
  "cache_store fr digest now r q t a ttl = Inr r' \<Longrightarrow> get_epoch now2 r' t2 = get_epoch now2 r t2"
  by (auto simp: cache_store_def bind_res_eq_Inr get_epoch_def rs.get_put_other epoch_not_bucket)

section \<open>Histories\<close>

datatype 'v cache_op = StoreOp 'v string jdict int | BumpOp string | WaitOp nat

fun apply_op :: "(rat \<Rightarrow> string) \<Rightarrow> ('v \<Rightarrow> string) \<Rightarrow> 'v cache_op \<Rightarrow> int \<times> redis \<Rightarrow> int \<times> redis" where
  "apply_op fr digest (StoreOp q t a ttl) (now, r) =
     (case cache_store fr digest now r q t a ttl of Inl e \<Rightarrow> (now, r) | Inr r' \<Rightarrow> (now, r'))"
| "apply_op fr digest (BumpOp t) (now, r) = (now, snd (bump_epoch now r t))"
| "apply_op fr digest (WaitOp d) (now, r) = (now + int d, r)"

definition cur_epoch :: "redis \<Rightarrow> string \<Rightarrow> nat" where
  "cur_epoch r t = (case dict_get r (epoch_key t) of Some (v, x) \<Rightarrow> the (str_nat v) | None \<Rightarrow> 0)"

text \<open>
  The invariant: epoch keys hold numerals and never expire, and no answer is stored under an epoch
  its tenant has not reached.
\<close>

definition cache_inv :: "('v \<Rightarrow> string) \<Rightarrow> redis \<Rightarrow> bool" where
  "cache_inv digest r \<longleftrightarrow>
     (\<forall>t. dict_get r (epoch_key t) \<noteq> None \<longrightarrow> (\<exists>n. dict_get r (epoch_key t) = Some (nat_str n, None)))
     \<and> (\<forall>t q e. dict_get r (bucket_key digest q t e) \<noteq> None \<longrightarrow> e \<le> cur_epoch r t)"

lemma cache_inv_empty: "cache_inv digest []"
  by (simp add: cache_inv_def)

lemma get_epoch_cur: "cache_inv digest r \<Longrightarrow> get_epoch now r t = Inr (cur_epoch r t)"
  by (cases "dict_get r (epoch_key t)")
    (fastforce simp: cache_inv_def get_epoch_def r_get_def cur_epoch_def)+

lemma bump_cases:
  assumes "cache_inv digest r"
  shows "bump_epoch now r t = (Inr (cur_epoch r t + 1), dict_set (epoch_key t) (nat_str (cur_epoch r t + 1), None) r)"
proof (cases "dict_get r (epoch_key t)")
  case None
  then show ?thesis by (simp add: bump_epoch_def r_incr_def r_get_def r_set_def cur_epoch_def)
next
  case (Some p)
  then obtain n where "dict_get r (epoch_key t) = Some (nat_str n, None)"
    using assms unfolding cache_inv_def by blast
  then show ?thesis by (simp add: bump_epoch_def r_incr_def r_get_def cur_epoch_def)
qed

lemma cur_epoch_set:
  "cur_epoch (dict_set (epoch_key t) (nat_str n, x) r) t' = (if t' = t then n else cur_epoch r t')"
  by (simp add: cur_epoch_def epoch_key_inj)

lemma bump_inv:
  assumes "cache_inv digest r"
  shows "cache_inv digest (snd (bump_epoch now r t))"
proof -
  have "e \<le> cur_epoch (dict_set (epoch_key t) (nat_str (cur_epoch r t + 1), None) r) t'"
    if "dict_get r (bucket_key digest q t' e) \<noteq> None" for q t' e
    using assms that unfolding cache_inv_def cur_epoch_set by fastforce
  then show ?thesis
    using assms unfolding bump_cases [OF assms] cache_inv_def
    by (auto simp: epoch_key_inj epoch_not_bucket [symmetric])
qed

lemma store_inv:
  assumes "digest_ok digest" and inv: "cache_inv digest r" and st: "cache_store fr digest now r q t a ttl = Inr r'"
  shows "cache_inv digest r'"
proof -
  have r': "r' = dict_set (bucket_key digest q t (cur_epoch r t)) (dumps fr (JObj a), Some (now + ttl)) r"
    using st by (simp add: cache_store_def get_epoch_cur [OF inv] r_set_def)
  have cur: "cur_epoch r' t2 = cur_epoch r t2" for t2
    by (simp add: r' cur_epoch_def epoch_not_bucket)
  have "e \<le> cur_epoch r t2" if "dict_get r' (bucket_key digest q2 t2 e) \<noteq> None" for t2 q2 e
  proof (cases "bucket_key digest q2 t2 e = bucket_key digest q t (cur_epoch r t)")
    case True
    then show ?thesis using bucket_key_inj [OF assms(1) True] by simp
  next
    case False
    then show ?thesis using that inv by (simp add: r' cache_inv_def)
  qed
  moreover have "dict_get r' (epoch_key t2) = dict_get r (epoch_key t2)" for t2
    by (simp add: r' epoch_not_bucket)
  ultimately show ?thesis using inv by (simp add: cache_inv_def cur)
qed

lemma history_inv:
  "digest_ok digest \<Longrightarrow> cache_inv digest r \<Longrightarrow> cache_inv digest (snd (fold (apply_op fr digest) ops (now, r)))"
proof (induction ops arbitrary: now r)
  case (Cons op ops)
  obtain now' r' where step: "apply_op fr digest op (now, r) = (now', r')"
    by (cases "apply_op fr digest op (now, r)")
  have "cache_inv digest r'"
    using step Cons.prems store_inv [OF Cons.prems] bump_inv [OF Cons.prems(2)]
    by (cases op) (auto split: sum.splits)
  then show ?case using Cons.IH [OF Cons.prems(1)] step by simp
qed simp

lemma stored_read:
  assumes "json_ok fr fl (JObj a)" and "cache_inv digest r" and "cache_store fr digest now r q t a ttl = Inr r'"
  shows "cache_lookup fl digest now2 r' q t = Inr (if now2 < now + ttl \<and> citations_match t a then Some a else None)"
proof -
  have r': "r' = r_set now (bucket_key digest q t (cur_epoch r t)) (dumps fr (JObj a)) (Some ttl) r"
    using assms(3) by (simp add: cache_store_def get_epoch_cur [OF assms(2)])
  have ep: "get_epoch now2 r' t = Inr (cur_epoch r t)"
    using get_epoch_store [OF assms(3)] get_epoch_cur [OF assms(2)] by simp
  have read: "r_get now2 r' (bucket_key digest q t (cur_epoch r t)) = (if now2 < now + ttl then Some (dumps fr (JObj a)) else None)"
    by (simp add: r' rs.get_put_same)
  show ?thesis using loads_dumps [OF assms(1)] by (simp add: cache_lookup_def ep read del: dumps.simps)
qed

section \<open>Properties\<close>

text \<open>
  C30. What is stored is what is read, by that tenant only and only in time: after a store, a
  lookup for the same vector and tenant before the expiry returns the answer field by field, if
  its citations carry the tenant, and a miss otherwise; after the expiry it is a miss; and a lookup
  for any other tenant, or for a vector with another digest, is what it was before.
\<close>

theorem cache_roundtrip:
  assumes "digest_ok digest" and "json_ok fr fl (JObj a)" and "cache_inv digest r"
    and "cache_store fr digest now r q t a ttl = Inr r'"
  shows "cache_lookup fl digest now2 r' q t = Inr (if now2 < now + ttl \<and> citations_match t a then Some a else None)
    \<and> (t2 \<noteq> t \<or> take HASH_PREFIX_LENGTH (digest q2) \<noteq> take HASH_PREFIX_LENGTH (digest q) \<longrightarrow>
         cache_lookup fl digest now2 r' q2 t2 = cache_lookup fl digest now2 r q2 t2)"
proof
  have r': "r' = r_set now (bucket_key digest q t (cur_epoch r t)) (dumps fr (JObj a)) (Some ttl) r"
    using assms(4) by (simp add: cache_store_def get_epoch_cur [OF assms(3)])
  have ep: "get_epoch now2 r' t3 = Inr (cur_epoch r t3)" for t3
    using get_epoch_store [OF assms(4)] get_epoch_cur [OF assms(3)] by simp
  show "cache_lookup fl digest now2 r' q t = Inr (if now2 < now + ttl \<and> citations_match t a then Some a else None)"
    by (rule stored_read [OF assms(2-4)])
  show "t2 \<noteq> t \<or> take HASH_PREFIX_LENGTH (digest q2) \<noteq> take HASH_PREFIX_LENGTH (digest q) \<longrightarrow>
         cache_lookup fl digest now2 r' q2 t2 = cache_lookup fl digest now2 r q2 t2"
  proof
    assume "t2 \<noteq> t \<or> take HASH_PREFIX_LENGTH (digest q2) \<noteq> take HASH_PREFIX_LENGTH (digest q)"
    then have "bucket_key digest q2 t2 (cur_epoch r t2) \<noteq> bucket_key digest q t (cur_epoch r t)"
      using bucket_key_inj [OF assms(1)] by blast
    then show "cache_lookup fl digest now2 r' q2 t2 = cache_lookup fl digest now2 r q2 t2"
      using rs.get_put_other [of "bucket_key digest q2 t2 (cur_epoch r t2)"]
      unfolding cache_lookup_def ep get_epoch_cur [OF assms(3)] by (simp add: r' del: dumps.simps)
  qed
qed

definition demo_digest :: "nat \<Rightarrow> string" where
  "demo_digest n = replicate 16 (if n = 0 then CHR ''a'' else CHR ''b'')"

definition demo_answer :: jdict where
  "demo_answer = [(''text'', JStr ''x''), (''citations'', JList [JObj [(''tenant_id'', JStr ''t'')]])]"

theorem cache_roundtrip_witness:
  "\<exists>r'. cache_store (\<lambda>r. ''0'') demo_digest 0 [] 0 ''t'' demo_answer 3600 = Inr r'
     \<and> cache_lookup (\<lambda>r. r) demo_digest 10 r' 0 ''t'' = Inr (Some demo_answer)
     \<and> cache_lookup (\<lambda>r. r) demo_digest 10 r' 0 ''u'' = cache_lookup (\<lambda>r. r) demo_digest 10 [] 0 ''u''"
proof -
  have d: "digest_ok demo_digest" by (simp add: digest_ok_def demo_digest_def HASH_PREFIX_LENGTH_def)
  have j: "json_ok (\<lambda>r. ''0'') (\<lambda>r. r) (JObj demo_answer)" by (simp add: demo_answer_def dict_ok_def)
  obtain r' where st: "cache_store (\<lambda>r. ''0'') demo_digest 0 [] 0 ''t'' demo_answer 3600 = Inr r'"
    by (simp add: cache_store_def get_epoch_cur [OF cache_inv_empty [of demo_digest]])
  have m: "citations_match ''t'' demo_answer" by (simp add: citations_match_def demo_answer_def get_or_def)
  show ?thesis
    using cache_roundtrip [OF d j cache_inv_empty st, of 10] st m by auto
qed

text \<open>
  C31. One increment invalidates a tenant's whole cache and nobody else's: whatever was stored and
  bumped before, right after a bump every lookup of that tenant, for any vector and at any later
  time, is a miss, the epoch has grown by one, and every other tenant's lookups are unchanged.
\<close>

theorem bump_invalidates:
  assumes "digest_ok digest" and "(now, r) = fold (apply_op fr digest) ops (0, [])"
  shows "fst (bump_epoch now r t) = Inr (cur_epoch r t + 1)
    \<and> cache_lookup fl digest later (snd (bump_epoch now r t)) q t = Inr None
    \<and> (t2 \<noteq> t \<longrightarrow> cache_lookup fl digest later (snd (bump_epoch now r t)) q t2 = cache_lookup fl digest later r q t2)"
proof -
  have inv: "cache_inv digest r"
    using history_inv [OF assms(1) cache_inv_empty, of fr ops 0] assms(2) by (metis snd_conv)
  note b = bump_cases [OF inv, of now t]
  let ?r = "snd (bump_epoch now r t)"
  have ep: "get_epoch later ?r t3 = Inr (if t3 = t then cur_epoch r t + 1 else cur_epoch r t3)" for t3
    using get_epoch_cur [OF bump_inv [OF inv], of later now t t3] unfolding b snd_conv cur_epoch_set by simp
  have none: "dict_get r (bucket_key digest q t (cur_epoch r t + 1)) = None"
    using inv unfolding cache_inv_def by (metis Suc_eq_plus1 Suc_n_not_le_n option.exhaust)
  have same: "r_get later ?r (bucket_key digest q t3 e) = r_get later r (bucket_key digest q t3 e)" for t3 e
    by (simp add: b r_get_def epoch_not_bucket [symmetric])
  have miss: "cache_lookup fl digest later ?r q t = Inr None"
    using none by (simp add: cache_lookup_def ep same) (simp add: r_get_def)
  have "cache_lookup fl digest later ?r q t2 = cache_lookup fl digest later r q t2" if "t2 \<noteq> t"
    using that by (simp add: cache_lookup_def ep same get_epoch_cur [OF inv])
  then show ?thesis using miss b by simp
qed

theorem bump_invalidates_witness:
  "let (now, r) = fold (apply_op (\<lambda>r. ''0'') demo_digest) [BumpOp ''t'', StoreOp 0 ''t'' demo_answer 3600, WaitOp 5] (0, [])
   in cache_lookup (\<lambda>r. r) demo_digest now (snd (bump_epoch now r ''t'')) 0 ''t'' = Inr None"
proof -
  have d: "digest_ok demo_digest" by (simp add: digest_ok_def demo_digest_def HASH_PREFIX_LENGTH_def)
  obtain now r where f: "(now, r) = fold (apply_op (\<lambda>r. ''0'') demo_digest) [BumpOp ''t'', StoreOp 0 ''t'' demo_answer 3600, WaitOp 5] (0, [])"
    by (metis surj_pair)
  then show ?thesis using bump_invalidates [OF d f] by (auto simp flip: f)
qed

end
