(* ===== verification/CorpusStore.thy ===== *)
theory CorpusStore
  imports Chunker
begin

text \<open>
  \<open>taxcalc_ai/corpus.py\<close>, \<open>embedder.py\<close> and \<open>pgvector_loader.py\<close>: how chunks become rows. The
  table is a list of rows with at most one row per \<open>(doc_id, chunk_idx, model_version)\<close>, the
  uniqueness constraint of the schema; the statement the loader sends is written out as \<open>upsert\<close>,
  and a transaction that raises leaves the table as it was. Arguments: \<open>sha\<close>, the hash of a text,
  and \<open>encode\<close>, the embedding of a text. The locale states what a batch writer promises about a
  keyed store; it is interpreted on the loader's statement.
\<close>

section \<open>Rows\<close>

(* src/taxcalc-ai/src/taxcalc_ai/corpus.py:103-144 CorpusRow *)
record corpus_row =
  row_doc :: string
  row_idx :: int
  row_text :: string
  row_vec :: "rat list"
  row_model :: string
  row_tenant :: string
  row_meta :: jdict
  row_hash :: "string option"

type_synonym row_key = "string \<times> int \<times> string"

(* src/taxcalc-ai/src/taxcalc_ai/pgvector_loader.py:64-101 conflict target of _INSERT_SQL *)
definition key_of :: "corpus_row \<Rightarrow> row_key" where
  "key_of r = (row_doc r, row_idx r, row_model r)"

definition table_ok :: "corpus_row list \<Rightarrow> bool" where
  "table_ok t \<longleftrightarrow> distinct (map key_of t)"

definition find_row :: "corpus_row list \<Rightarrow> row_key \<Rightarrow> corpus_row option" where
  "find_row t k = find (\<lambda>r. key_of r = k) t"

text \<open>\<open>DO UPDATE\<close>: text, vector, metadata and hash are replaced, under the incumbent's key and tenant.\<close>

definition refresh :: "corpus_row \<Rightarrow> corpus_row \<Rightarrow> corpus_row" where
  "refresh new old = old\<lparr>row_text := row_text new, row_vec := row_vec new, row_meta := row_meta new,
     row_hash := row_hash new\<rparr>"

text \<open>The statement for one row: the table afterwards and the number of rows affected.\<close>

(* src/taxcalc-ai/src/taxcalc_ai/pgvector_loader.py:70-108 _INSERT_SQL *)
definition upsert :: "corpus_row \<Rightarrow> corpus_row list \<Rightarrow> corpus_row list \<times> nat" where
  "upsert r t =
     (case find_row t (key_of r) of
        None \<Rightarrow> (t @ [r], 1)
      | Some old \<Rightarrow>
          (if row_tenant old = row_tenant r
           then (map (\<lambda>x. if key_of x = key_of r then refresh r x else x) t, 1)
           else (t, 0)))"

fun execute_many :: "corpus_row list \<Rightarrow> corpus_row list \<Rightarrow> corpus_row list \<times> nat" where
  "execute_many [] t = (t, 0)"
| "execute_many (r # rs) t =
     (let (t1, n) = upsert r t; (t2, m) = execute_many rs t1 in (t2, n + m))"

(* src/taxcalc-ai/src/taxcalc_ai/pgvector_loader.py:111-180 load_rows *)
definition load_rows :: "corpus_row list \<Rightarrow> corpus_row list \<Rightarrow> nat res \<times> corpus_row list" where
  "load_rows rs t =
     (if rs = [] then (Inr 0, t)
      else let (t', affected) = execute_many rs t in
        if affected \<noteq> length rs then (Inl (OtherError ''CrossTenantDocIdError'' []), t)
        else (Inr (length rs), t'))"

section \<open>Loading a corpus file\<close>

(* src/taxcalc-ai/src/taxcalc_ai/corpus.py:66-68 MIN_CHUNK_CHARS *)
definition MIN_CHUNK_CHARS :: nat where "MIN_CHUNK_CHARS = 1"

(* src/taxcalc-ai/src/taxcalc_ai/corpus.py:69-69 MAX_CHUNK_CHARS *)
definition MAX_CHUNK_CHARS :: nat where "MAX_CHUNK_CHARS = 8000"

(* src/taxcalc-ai/src/taxcalc_ai/corpus.py:71-74 REQUIRED_COLUMNS *)
definition REQUIRED_COLUMNS :: "string list" where
  "REQUIRED_COLUMNS = [''doc_id'', ''chunk_idx'', ''chunk_text'', ''tenant_id'']"

record frame_row =
  f_doc :: string
  f_idx :: int
  f_text :: string
  f_tenant :: string

fun keep_first :: "(string \<times> int) list \<Rightarrow> frame_row list \<Rightarrow> frame_row list" where
  "keep_first seen [] = []"
| "keep_first seen (r # rs) =
     (if (f_doc r, f_idx r) \<in> set seen then keep_first seen rs
      else r # keep_first ((f_doc r, f_idx r) # seen) rs)"

text \<open>A file is its suffix, its columns and its rows.\<close>

(* src/taxcalc-ai/src/taxcalc_ai/corpus.py:147-199 load_corpus *)
definition load_corpus :: "string \<Rightarrow> string list \<Rightarrow> frame_row list \<Rightarrow> frame_row list res" where
  "load_corpus ext columns rows =
     (if ext \<notin> {''.parquet'', ''.jsonl'', ''.json''} then Inl (ValueError ''unsupported corpus extension'')
      else if \<not> list_all (\<lambda>c. c \<in> set columns) REQUIRED_COLUMNS then Inl (ValueError ''corpus missing columns'')
      else Inr (filter (\<lambda>r. MIN_CHUNK_CHARS \<le> length (f_text r) \<and> length (f_text r) \<le> MAX_CHUNK_CHARS)
                  (keep_first [] rows)))"

(* src/taxcalc-ai/src/taxcalc_ai/corpus.py:202-248 embed_dataframe *)
definition embed_dataframe ::
  "(string \<Rightarrow> string) \<Rightarrow> (string \<Rightarrow> rat list) \<Rightarrow> string \<Rightarrow> frame_row list \<Rightarrow> corpus_row list" where
  "embed_dataframe sha encode model_name rows =
     map (\<lambda>r. \<lparr>row_doc = f_doc r, row_idx = f_idx r, row_text = f_text r, row_vec = encode (f_text r),
        row_model = model_name, row_tenant = f_tenant r, row_meta = [], row_hash = Some (sha (f_text r))\<rparr>) rows"

section \<open>The re-embed gate\<close>

(* src/taxcalc-ai/src/taxcalc_ai/embedder.py:65-90 ChunkCandidate *)
record candidate =
  c_doc :: string
  c_idx :: int
  c_text :: string
  c_tenant :: string
  c_meta :: jdict

(* src/taxcalc-ai/src/taxcalc_ai/embedder.py:48-51 DEFAULT_TENANT_ID *)
definition DEFAULT_TENANT_ID :: string where "DEFAULT_TENANT_ID = ''shared''"

(* src/taxcalc-ai/src/taxcalc_ai/embedder.py:93-116 candidates_from_chunks *)
definition candidates_from_chunks ::
  "(json \<Rightarrow> string) \<Rightarrow> (string \<Rightarrow> int option) \<Rightarrow> source_doc list \<Rightarrow> candidate list res" where
  "candidates_from_chunks rp ps chunks =
     map_res (\<lambda>c. bind_res (py_int ps (get_or (doc_meta c) ''chunk_ordinal'' (JInt 0))) (\<lambda>i.
        Inr \<lparr>c_doc = py_str rp (get_or (doc_meta c) ''doc_id'' (JStr UNKNOWN_DOC_ID)), c_idx = i,
          c_text = page_content c,
          c_tenant = py_str rp (get_or (doc_meta c) ''tenant_id'' (JStr DEFAULT_TENANT_ID)),
          c_meta = doc_meta c\<rparr>)) chunks"

text \<open>
  The gate's query and the dictionary built from it: for a key, the hash of the stored row at this
  model version (a missing row and a row without a hash both read as \<open>None\<close>).
\<close>

(* src/taxcalc-ai/src/taxcalc_ai/embedder.py:56-62 _STORED_HASHES_SQL *)
definition stored_hash :: "corpus_row list \<Rightarrow> string \<Rightarrow> string \<Rightarrow> int \<Rightarrow> string option" where
  "stored_hash t model d i = Option.bind (find_row t (d, i, model)) row_hash"

(* src/taxcalc-ai/src/taxcalc_ai/embedder.py:119-161 pending_candidates *)
definition pending_candidates ::
  "(string \<Rightarrow> string) \<Rightarrow> corpus_row list \<Rightarrow> candidate list \<Rightarrow> string \<Rightarrow> candidate list" where
  "pending_candidates sha t cs model =
     filter (\<lambda>c. stored_hash t model (c_doc c) (c_idx c) \<noteq> Some (sha (c_text c))) cs"

definition candidate_row ::
  "(string \<Rightarrow> string) \<Rightarrow> (string \<Rightarrow> rat list) \<Rightarrow> string \<Rightarrow> candidate \<Rightarrow> corpus_row" where
  "candidate_row sha encode model c =
     \<lparr>row_doc = c_doc c, row_idx = c_idx c, row_text = c_text c, row_vec = encode (c_text c),
      row_model = model, row_tenant = c_tenant c, row_meta = c_meta c, row_hash = Some (sha (c_text c))\<rparr>"

(* src/taxcalc-ai/src/taxcalc_ai/embedder.py:164-217 embed_pending *)
definition embed_pending ::
  "(string \<Rightarrow> string) \<Rightarrow> (string \<Rightarrow> rat list) \<Rightarrow> corpus_row list \<Rightarrow> candidate list \<Rightarrow> string
     \<Rightarrow> nat res \<times> corpus_row list" where
  "embed_pending sha encode t cs model =
     (let pending = pending_candidates sha t cs model in
      if pending = [] then (Inr 0, t)
      else load_rows (map (candidate_row sha encode model) pending) t)"

section \<open>What a batch writer promises\<close>

text \<open>
  A store seen through a lookup by key, and one write at a time that may be refused: a write that
  is accepted makes the key hold what was written, a refused one changes nothing, and neither
  touches another key or changes the owner of a key.
\<close>

locale owned_store =
  fixes look :: "'s \<Rightarrow> 'k \<Rightarrow> 'v option"
    and keyf :: "'v \<Rightarrow> 'k"
    and own :: "'v \<Rightarrow> 'o"
    and same :: "'v \<Rightarrow> 'v \<Rightarrow> bool"
    and put :: "'v \<Rightarrow> 's \<Rightarrow> 's \<times> nat"
    and ok :: "'s \<Rightarrow> bool"
  assumes write_ok: "ok s \<Longrightarrow> ok (fst (put v s))"
    and write_count: "snd (put v s) \<le> 1"
    and write_other: "ok s \<Longrightarrow> k \<noteq> keyf v \<Longrightarrow> look (fst (put v s)) k = look s k"
    and write_owner: "ok s \<Longrightarrow> look s k = Some w \<Longrightarrow> \<exists>w'. look (fst (put v s)) k = Some w' \<and> own w' = own w"
    and write_accepts: "ok s \<Longrightarrow> snd (put v s) = 1 \<Longrightarrow> \<exists>w. look (fst (put v s)) (keyf v) = Some w \<and> same w v \<and> own w = own v"
    and write_refuses: "ok s \<Longrightarrow> snd (put v s) = 0 \<Longrightarrow> fst (put v s) = s \<and> (\<exists>w. look s (keyf v) = Some w \<and> own w \<noteq> own v)"
    and write_same: "ok s \<Longrightarrow> look s (keyf v) = Some w \<Longrightarrow> own w = own v \<Longrightarrow> snd (put v s) = 1"
begin

fun write_all :: "'v list \<Rightarrow> 's \<Rightarrow> 's \<times> nat" where
  "write_all [] s = (s, 0)"
| "write_all (v # vs) s = (let (s1, n) = put v s; (s2, m) = write_all vs s1 in (s2, n + m))"

lemma write_all_ok: "ok s \<Longrightarrow> ok (fst (write_all vs s))"
proof (induction vs arbitrary: s)
  case (Cons v vs)
  then show ?case using write_ok [OF Cons.prems, of v] by (simp add: case_prod_beta Let_def)
qed simp

lemma write_all_count: "snd (write_all vs s) \<le> length vs"
proof (induction vs arbitrary: s)
  case (Cons v vs)
  show ?case using Cons.IH [of "fst (put v s)"] write_count [of v s] by (simp add: case_prod_beta Let_def)
qed simp

lemma write_all_other:
  "ok s \<Longrightarrow> k \<notin> keyf ` set vs \<Longrightarrow> look (fst (write_all vs s)) k = look s k"
proof (induction vs arbitrary: s)
  case (Cons v vs)
  then show ?case
    using write_ok [OF Cons.prems(1), of v] write_other [OF Cons.prems(1), of k v]
    by (simp add: case_prod_beta Let_def)
qed simp

lemma write_all_owner:
  "ok s \<Longrightarrow> look s k = Some w \<Longrightarrow> \<exists>w'. look (fst (write_all vs s)) k = Some w' \<and> own w' = own w"
proof (induction vs arbitrary: s w)
  case (Cons v vs)
  obtain w1 where "look (fst (put v s)) k = Some w1" "own w1 = own w"
    using write_owner [OF Cons.prems] by blast
  then show ?case
    using Cons.IH [OF write_ok [OF Cons.prems(1)], of v] by (force simp: case_prod_beta Let_def)
qed auto

text \<open>When every write was accepted, each key holds what was written to it.\<close>

lemma write_all_accepted:
  "ok s \<Longrightarrow> snd (write_all vs s) = length vs \<Longrightarrow> v \<in> set vs \<Longrightarrow> distinct (map keyf vs) \<Longrightarrow>
     \<exists>w. look (fst (write_all vs s)) (keyf v) = Some w \<and> same w v \<and> own w = own v"
proof (induction vs arbitrary: s)
  case (Cons u vs)
  let ?s1 = "fst (put u s)"
  have ok1: "ok ?s1" using write_ok [OF Cons.prems(1)] .
  have n: "snd (put u s) = 1" and m: "snd (write_all vs ?s1) = length vs"
    using Cons.prems(2) write_count [of u s] write_all_count [of vs ?s1] by (auto simp: case_prod_beta Let_def)
  have fin: "fst (write_all (u # vs) s) = fst (write_all vs ?s1)" by (simp add: case_prod_beta Let_def)
  show ?case
  proof (cases "v = u")
    case True
    then have "keyf v \<notin> keyf ` set vs" using Cons.prems(4) by auto
    then show ?thesis
      using write_all_other [OF ok1] write_accepts [OF Cons.prems(1) n] True fin by simp
  next
    case False
    then show ?thesis using Cons.IH [OF ok1 m] Cons.prems(3,4) fin by auto
  qed
qed simp

lemma write_all_refused:
  "ok s \<Longrightarrow> v \<in> set vs \<Longrightarrow> look s (keyf v) = Some w \<Longrightarrow> own w \<noteq> own v \<Longrightarrow> snd (write_all vs s) < length vs"
proof (induction vs arbitrary: s w)
  case (Cons u vs)
  let ?s1 = "fst (put u s)"
  have ok1: "ok ?s1" using write_ok [OF Cons.prems(1)] .
  show ?case
  proof (cases "v = u")
    case True
    have "snd (put u s) \<noteq> 1"
    proof
      assume "snd (put u s) = 1"
      then obtain x where "look ?s1 (keyf u) = Some x" "own x = own u"
        using write_accepts [OF Cons.prems(1)] by blast
      then show False
        using write_owner [OF Cons.prems(1,3), of u] Cons.prems(4) True by auto
    qed
    then have "snd (put u s) = 0" using write_count [of u s] by linarith
    then show ?thesis using write_all_count [of vs ?s1] by (simp add: case_prod_beta Let_def)
  next
    case False
    obtain x where "look ?s1 (keyf v) = Some x" "own x = own w"
      using write_owner [OF Cons.prems(1,3)] by blast
    then have "snd (write_all vs ?s1) < length vs"
      using Cons.IH [OF ok1] Cons.prems(2,4) False by simp
    then show ?thesis using write_count [of u s] by (simp add: case_prod_beta Let_def)
  qed
qed simp

end

section \<open>The loader's statement is such a writer\<close>

lemma find_row_key: "find_row t k = Some r \<Longrightarrow> key_of r = k \<and> r \<in> set t"
  by (auto simp: find_row_def find_Some_iff)

lemma find_row_append:
  "find_row (t @ [r]) k = (case find_row t k of Some x \<Rightarrow> Some x | None \<Rightarrow> if key_of r = k then Some r else None)"
  by (induction t) (auto simp: find_row_def)

lemma key_refresh [simp]: "key_of (refresh r x) = key_of x"
  by (simp add: key_of_def refresh_def)

lemma find_row_refresh:
  "find_row (map (\<lambda>x. if key_of x = key_of r then refresh r x else x) t) k =
     map_option (\<lambda>x. if k = key_of r then refresh r x else x) (find_row t k)"
  by (induction t) (auto simp: find_row_def)

lemma find_row_None: "find_row t k = None \<longleftrightarrow> k \<notin> key_of ` set t"
  by (auto simp: find_row_def find_None_iff)

lemma refresh_same: "key_of old = key_of r \<Longrightarrow> row_tenant old = row_tenant r \<Longrightarrow> refresh r old = r"
  by (cases r; cases old) (simp add: refresh_def key_of_def)

lemma map_key_refresh: "map key_of (map (\<lambda>x. if key_of x = key_of r then refresh r x else x) t) = map key_of t"
  by simp

lemma upsert_table_ok: "table_ok t \<Longrightarrow> table_ok (fst (upsert r t))"
  using map_key_refresh [of r t]
  by (auto simp: upsert_def table_ok_def find_row_None simp del: map_map split: option.split)

lemma row_tenant_refresh [simp]: "row_tenant (refresh r x) = row_tenant x"
  by (simp add: refresh_def)

interpretation pg: owned_store find_row key_of row_tenant "(=)" upsert table_ok
proof (unfold_locales, goal_cases)
  case (1 s v)
  then show ?case by (rule upsert_table_ok)
next
  case (2 v s)
  show ?case by (simp add: upsert_def split: option.split)
next
  case (3 s k v)
  then show ?case
    by (auto simp: upsert_def find_row_append find_row_refresh map_option.id [unfolded id_def] split: option.splits)
next
  case (4 s k w v)
  then show ?case
    by (auto simp: upsert_def find_row_append find_row_refresh split: option.splits)
next
  case (5 s v)
  then show ?case
    by (auto simp: upsert_def find_row_append find_row_refresh refresh_same dest: find_row_key split: option.splits if_splits)
next
  case (6 s v)
  then show ?case by (auto simp: upsert_def split: option.splits if_splits)
next
  case (7 s v w)
  then show ?case by (simp add: upsert_def)
qed

lemma execute_many_write_all: "execute_many rs t = pg.write_all rs t"
  by (induction rs arbitrary: t) simp_all

lemma load_rows_cases:
  assumes "load_rows rs t = (res, t')"
  shows "(res = Inr (length rs) \<and> t' = fst (execute_many rs t) \<and> snd (execute_many rs t) = length rs)
    \<or> (res = Inl (OtherError ''CrossTenantDocIdError'' []) \<and> t' = t \<and> snd (execute_many rs t) \<noteq> length rs)"
  using assms by (auto simp: load_rows_def case_prod_beta Let_def split: if_splits)

section \<open>The gate\<close>

lemma stored_hash_other: "find_row t (d, i, m) = find_row t' (d, i, m) \<Longrightarrow> stored_hash t m d i = stored_hash t' m d i"
  by (simp add: stored_hash_def)

lemma key_candidate_row [simp]: "key_of (candidate_row sha encode m c) = (c_doc c, c_idx c, m)"
  by (simp add: candidate_row_def key_of_def)

lemma tenant_candidate_row [simp]: "row_tenant (candidate_row sha encode m c) = c_tenant c"
  by (simp add: candidate_row_def)

lemma hash_candidate_row [simp]: "row_hash (candidate_row sha encode m c) = Some (sha (c_text c))"
  by (simp add: candidate_row_def)

lemma pending_map_distinct:
  "distinct (map (\<lambda>c. (c_doc c, c_idx c)) cs) \<Longrightarrow>
     distinct (map key_of (map (candidate_row sha encode m) (pending_candidates sha t cs m)))"
  unfolding pending_candidates_def by (induction cs) auto

section \<open>Corpus files\<close>

lemma keep_first_sub: "set (keep_first seen rs) \<subseteq> set rs"
  by (induction seen rs rule: keep_first.induct) auto

lemma keep_first_distinct:
  "distinct (map (\<lambda>r. (f_doc r, f_idx r)) (keep_first seen rs))
   \<and> (\<forall>r \<in> set (keep_first seen rs). (f_doc r, f_idx r) \<notin> set seen)"
proof (induction rs arbitrary: seen)
  case (Cons x xs)
  show ?case
  proof (cases "(f_doc x, f_idx x) \<in> set seen")
    case True
    then show ?thesis using Cons.IH [of seen] by simp
  next
    case False
    have "(f_doc x, f_idx x) \<notin> (\<lambda>r. (f_doc r, f_idx r)) ` set (keep_first ((f_doc x, f_idx x) # seen) xs)"
      using Cons.IH [of "(f_doc x, f_idx x) # seen"] by (metis (no_types, lifting) imageE list.set_intros(1))
    then show ?thesis using False Cons.IH [of "(f_doc x, f_idx x) # seen"] by simp
  qed
qed simp

lemma keep_first_first:
  "(f_doc r, f_idx r) \<notin> set seen \<Longrightarrow> r \<in> set rs \<Longrightarrow>
     \<exists>q \<in> set (keep_first seen rs). f_doc q = f_doc r \<and> f_idx q = f_idx r
       \<and> find (\<lambda>x. f_doc x = f_doc r \<and> f_idx x = f_idx r) rs = Some q"
proof (induction seen rs rule: keep_first.induct)
  case (2 seen x xs)
  show ?case
  proof (cases "f_doc x = f_doc r \<and> f_idx x = f_idx r")
    case True
    then show ?thesis using 2(3) by auto
  next
    case False
    then have r: "r \<in> set xs" using 2(4) by auto
    show ?thesis
    proof (cases "(f_doc x, f_idx x) \<in> set seen")
      case True
      then show ?thesis using 2(1) [OF True 2(3) r] False by auto
    next
      case new: False
      have "(f_doc r, f_idx r) \<notin> set ((f_doc x, f_idx x) # seen)" using 2(3) False by auto
      then show ?thesis using 2(2) [OF new _ r] new False by auto
    qed
  qed
qed simp

lemma distinct_map_filter_key: "distinct (map f xs) \<Longrightarrow> distinct (map f (filter p xs))"
  by (induction xs) auto

section \<open>Properties\<close>

text \<open>
  C10. A load never crosses tenants: whatever the batch, no stored row changes its tenant, and a
  batch that holds a row whose key another tenant owns raises and leaves the table exactly as it
  was; when the load succeeds every row of the batch (with distinct keys) is stored as sent and
  every other key is untouched.
\<close>

theorem load_rows_tenant_safe:
  assumes "table_ok t" and "load_rows rs t = (res, t')"
  shows "table_ok t'
    \<and> (\<forall>k r. find_row t k = Some r \<longrightarrow> (\<exists>r'. find_row t' k = Some r' \<and> row_tenant r' = row_tenant r))
    \<and> ((\<exists>r \<in> set rs. \<exists>old. find_row t (key_of r) = Some old \<and> row_tenant old \<noteq> row_tenant r) \<longrightarrow> (\<exists>e. res = Inl e))
    \<and> (\<forall>e. res = Inl e \<longrightarrow> t' = t)
    \<and> (\<forall>n. res = Inr n \<longrightarrow> n = length rs \<and> (\<forall>k. k \<notin> key_of ` set rs \<longrightarrow> find_row t' k = find_row t k)
         \<and> (distinct (map key_of rs) \<longrightarrow> (\<forall>r \<in> set rs. find_row t' (key_of r) = Some r)))"
proof -
  note em = execute_many_write_all
  have ok: "table_ok t'"
    using load_rows_cases [OF assms(2)] assms(1) pg.write_all_ok [OF assms(1), of rs] by (auto simp: em)
  have own: "\<exists>r'. find_row t' k = Some r' \<and> row_tenant r' = row_tenant r" if "find_row t k = Some r" for k r
    using load_rows_cases [OF assms(2)] pg.write_all_owner [OF assms(1) that, of rs] that by (auto simp: em)
  have refused: "\<exists>e. res = Inl e"
    if "r \<in> set rs" "find_row t (key_of r) = Some old" "row_tenant old \<noteq> row_tenant r" for r old
    using load_rows_cases [OF assms(2)] pg.write_all_refused [OF assms(1) that] by (auto simp: em)
  have acc: "find_row t' (key_of r) = Some r"
    if "res = Inr n" "distinct (map key_of rs)" "r \<in> set rs" for n r
    using load_rows_cases [OF assms(2)] pg.write_all_accepted [OF assms(1) _ that(3,2)] that(1) by (auto simp: em)
  have other: "find_row t' k = find_row t k" if "res = Inr n" "k \<notin> key_of ` set rs" for n k
    using load_rows_cases [OF assms(2)] pg.write_all_other [OF assms(1) that(2)] that(1) by (auto simp: em)
  show ?thesis
    using ok own refused acc other load_rows_cases [OF assms(2)] by auto
qed

definition row_a :: corpus_row where
  "row_a = \<lparr>row_doc = ''d'', row_idx = 0, row_text = ''x'', row_vec = [1], row_model = ''m'', row_tenant = ''a'',
     row_meta = [], row_hash = Some ''h''\<rparr>"

theorem load_rows_tenant_safe_witness:
  "load_rows [row_a\<lparr>row_doc := ''e''\<rparr>, row_a\<lparr>row_tenant := ''b''\<rparr>] [row_a] = (Inl (OtherError ''CrossTenantDocIdError'' []), [row_a])
   \<and> find_row (snd (load_rows [row_a\<lparr>row_text := ''y''\<rparr>] [row_a])) (key_of row_a) = Some (row_a\<lparr>row_text := ''y''\<rparr>)"
proof -
  have ok: "table_ok [row_a]" by (simp add: table_ok_def)
  have k: "key_of (row_a\<lparr>row_text := ''y''\<rparr>) = key_of row_a" "key_of (row_a\<lparr>row_tenant := ''b''\<rparr>) = key_of row_a"
    by (simp_all add: key_of_def)
  have f: "find_row [row_a] (key_of row_a) = Some row_a" by (simp add: find_row_def)
  obtain r t where a: "load_rows [row_a\<lparr>row_doc := ''e''\<rparr>, row_a\<lparr>row_tenant := ''b''\<rparr>] [row_a] = (r, t)"
    by (rule prod.exhaust)
  have "(\<exists>e. r = Inl e) \<and> t = [row_a]"
  proof -
    have "\<exists>e. r = Inl e"
      using load_rows_tenant_safe [OF ok a] k(2) f
      by (intro load_rows_tenant_safe [OF ok a, THEN conjunct2, THEN conjunct2, THEN conjunct1, THEN mp]
          bexI [of _ "row_a\<lparr>row_tenant := ''b''\<rparr>"] exI [of _ row_a]) (simp_all, simp add: row_a_def)
    then show ?thesis using load_rows_tenant_safe [OF ok a] by blast
  qed
  moreover obtain r2 t2 where b: "load_rows [row_a\<lparr>row_text := ''y''\<rparr>] [row_a] = (r2, t2)" by (rule prod.exhaust)
  have "upsert (row_a\<lparr>row_text := ''y''\<rparr>) [row_a] = ([row_a\<lparr>row_text := ''y''\<rparr>], 1)"
    using f k by (simp add: upsert_def) (simp add: row_a_def refresh_def)
  then have "r2 = Inr 1" using b by (simp add: load_rows_def)
  then have "find_row t2 (key_of row_a) = Some (row_a\<lparr>row_text := ''y''\<rparr>)"
    using load_rows_tenant_safe [OF ok b] k by auto
  ultimately show ?thesis using a b load_rows_cases [OF a] by auto
qed

lemma reembed_nothing:
  assumes "table_ok t" and "distinct (map (\<lambda>c. (c_doc c, c_idx c)) cs)"
    and "embed_pending sha encode t cs m = (Inr n, t')"
  shows "n = length (pending_candidates sha t cs m)
    \<and> pending_candidates sha t' cs m = [] \<and> embed_pending sha encode2 t' cs m = (Inr 0, t')"
proof -
  let ?p = "pending_candidates sha t cs m"
  have "n = length ?p \<and> pending_candidates sha t' cs m = []"
  proof (cases "?p = []")
    case True
    then show ?thesis using assms(3) by (simp add: embed_pending_def)
  next
    case False
    let ?rows = "map (candidate_row sha encode m) ?p"
    have load: "load_rows ?rows t = (Inr n, t')" using assms(3) False by (simp add: embed_pending_def)
    have em: "n = length ?p" "t' = fst (pg.write_all ?rows t)" "snd (pg.write_all ?rows t) = length ?rows"
      using load_rows_cases [OF load] by (auto simp: execute_many_write_all)
    have "stored_hash t' m (c_doc c) (c_idx c) = Some (sha (c_text c))" if c: "c \<in> set cs" for c
    proof (cases "c \<in> set ?p")
      case True
      then have "find_row t' (c_doc c, c_idx c, m) = Some (candidate_row sha encode m c)"
        using pg.write_all_accepted [OF assms(1) em(3) _ pending_map_distinct [OF assms(2)],
            of "candidate_row sha encode m c"] em(2) by auto
      then show ?thesis by (simp add: stored_hash_def)
    next
      case False
      have cur: "stored_hash t m (c_doc c) (c_idx c) = Some (sha (c_text c))"
        using False c by (simp add: pending_candidates_def)
      have "(c_doc c, c_idx c) \<notin> (\<lambda>c. (c_doc c, c_idx c)) ` set ?p"
      proof
        assume "(c_doc c, c_idx c) \<in> (\<lambda>c. (c_doc c, c_idx c)) ` set ?p"
        then obtain c' where c': "c' \<in> set ?p" "c_doc c' = c_doc c" "c_idx c' = c_idx c" by auto
        then have "c' \<in> set cs" by (simp add: pending_candidates_def)
        then have "c' = c" using assms(2) c c'(2,3) by (auto simp: distinct_map inj_on_def)
        then show False using c'(1) False by simp
      qed
      then have "find_row t' (c_doc c, c_idx c, m) = find_row t (c_doc c, c_idx c, m)"
        unfolding em(2) by (intro pg.write_all_other [OF assms(1)]) (auto simp: image_iff)
      then show ?thesis using cur by (simp add: stored_hash_def)
    qed
    then show ?thesis using em(1) by (simp add: pending_candidates_def filter_empty_conv)
  qed
  then show ?thesis by (simp add: embed_pending_def)
qed

text \<open>
  A re-run of an ingest costs nothing and changes nothing: after a successful \<open>embed_pending\<close>
  of candidates with distinct positions, the same candidates are all current, so a second run
  embeds no text, writes no row and leaves the table as it is.
\<close>

theorem reingest_is_noop:
  assumes "table_ok t" and "distinct (map (\<lambda>c. (c_doc c, c_idx c)) cs)"
    and "embed_pending sha encode t cs m = (Inr n, t')"
  shows "n = length (pending_candidates sha t cs m)
    \<and> pending_candidates sha t' cs m = [] \<and> embed_pending sha encode2 t' cs m = (Inr 0, t')"
  by (rule reembed_nothing [OF assms])

definition cand_a :: candidate where
  "cand_a = \<lparr>c_doc = ''d'', c_idx = 0, c_text = ''x'', c_tenant = ''a'', c_meta = []\<rparr>"

theorem reingest_is_noop_witness:
  "\<exists>t'. embed_pending (\<lambda>s. s) (\<lambda>s. [1]) [] [cand_a] ''m'' = (Inr 1, t')
     \<and> embed_pending (\<lambda>s. s) (\<lambda>s. [1]) t' [cand_a] ''m'' = (Inr 0, t')"
proof -
  have ok: "table_ok []" "distinct (map (\<lambda>c. (c_doc c, c_idx c)) [cand_a])" by (simp_all add: table_ok_def)
  have run: "embed_pending (\<lambda>s. s) (\<lambda>s. [1]) [] [cand_a] ''m'' = (Inr 1, [candidate_row (\<lambda>s. s) (\<lambda>s. [1]) ''m'' cand_a])"
    by (simp add: embed_pending_def pending_candidates_def stored_hash_def find_row_def load_rows_def upsert_def)
  show ?thesis using run reingest_is_noop [OF ok run] by blast
qed

text \<open>
  The gate does not see the tenant: a chunk another tenant offers at a position, with a text,
  that is already stored counts as current. The run reports success with nothing written, instead
  of the \<open>CrossTenantDocIdError\<close> the loader raises for the same rows, and the second tenant has no
  row at that position.
\<close>

theorem gate_ignores_tenant:
  assumes "find_row t (c_doc c, c_idx c, m) = Some r" and "row_hash r = Some (sha (c_text c))"
    and "row_tenant r \<noteq> c_tenant c"
  shows "embed_pending sha encode t [c] m = (Inr 0, t)
    \<and> load_rows [candidate_row sha encode m c] t = (Inl (OtherError ''CrossTenantDocIdError'' []), t)"
  using assms
  by (simp add: embed_pending_def pending_candidates_def stored_hash_def load_rows_def upsert_def)

theorem gate_ignores_tenant_witness:
  "embed_pending (\<lambda>s. ''h'') (\<lambda>s. [1]) [row_a] [cand_a\<lparr>c_tenant := ''b''\<rparr>] ''m'' = (Inr 0, [row_a])"
  using gate_ignores_tenant [of "[row_a]" "cand_a\<lparr>c_tenant := ''b''\<rparr>" "''m''" row_a "\<lambda>s. ''h''" "\<lambda>s. [1]"]
  by (simp add: row_a_def cand_a_def find_row_def key_of_def)

text \<open>
  A loaded corpus is what the loader may assume: supported suffix, all required columns, one
  row per position (the first of the file), every text within its bounds; and rows are dropped for
  no other reason.
\<close>

theorem load_corpus_valid:
  assumes "load_corpus ext columns rows = Inr out"
  shows "distinct (map (\<lambda>r. (f_doc r, f_idx r)) out) \<and> set REQUIRED_COLUMNS \<subseteq> set columns
    \<and> (\<forall>r \<in> set out. r \<in> set rows \<and> 1 \<le> length (f_text r) \<and> length (f_text r) \<le> 8000)
    \<and> (\<forall>r. find (\<lambda>x. f_doc x = f_doc r \<and> f_idx x = f_idx r) rows = Some r
         \<and> 1 \<le> length (f_text r) \<and> length (f_text r) \<le> 8000 \<longrightarrow> r \<in> set out)"
proof -
  have out: "out = filter (\<lambda>r. 1 \<le> length (f_text r) \<and> length (f_text r) \<le> 8000) (keep_first [] rows)"
    and cols: "set REQUIRED_COLUMNS \<subseteq> set columns"
    using assms by (auto simp: load_corpus_def MIN_CHUNK_CHARS_def MAX_CHUNK_CHARS_def list_all_iff split: if_splits)
  have "r \<in> set out" if r: "find (\<lambda>x. f_doc x = f_doc r \<and> f_idx x = f_idx r) rows = Some r"
    "1 \<le> length (f_text r)" "length (f_text r) \<le> 8000" for r
  proof -
    have "r \<in> set rows" using r(1) by (metis find_Some_iff nth_mem)
    then obtain q where "q \<in> set (keep_first [] rows)"
      "find (\<lambda>x. f_doc x = f_doc r \<and> f_idx x = f_idx r) rows = Some q"
      using keep_first_first [of r "[]" rows] by auto
    then show ?thesis using r by (simp add: out)
  qed
  then show ?thesis
    using keep_first_distinct [of "[]" rows] keep_first_sub [of "[]" rows] cols
    by (auto simp: out intro: distinct_map_filter_key)
qed

theorem load_corpus_valid_witness:
  "\<exists>out. load_corpus ''.jsonl'' REQUIRED_COLUMNS [\<lparr>f_doc = ''d'', f_idx = 0, f_text = ''x'', f_tenant = ''a''\<rparr>,
       \<lparr>f_doc = ''d'', f_idx = 0, f_text = ''y'', f_tenant = ''a''\<rparr>, \<lparr>f_doc = ''e'', f_idx = 0, f_text = [], f_tenant = ''a''\<rparr>]
     = Inr out \<and> map f_text out = [''x''] \<and> distinct (map (\<lambda>r. (f_doc r, f_idx r)) out)"
proof -
  let ?rows = "[\<lparr>f_doc = ''d'', f_idx = 0, f_text = ''x'', f_tenant = ''a''\<rparr>,
       \<lparr>f_doc = ''d'', f_idx = 0, f_text = ''y'', f_tenant = ''a''\<rparr>, \<lparr>f_doc = ''e'', f_idx = 0, f_text = [], f_tenant = ''a''\<rparr>]"
  have run: "load_corpus ''.jsonl'' REQUIRED_COLUMNS ?rows = Inr [\<lparr>f_doc = ''d'', f_idx = 0, f_text = ''x'', f_tenant = ''a''\<rparr>]"
    by (simp add: load_corpus_def REQUIRED_COLUMNS_def MIN_CHUNK_CHARS_def MAX_CHUNK_CHARS_def)
  show ?thesis using run load_corpus_valid [OF run] by auto
qed

section \<open>The loader as one update of a map\<close>

text \<open>
  The abstract loader works on a map from keys to rows: it puts the rows one after the other, and fails
  as a whole at the first key another tenant owns.
\<close>

fun put_all :: "corpus_row list \<Rightarrow> (row_key \<rightharpoonup> corpus_row) \<Rightarrow> (row_key \<rightharpoonup> corpus_row) option" where
  "put_all [] m = Some m"
| "put_all (r # rs) m =
     (if m (key_of r) \<noteq> None \<and> row_tenant (the (m (key_of r))) \<noteq> row_tenant r then None
      else put_all rs (m(key_of r \<mapsto> r)))"

lemma upsert_refines:
  assumes "table_ok t"
  shows "upsert r t = (t', n) \<Longrightarrow> (n = 1 \<and> find_row t' = (find_row t)(key_of r \<mapsto> r)
      \<and> (find_row t (key_of r) = None \<or> row_tenant (the (find_row t (key_of r))) = row_tenant r))
    \<or> (n = 0 \<and> t' = t \<and> find_row t (key_of r) \<noteq> None \<and> row_tenant (the (find_row t (key_of r))) \<noteq> row_tenant r)"
  by (fastforce simp: upsert_def find_row_append find_row_refresh refresh_same map_option.id [unfolded id_def]
      split: option.splits if_splits dest: find_row_key)

lemma execute_many_refines:
  "table_ok t \<Longrightarrow> execute_many rs t = (t', n) \<Longrightarrow>
     (if n = length rs then put_all rs (find_row t) = Some (find_row t') else n < length rs \<and> put_all rs (find_row t) = None)"
proof (induction rs arbitrary: t n)
  case (Cons r rs)
  obtain t1 n1 where u: "upsert r t = (t1, n1)" by (cases "upsert r t")
  obtain n2 where e: "execute_many rs t1 = (t', n2)" "n = n1 + n2" using Cons.prems(2) u by (auto simp: Let_def split: prod.splits)
  have ok: "table_ok t1" using upsert_table_ok [OF Cons.prems(1), of r] u by simp
  have le: "n2 \<le> length rs" using pg.write_all_count [of rs t1] e(1) by (simp add: execute_many_write_all)
  from upsert_refines [OF Cons.prems(1) u] show ?case
    using Cons.IH [OF ok e(1)] e(2) le by (auto split: if_splits)
qed simp

text \<open>
  C11. The loader implements the abstract one: on a table with unique keys a batch succeeds exactly when the
  abstract update is defined, the lookup function of the new table is then the updated map, and a batch
  that fails leaves the table as it was, whichever rows came before the offending one.
\<close>

theorem load_rows_refines:
  assumes "table_ok t"
  shows "case load_rows rs t of
      (Inr n, t') \<Rightarrow> put_all rs (find_row t) = Some (find_row t') \<and> n = length rs \<and> table_ok t'
    | (Inl x, t') \<Rightarrow> put_all rs (find_row t) = None \<and> t' = t"
proof -
  obtain t' n where e: "execute_many rs t = (t', n)" by (cases "execute_many rs t")
  have "table_ok t'" using pg.write_all_ok [OF assms, of rs] e by (simp add: execute_many_write_all)
  then show ?thesis using execute_many_refines [OF assms e] e assms by (auto simp: load_rows_def)
qed

theorem load_rows_refines_witness:
  "put_all [row_a, row_a] (find_row []) = Some (find_row (snd (load_rows [row_a, row_a] [])))"
proof -
  have "fst (load_rows [row_a, row_a] []) = Inr 2" by code_simp
  then show ?thesis using load_rows_refines [of "[]" "[row_a, row_a]"]
    by (cases "load_rows [row_a, row_a] []") (simp add: table_ok_def)
qed

end
