(* ===== verification/Hybrid.thy ===== *)
theory Hybrid
  imports CorpusStore
begin

text \<open>
  \<open>taxcalc_ai/hybrid.py\<close>: the two tenant-filtered retrievers, reciprocal rank fusion and the
  agreement diagnostic. Arguments: the distance of a stored vector to the query, the predicate and
  score of the full-text match, the containment test of a metadata filter, and \<open>fl\<close>, the rounding
  of a float operation. The order of the rows is that of the statement (an approximate index may
  return fewer of them).
\<close>

type_synonym hit = "string \<times> string \<times> rat"

(* src/taxcalc-ai/src/taxcalc_ai/hybrid.py:64-66 K_CONST *)
definition K_CONST :: nat where "K_CONST = 60"

(* src/taxcalc-ai/src/taxcalc_ai/hybrid.py:68-71 DEFAULT_RETRIEVER_K *)
definition DEFAULT_RETRIEVER_K :: nat where "DEFAULT_RETRIEVER_K = 50"

(* src/taxcalc-ai/src/taxcalc_ai/hybrid.py:73-76 DEFAULT_FUSED_K *)
definition DEFAULT_FUSED_K :: nat where "DEFAULT_FUSED_K = 60"

(* src/taxcalc-ai/src/taxcalc_ai/hybrid.py:78-83 _CHUNK_ID_EXPR *)
definition chunk_id_expr :: "corpus_row \<Rightarrow> string" where
  "chunk_id_expr r = ''chunk-'' @ row_doc r @ ''-p'' @ int_str (row_idx r)"

(* src/taxcalc-ai/src/taxcalc_ai/hybrid.py:86-136 dense_topk_filtered *)
definition dense_topk_filtered ::
  "(rat list \<Rightarrow> rat) \<Rightarrow> (jdict \<Rightarrow> jdict \<Rightarrow> bool) \<Rightarrow> corpus_row list \<Rightarrow> string \<Rightarrow> jdict option \<Rightarrow> nat \<Rightarrow> string \<Rightarrow> hit list" where
  "dense_topk_filtered dst contains_md t tenant mf k model =
     (let rows = filter (\<lambda>r. row_tenant r = tenant \<and> row_model r = model
                   \<and> (case mf of None \<Rightarrow> True | Some m \<Rightarrow> contains_md (row_meta r) m)) t
      in map (\<lambda>r. (chunk_id_expr r, row_text r, dst (row_vec r))) (take k (sort_key (\<lambda>r. dst (row_vec r)) rows)))"

(* src/taxcalc-ai/src/taxcalc_ai/hybrid.py:139-174 sparse_topk_fts *)
definition sparse_topk_fts ::
  "(string \<Rightarrow> bool) \<Rightarrow> (string \<Rightarrow> rat) \<Rightarrow> corpus_row list \<Rightarrow> string \<Rightarrow> nat \<Rightarrow> hit list" where
  "sparse_topk_fts fts ts_rank t tenant k =
     (let rows = filter (\<lambda>r. row_tenant r = tenant \<and> fts (row_text r)) t
      in map (\<lambda>r. (chunk_id_expr r, row_text r, ts_rank (row_text r))) (take k (sort_desc (\<lambda>r. ts_rank (row_text r)) rows)))"

text \<open>One list's contributions: \<open>scores[id] += w / (k + rank)\<close>, ranks from 1.\<close>

fun add_ranks :: "(rat \<Rightarrow> rat) \<Rightarrow> nat \<Rightarrow> rat \<Rightarrow> nat \<Rightarrow> hit list \<Rightarrow> (string, rat) dict \<Rightarrow> (string, rat) dict" where
  "add_ranks fl kc w rank [] scores = scores"
| "add_ranks fl kc w rank ((i, x, s) # hs) scores =
     add_ranks fl kc w (Suc rank) hs
       (dict_set i (fl ((case dict_get scores i of Some v \<Rightarrow> v | None \<Rightarrow> 0) + fl (w / of_nat (kc + rank)))) scores)"

text \<open>The texts: assigned from the dense list, defaulted from the sparse one.\<close>

fun assign_texts :: "hit list \<Rightarrow> (string, string) dict \<Rightarrow> (string, string) dict" where
  "assign_texts [] ts = ts"
| "assign_texts ((i, x, s) # hs) ts = assign_texts hs (dict_set i x ts)"

fun default_texts :: "hit list \<Rightarrow> (string, string) dict \<Rightarrow> (string, string) dict" where
  "default_texts [] ts = ts"
| "default_texts ((i, x, s) # hs) ts =
     default_texts hs (case dict_get ts i of Some y \<Rightarrow> ts | None \<Rightarrow> dict_set i x ts)"

(* src/taxcalc-ai/src/taxcalc_ai/hybrid.py:177-229 rrf_fuse *)
definition rrf_fuse ::
  "(rat \<Rightarrow> rat) \<Rightarrow> hit list \<Rightarrow> hit list \<Rightarrow> nat \<Rightarrow> rat \<Rightarrow> rat \<Rightarrow> nat \<Rightarrow> hit list" where
  "rrf_fuse fl dense sparse kc wd ws top_k =
     (let scores = add_ranks fl kc ws 1 sparse (add_ranks fl kc wd 1 dense []);
          texts = default_texts sparse (assign_texts dense []);
          ordered = sort_desc snd scores
      in map (\<lambda>(i, s). (i, (case dict_get texts i of Some x \<Rightarrow> x | None \<Rightarrow> []), s)) (take top_k ordered))"

record coverage_report =
  dense_only :: nat
  sparse_only :: nat
  both_lists :: nat
  jaccard :: rat

(* src/taxcalc-ai/src/taxcalc_ai/hybrid.py:232-266 coverage *)
definition coverage :: "(rat \<Rightarrow> rat) \<Rightarrow> hit list \<Rightarrow> hit list \<Rightarrow> coverage_report" where
  "coverage fl dense sparse =
     (let d = set (map fst dense); s = set (map fst sparse)
      in \<lparr>dense_only = card (d - s), sparse_only = card (s - d), both_lists = card (d \<inter> s),
          jaccard = fl (of_nat (card (d \<inter> s)) / of_nat (if card (d \<union> s) = 0 then 1 else card (d \<union> s)))\<rparr>)"

section \<open>Scores\<close>

lemma add_ranks_keys: "set (dict_keys (add_ranks fl kc w n hs sc)) = set (dict_keys sc) \<union> set (map fst hs)"
  by (induction fl kc w n hs sc rule: add_ranks.induct) (auto simp: dict_keys_set)

lemma add_ranks_ok: "dict_ok sc \<Longrightarrow> dict_ok (add_ranks fl kc w n hs sc)"
  by (induction fl kc w n hs sc rule: add_ranks.induct) auto

text \<open>The contribution of one list to one id, with exact arithmetic.\<close>

fun contribution :: "nat \<Rightarrow> rat \<Rightarrow> nat \<Rightarrow> hit list \<Rightarrow> string \<Rightarrow> rat" where
  "contribution kc w rank [] i = 0"
| "contribution kc w rank ((j, x, s) # hs) i =
     (if j = i then w / of_nat (kc + rank) else 0) + contribution kc w (Suc rank) hs i"

definition score_of :: "(string, rat) dict \<Rightarrow> string \<Rightarrow> rat" where
  "score_of sc i = (case dict_get sc i of Some v \<Rightarrow> v | None \<Rightarrow> 0)"

lemma score_of_set: "score_of (dict_set i v sc) j = (if j = i then v else score_of sc j)"
  by (simp add: score_of_def)

lemma add_ranks_score:
  "score_of (add_ranks (\<lambda>x. x) kc w n hs sc) i = score_of sc i + contribution kc w n hs i"
proof (induction hs arbitrary: n sc)
  case (Cons h hs)
  obtain j x s where h: "h = (j, x, s)" by (cases h)
  show ?case
    by (simp add: h Cons.IH score_of_set) (simp add: score_of_def)
qed (simp add: score_of_def)

lemma contribution_nonneg: "0 \<le> w \<Longrightarrow> 0 \<le> contribution kc w n hs i"
  by (induction kc w n hs i rule: contribution.induct) auto

lemma contribution_absent: "i \<notin> fst ` set hs \<Longrightarrow> contribution kc w n hs i = 0"
  by (induction kc w n hs i rule: contribution.induct) auto

text \<open>The text an id carries: that of the first list that has it, the dense one's last.\<close>

lemma assign_texts_get:
  "dict_get (assign_texts hs ts) i = (case map_of (rev (map (\<lambda>(a, b, c). (a, b)) hs)) i of Some x \<Rightarrow> Some x | None \<Rightarrow> dict_get ts i)"
proof (induction hs arbitrary: ts)
  case (Cons h hs)
  obtain a b c where h: "h = (a, b, c)" by (cases h)
  show ?case by (simp add: h Cons.IH map_add_def split: option.split)
qed simp

lemma default_texts_get:
  "dict_get (default_texts hs ts) i = (case dict_get ts i of Some x \<Rightarrow> Some x
     | None \<Rightarrow> map_of (map (\<lambda>(a, b, c). (a, b)) hs) i)"
proof (induction hs arbitrary: ts)
  case (Cons h hs)
  obtain a b c where h: "h = (a, b, c)" by (cases h)
  show ?case by (simp add: h Cons.IH split: option.split)
qed (simp split: option.split)

definition text_source :: "hit list \<Rightarrow> hit list \<Rightarrow> string \<Rightarrow> string option" where
  "text_source dense sparse i =
     (case map_of (rev (map (\<lambda>(a, b, c). (a, b)) dense)) i of Some x \<Rightarrow> Some x
      | None \<Rightarrow> map_of (map (\<lambda>(a, b, c). (a, b)) sparse) i)"

lemma texts_get: "dict_get (default_texts sparse (assign_texts dense [])) i = text_source dense sparse i"
  by (simp add: default_texts_get assign_texts_get text_source_def split: option.split)

lemma fuse_ids:
  "map fst (rrf_fuse fl dense sparse kc wd ws k) =
     take k (map fst (sort_desc snd (add_ranks fl kc ws 1 sparse (add_ranks fl kc wd 1 dense []))))"
  by (simp add: rrf_fuse_def Let_def take_map comp_def case_prod_beta)

lemma fuse_scores:
  "map (\<lambda>h. snd (snd h)) (rrf_fuse fl dense sparse kc wd ws k) =
     take k (map snd (sort_desc snd (add_ranks fl kc ws 1 sparse (add_ranks fl kc wd 1 dense []))))"
  by (simp add: rrf_fuse_def Let_def take_map comp_def case_prod_beta)

lemma sorted_wrt_take: "sorted_wrt P xs \<Longrightarrow> sorted_wrt P (take k xs)"
  by (metis append_take_drop_id sorted_wrt_append)

section \<open>Properties\<close>

text \<open>
  Retrieval stays inside the tenant: every hit of either retriever is a stored row of the
  requesting tenant (of the requested model, and matching the filter, for the dense one), there are
  at most \<open>k\<close> of them, best first, and a hit's id is the id the chunker gave that position.
\<close>

theorem retrievers_tenant_scoped:
  "(\<forall>h \<in> set (dense_topk_filtered dst cmd t tenant mf k model). \<exists>r \<in> set t. row_tenant r = tenant
      \<and> row_model r = model \<and> h = (chunk_id_expr r, row_text r, dst (row_vec r)))
   \<and> (\<forall>h \<in> set (sparse_topk_fts fts rank t tenant k). \<exists>r \<in> set t. row_tenant r = tenant
      \<and> fts (row_text r) \<and> h = (chunk_id_expr r, row_text r, rank (row_text r)))
   \<and> length (dense_topk_filtered dst cmd t tenant mf k model) \<le> k \<and> length (sparse_topk_fts fts rank t tenant k) \<le> k
   \<and> sorted_wrt (\<lambda>x y. snd (snd x) \<le> snd (snd y)) (dense_topk_filtered dst cmd t tenant mf k model)
   \<and> sorted_wrt (\<lambda>x y. snd (snd x) \<ge> snd (snd y)) (sparse_topk_fts fts rank t tenant k)
   \<and> chunk_id_expr (r0\<lparr>row_idx := int n\<rparr>) = chunk_id_for (row_doc r0) n"
proof -
  have d: "sorted_wrt (\<lambda>x y. dst (row_vec x) \<le> dst (row_vec y)) (take k (sort_key (\<lambda>r. dst (row_vec r)) rows))" for rows
    by (rule sorted_wrt_take) (metis sorted_map sorted_sort_key)
  have s: "sorted_wrt (\<lambda>x y. rank (row_text x) \<ge> rank (row_text y)) (take k (sort_desc (\<lambda>r. rank (row_text r)) rows))" for rows
    by (rule sorted_wrt_take) (rule sorted_sort_desc)
  show ?thesis
    using d s by (auto simp: dense_topk_filtered_def sparse_topk_fts_def Let_def sorted_wrt_map
        chunk_id_expr_def chunk_id_for_def int_str_def dest!: in_set_takeD)
qed

theorem retrievers_tenant_scoped_witness:
  "map fst (dense_topk_filtered (\<lambda>v. 0) (\<lambda>a b. True) [row_a, row_a\<lparr>row_doc := ''e'', row_tenant := ''b''\<rparr>] ''a'' None 5 ''m'') = [''chunk-d-p0'']
   \<and> length (dense_topk_filtered (\<lambda>v. 0) (\<lambda>a b. True) [row_a, row_a\<lparr>row_doc := ''e'', row_tenant := ''b''\<rparr>] ''a'' None 5 ''m'') \<le> 5"
proof -
  have n: "nat_str 0 = ''0''" by (simp add: nat_str_small digit_chars)
  show ?thesis
    using retrievers_tenant_scoped [of "\<lambda>v. 0" "\<lambda>a b. True" "[row_a, row_a\<lparr>row_doc := ''e'', row_tenant := ''b''\<rparr>]" "''a''" None 5 "''m''"]
    by (simp add: dense_topk_filtered_def row_a_def chunk_id_expr_def int_str_def n)
qed

text \<open>
  C34. Fusion ranks by rank only: the fused list has distinct ids, each from one of the two lists
  with the text of that list (the dense one when both have it), best score first, at most \<open>top_k\<close>
  of them and none left out when there is room; with exact arithmetic an id's score is the sum of
  what its ranks contribute, so the retrievers' own scores do not matter.
\<close>

theorem rrf_fuse_ranks:
  "let out = rrf_fuse fl dense sparse kc wd ws k; ids = fst ` set dense \<union> fst ` set sparse in
     distinct (map fst out) \<and> fst ` set out \<subseteq> ids \<and> length out = min k (card ids)
     \<and> sorted_wrt (\<lambda>x y. snd (snd x) \<ge> snd (snd y)) out
     \<and> (\<forall>h \<in> set out. text_source dense sparse (fst h) = Some (fst (snd h)))
     \<and> (\<forall>h \<in> set out. fl = (\<lambda>x. x) \<longrightarrow> snd (snd h) = contribution kc wd 1 dense (fst h) + contribution kc ws 1 sparse (fst h))"
proof -
  define sc where "sc = add_ranks fl kc ws 1 sparse (add_ranks fl kc wd 1 dense [])"
  define out where "out = rrf_fuse fl dense sparse kc wd ws k"
  have ok: "dict_ok sc" by (simp add: sc_def add_ranks_ok)
  have keys: "set (map fst sc) = fst ` set dense \<union> fst ` set sparse"
    unfolding sc_def using add_ranks_keys [of fl kc ws 1 sparse "add_ranks fl kc wd 1 dense []"]
      add_ranks_keys [of fl kc wd 1 dense "[]"] by (auto simp: dict_keys_def)
  have out: "out = map (\<lambda>(i, s). (i, (case text_source dense sparse i of Some x \<Rightarrow> x | None \<Rightarrow> []), s)) (take k (sort_desc snd sc))"
    by (simp add: out_def rrf_fuse_def Let_def sc_def texts_get)
  have dst: "distinct (map fst (sort_desc snd sc))"
    using ok unfolding dict_ok_def by (metis distinct_map distinct_sort_desc set_sort_desc)
  have d: "distinct (map fst out)"
    using distinct_take [OF dst, of k] by (simp add: out comp_def case_prod_beta take_map)
  have sub: "fst ` set out \<subseteq> set (map fst sc)"
    by (force simp: out dest!: in_set_takeD)
  have len: "length out = min k (card (fst ` set dense \<union> fst ` set sparse))"
    using ok distinct_card [of "map fst sc"] by (simp add: out keys [symmetric] dict_ok_def min.commute)
  have sorted: "sorted_wrt (\<lambda>x y. snd (snd x) \<ge> snd (snd y)) out"
    using sorted_wrt_take [OF sorted_sort_desc [of snd sc], of k] by (simp add: out sorted_wrt_map case_prod_beta)
  have src: "text_source dense sparse i = Some (case text_source dense sparse i of Some x \<Rightarrow> x | None \<Rightarrow> [])"
    if "i \<in> fst ` set dense \<union> fst ` set sparse" for i
  proof -
    have "text_source dense sparse i \<noteq> None"
      using that by (force simp: text_source_def map_of_eq_None_iff split: option.splits)
    then show ?thesis by auto
  qed
  have tx: "text_source dense sparse (fst h) = Some (fst (snd h))" if hin: "h \<in> set out" for h
  proof -
    obtain i x where h: "h = (i, (case text_source dense sparse i of Some y \<Rightarrow> y | None \<Rightarrow> []), x)"
      using hin by (auto simp: out)
    have "i \<in> fst ` set dense \<union> fst ` set sparse"
      using hin sub keys by (metis h fst_conv imageI subsetD)
    from src [OF this] show ?thesis by (simp only: h fst_conv snd_conv)
  qed
  have score: "snd (snd h) = contribution kc wd 1 dense (fst h) + contribution kc ws 1 sparse (fst h)"
    if h: "h \<in> set out" and fl: "fl = (\<lambda>x. x)" for h
  proof -
    have "(fst h, snd (snd h)) \<in> set sc" using h by (auto simp: out dest!: in_set_takeD)
    then have "dict_get sc (fst h) = Some (snd (snd h))" using dict_get_mem [OF ok] by blast
    then have "score_of sc (fst h) = snd (snd h)" by (simp add: score_of_def)
    then show ?thesis by (simp add: sc_def fl add_ranks_score) (simp add: score_of_def)
  qed
  show ?thesis
    unfolding Let_def out_def [symmetric] using d sub keys len sorted tx score by blast
qed

theorem rrf_fuse_ranks_witness:
  "let out = rrf_fuse (\<lambda>x. x) [(''a'', ''A'', 9), (''b'', ''B'', 8)] [(''b'', ''b2'', 1)] 60 1 1 60 in
     distinct (map fst out) \<and> map fst out = [''b'', ''a''] \<and> length out = 2"
proof -
  have "rrf_fuse (\<lambda>x. x) [(''a'', ''A'', 9), (''b'', ''B'', 8)] [(''b'', ''b2'', 1)] 60 1 1 60
      = [(''b'', ''B'', 1 / 62 + 1 / 61), (''a'', ''A'', 1 / 61)]"
    by (simp add: rrf_fuse_def Let_def py_simps sort_desc_def)
  then show ?thesis
    using rrf_fuse_ranks [of "\<lambda>x. x" "[(''a'', ''A'', 9), (''b'', ''B'', 8)]" "[(''b'', ''b2'', 1)]" 60 1 1 60]
    by (simp add: Let_def)
qed

text \<open>
  The sparse retriever does not see the model version: a chunk that is stored under two model
  versions, which the table's key allows and a model change produces, is returned twice under one
  id, and fusion then adds both ranks, so it outscores a chunk that is ranked above it.
\<close>

theorem sparse_counts_versions_twice:
  assumes "row_tenant r = tenant" and "fts (row_text r)" and "row_model r \<noteq> m2" and "2 \<le> k"
  shows "table_ok [r, r\<lparr>row_model := m2\<rparr>]
    \<and> map fst (sparse_topk_fts fts rank [r, r\<lparr>row_model := m2\<rparr>] tenant k) = [chunk_id_expr r, chunk_id_expr r]
    \<and> contribution kc w 1 (sparse_topk_fts fts rank [r, r\<lparr>row_model := m2\<rparr>] tenant k) (chunk_id_expr r)
        = w / of_nat (kc + 1) + w / of_nat (kc + 2)"
proof -
  obtain k' where k: "k = Suc (Suc k')" using assms(4) by (metis Suc_le_D numeral_2_eq_2 Suc_le_mono)
  have id: "chunk_id_expr (r\<lparr>row_model := m2\<rparr>) = chunk_id_expr r" by (simp add: chunk_id_expr_def)
  have "sparse_topk_fts fts rank [r, r\<lparr>row_model := m2\<rparr>] tenant k
      = [(chunk_id_expr r, row_text r, rank (row_text r)), (chunk_id_expr r, row_text r, rank (row_text r))]"
    using assms(1,2) by (simp add: sparse_topk_fts_def sort_desc_def k id)
  then show ?thesis using assms(3) by (simp add: table_ok_def key_of_def)
qed

theorem sparse_counts_versions_twice_witness:
  "map fst (sparse_topk_fts (\<lambda>s. True) (\<lambda>s. 1) [row_a, row_a\<lparr>row_model := ''m2''\<rparr>] ''a'' 50)
     = [chunk_id_expr row_a, chunk_id_expr row_a]"
  using sparse_counts_versions_twice [of row_a "''a''" "\<lambda>s. True" "''m2''" 50 "\<lambda>s. 1"] by (simp add: row_a_def)

lemma coverage_total:
  "dense_only (coverage fl d s) + sparse_only (coverage fl d s) + both_lists (coverage fl d s) = card (fst ` set d \<union> fst ` set s)"
proof -
  have "fst ` set d \<union> fst ` set s = (fst ` set d - fst ` set s) \<union> (fst ` set s - fst ` set d) \<union> (fst ` set d \<inter> fst ` set s)"
    by blast
  moreover have "card ((fst ` set d - fst ` set s) \<union> (fst ` set s - fst ` set d) \<union> (fst ` set d \<inter> fst ` set s))
      = card (fst ` set d - fst ` set s) + card (fst ` set s - fst ` set d) + card (fst ` set d \<inter> fst ` set s)"
    by (subst card_Un_disjoint, simp, simp, blast, subst card_Un_disjoint) auto
  ultimately show ?thesis by (simp add: coverage_def Let_def)
qed

lemma coverage_bounds: "0 \<le> jaccard (coverage (\<lambda>x. x) d s) \<and> jaccard (coverage (\<lambda>x. x) d s) \<le> 1"
proof -
  have "card (fst ` set d \<inter> fst ` set s) \<le> card (fst ` set d \<union> fst ` set s)"
    by (rule card_mono) auto
  then show ?thesis by (auto simp: coverage_def Let_def divide_le_eq_1)
qed

end
