(* ===== verification/Rerank.thy ===== *)
theory Rerank
  imports Hybrid
begin

text \<open>
  \<open>taxcalc_ai/rerank.py\<close>: greedy diversification, the two rerank backends and their dispatch.
  Arguments: the similarities the encoder gives (\<open>simq\<close> of a text to the query, \<open>simt\<close> of two
  texts), \<open>fl\<close> the rounding of a float operation, the cross-encoder's scores and the measured
  time, and what the hosted service answers. The locale is the contract the two backends share and
  the pipeline relies on; it is interpreted on both.
\<close>

(* src/taxcalc-ai/src/taxcalc_ai/rerank.py:122-124 RERANK_TIMEOUT_MS *)
definition RERANK_TIMEOUT_MS :: rat where "RERANK_TIMEOUT_MS = 300"

(* src/taxcalc-ai/src/taxcalc_ai/rerank.py:126-129 PASSAGE_CHAR_CAP *)
definition PASSAGE_CHAR_CAP :: nat where "PASSAGE_CHAR_CAP = 1024"

(* src/taxcalc-ai/src/taxcalc_ai/rerank.py:131-134 MMR_LAMBDA *)
definition MMR_LAMBDA :: rat where "MMR_LAMBDA = 7 / 10"

(* src/taxcalc-ai/src/taxcalc_ai/rerank.py:136-137 DEFAULT_MMR_K *)
definition DEFAULT_MMR_K :: nat where "DEFAULT_MMR_K = 20"

(* src/taxcalc-ai/src/taxcalc_ai/rerank.py:139-140 DEFAULT_RERANK_TOP_K *)
definition DEFAULT_RERANK_TOP_K :: nat where "DEFAULT_RERANK_TOP_K = 6"

section \<open>Diversification\<close>

record sims =
  simq :: "string \<Rightarrow> rat"
  simt :: "string \<Rightarrow> string \<Rightarrow> rat"
  sim_fl :: "rat \<Rightarrow> rat"

definition cand_text :: "hit list \<Rightarrow> nat \<Rightarrow> string" where
  "cand_text cs i = fst (snd (cs ! i))"

(* src/taxcalc-ai/src/taxcalc_ai/rerank.py:225-232 objective of mmr_pick *)
definition mmr_score :: "sims \<Rightarrow> rat \<Rightarrow> hit list \<Rightarrow> nat list \<Rightarrow> nat \<Rightarrow> rat" where
  "mmr_score e l cs picked i =
     (if picked = [] then simq e (cand_text cs i)
      else sim_fl e (sim_fl e (l * simq e (cand_text cs i))
             - sim_fl e (sim_fl e (1 - l) * Max (set (map (\<lambda>j. simt e (cand_text cs j) (cand_text cs i)) picked)))))"

text \<open>The scan keeps the first index with the largest score.\<close>

fun best_from :: "(nat \<Rightarrow> rat) \<Rightarrow> nat \<Rightarrow> nat list \<Rightarrow> nat" where
  "best_from f b [] = b"
| "best_from f b (i # is) = (if f i > f b then best_from f i is else best_from f b is)"

(* src/taxcalc-ai/src/taxcalc_ai/rerank.py:219-237 pick loop of mmr_pick *)
fun mmr_loop :: "sims \<Rightarrow> rat \<Rightarrow> hit list \<Rightarrow> nat \<Rightarrow> nat list \<Rightarrow> nat list \<Rightarrow> nat list" where
  "mmr_loop e l cs 0 picked remaining = picked"
| "mmr_loop e l cs (Suc n) picked [] = picked"
| "mmr_loop e l cs (Suc n) picked (i # is) =
     (let b = best_from (mmr_score e l cs picked) i is
      in mmr_loop e l cs n (picked @ [b]) (remove1 b (i # is)))"

(* src/taxcalc-ai/src/taxcalc_ai/rerank.py:169-248 mmr_pick *)
definition mmr_pick :: "sims \<Rightarrow> hit list \<Rightarrow> nat \<Rightarrow> rat \<Rightarrow> hit list" where
  "mmr_pick e cs k l = (if cs = [] then [] else map ((!) cs) (mmr_loop e l cs k [] [0 ..< length cs]))"

section \<open>The local cross-encoder\<close>

record bge_env =
  bge_scores :: "(string \<times> string) list \<Rightarrow> rat list"
  bge_elapsed_ms :: rat

(* src/taxcalc-ai/src/taxcalc_ai/rerank.py:251-337 bge_rerank *)
definition bge_rerank :: "bge_env \<Rightarrow> string \<Rightarrow> hit list \<Rightarrow> nat \<Rightarrow> rat \<Rightarrow> hit list \<times> bool" where
  "bge_rerank e q cs top_k timeout_ms =
     (if cs = [] then ([], False)
      else let pairs = map (\<lambda>(i, x, s). (q, take PASSAGE_CHAR_CAP x)) cs;
               scores = bge_scores e pairs;
               timed_out = bge_elapsed_ms e > timeout_ms
           in if timed_out then (take top_k cs, True)
              else (map (\<lambda>((i, x, s), sc). (i, x, sc)) (take top_k (sort_desc snd (zip cs scores))), False))"

section \<open>The hosted reranker\<close>

text \<open>What the request came back as: no answer in time, a transport error or a bad status, a body that is no JSON, or a body.\<close>

datatype cohere_reply = CohTimeout | CohHttpError | CohBadJson | CohBody json

definition py_iter :: "json \<Rightarrow> json list res" where
  "py_iter v = (case v of JList xs \<Rightarrow> Inr xs | JObj d \<Rightarrow> Inr (map (\<lambda>(k, x). JStr k) d)
     | JStr s \<Rightarrow> Inr (map (\<lambda>c. JStr [c]) s) | _ \<Rightarrow> Inl (TypeError ''not iterable''))"

record cohere_env =
  coh_key :: string
  coh_reply :: "string \<Rightarrow> string list \<Rightarrow> nat \<Rightarrow> cohere_reply"
  coh_int :: "string \<Rightarrow> int option"
  coh_float :: "string \<Rightarrow> rat option"
  coh_fl :: "rat \<Rightarrow> rat"

(* src/taxcalc-ai/src/taxcalc_ai/rerank.py:439-446 rows of cohere_rerank *)
fun cohere_rows :: "cohere_env \<Rightarrow> nat \<Rightarrow> json list \<Rightarrow> (nat \<times> rat) list res" where
  "cohere_rows e n [] = Inr []"
| "cohere_rows e n (JObj d # rows) =
     bind_res (py_int (coh_int e) (get_or d ''index'' (JInt (- 1)))) (\<lambda>i.
       if 0 \<le> i \<and> i < int n
       then (case dict_get d ''relevance_score'' of
               None \<Rightarrow> Inl (KeyError ''relevance_score'')
             | Some v \<Rightarrow> bind_res (py_float (coh_fl e) (coh_float e) v) (\<lambda>s.
                 bind_res (cohere_rows e n rows) (\<lambda>rest. Inr ((nat i, s) # rest))))
       else cohere_rows e n rows)"
| "cohere_rows e n (v # rows) = Inl (OtherError ''AttributeError'' ''get'')"

definition cohere_scored :: "cohere_env \<Rightarrow> nat \<Rightarrow> cohere_reply \<Rightarrow> (nat \<times> rat) list res" where
  "cohere_scored e n reply = (case reply of
     CohTimeout \<Rightarrow> Inr [] | CohHttpError \<Rightarrow> Inr []
   | CohBadJson \<Rightarrow> Inl (ValueError ''Expecting value'')
   | CohBody (JObj d) \<Rightarrow> bind_res (py_iter (get_or d ''results'' (JList []))) (cohere_rows e n)
   | CohBody v \<Rightarrow> Inl (OtherError ''AttributeError'' ''get''))"

(* src/taxcalc-ai/src/taxcalc_ai/rerank.py:371-494 cohere_rerank *)
definition cohere_rerank :: "cohere_env \<Rightarrow> string \<Rightarrow> hit list \<Rightarrow> nat \<Rightarrow> (hit list \<times> bool) res" where
  "cohere_rerank e q cs top_k =
     (if cs = [] then Inr ([], False)
      else if coh_key e = [] then Inl (RuntimeError ''RERANKER=cohere requires COHERE_API_KEY to be set'')
      else bind_res (cohere_scored e (length cs) (coh_reply e q (map (\<lambda>(i, x, s). take PASSAGE_CHAR_CAP x) cs) top_k))
        (\<lambda>scored. if scored = [] then Inr (take top_k cs, True)
           else Inr (map (\<lambda>(i, s). (fst (cs ! i), fst (snd (cs ! i)), s)) (take top_k (sort_desc snd scored)), False)))"

section \<open>Dispatch\<close>

datatype backend = Bge | Cohere

(* src/taxcalc-ai/src/taxcalc_ai/rerank.py:340-368 resolve_reranker *)
definition resolve_reranker :: "string option \<Rightarrow> string option \<Rightarrow> backend res" where
  "resolve_reranker name env =
     (let raw = lower (strip (case name of Some n \<Rightarrow> n | None \<Rightarrow> (case env of Some v \<Rightarrow> v | None \<Rightarrow> ''bge'')))
      in if raw \<in> {''bge'', lower ''BAAI/bge-reranker-base'', ''bge-reranker-base''} then Inr Bge
         else if raw \<in> {''cohere'', ''rerank-3.5''} then Inr Cohere
         else Inl (ValueError raw))"

(* src/taxcalc-ai/src/taxcalc_ai/rerank.py:497-521 rerank_candidates *)
definition rerank_candidates ::
  "bge_env \<Rightarrow> cohere_env \<Rightarrow> string option \<Rightarrow> string option \<Rightarrow> string \<Rightarrow> hit list \<Rightarrow> nat \<Rightarrow> (hit list \<times> bool) res" where
  "rerank_candidates be ce name env q cs top_k =
     bind_res (resolve_reranker name env) (\<lambda>b. case b of
       Cohere \<Rightarrow> cohere_rerank ce q cs top_k
     | Bge \<Rightarrow> Inr (bge_rerank be q cs top_k RERANK_TIMEOUT_MS))"

section \<open>The contract of a backend\<close>

definition passages :: "hit list \<Rightarrow> (string \<times> string) list" where
  "passages cs = map (\<lambda>h. (fst h, fst (snd h))) cs"

text \<open>
  A backend returns at most \<open>top_k\<close> of the passages it was given; when it reports a timeout they
  are the first ones, untouched; otherwise they are in descending order of the new scores.
\<close>

locale soft_reranker =
  fixes run :: "hit list \<Rightarrow> nat \<Rightarrow> (hit list \<times> bool) res"
  assumes at_most: "run cs k = Inr (out, b) \<Longrightarrow> length out \<le> k"
    and from_input: "run cs k = Inr (out, b) \<Longrightarrow> set (passages out) \<subseteq> set (passages cs)"
    and fallback: "run cs k = Inr (out, True) \<Longrightarrow> out = take k cs"
    and ordered: "run cs k = Inr (out, False) \<Longrightarrow> sorted_wrt (\<lambda>x y. snd (snd x) \<ge> snd (snd y)) out"
begin

lemma usable: "run cs k = Inr (out, b) \<Longrightarrow> out = take k cs \<or> sorted_wrt (\<lambda>x y. snd (snd x) \<ge> snd (snd y)) out"
  using fallback ordered by (cases b) auto

lemma nothing_new: "run cs k = Inr (out, b) \<Longrightarrow> h \<in> set out \<Longrightarrow> \<exists>c \<in> set cs. fst c = fst h \<and> fst (snd c) = fst (snd h)"
proof -
  assume a: "run cs k = Inr (out, b)" "h \<in> set out"
  then have "(fst h, fst (snd h)) \<in> set (passages out)" by (simp add: passages_def)
  then have "(fst h, fst (snd h)) \<in> set (passages cs)" using from_input [OF a(1)] by blast
  then obtain c where "c \<in> set cs" "(fst h, fst (snd h)) = (fst c, fst (snd c))"
    unfolding passages_def set_map by (rule imageE)
  then show "\<exists>c \<in> set cs. fst c = fst h \<and> fst (snd c) = fst (snd h)" by (intro bexI [of _ c]) simp_all
qed

end

lemma passages_rescored:
  assumes "fst ` set zs \<subseteq> set cs"
  shows "set (passages (map (\<lambda>((i, x, s), sc). (i, x, sc)) zs)) \<subseteq> set (passages cs)"
proof
  fix p
  assume "p \<in> set (passages (map (\<lambda>((i, x, s), sc). (i, x, sc)) zs))"
  then obtain i x s sc where z: "((i, x, s), sc) \<in> set zs" and p: "p = (i, x)" by (auto simp: passages_def)
  from z assms have "(i, x, s) \<in> set cs" by force
  then show "p \<in> set (passages cs)" unfolding p passages_def set_map by (rule rev_image_eqI) simp
qed

lemma passages_picked:
  assumes "\<forall>p \<in> set xs. fst p < length cs"
  shows "set (passages (map (\<lambda>(i, s). (fst (cs ! i), fst (snd (cs ! i)), s)) xs)) \<subseteq> set (passages cs)"
proof
  fix p
  assume "p \<in> set (passages (map (\<lambda>(i, s). (fst (cs ! i), fst (snd (cs ! i)), s)) xs))"
  then obtain i s where z: "(i, s) \<in> set xs" and p: "p = (fst (cs ! i), fst (snd (cs ! i)))" by (auto simp: passages_def)
  from z assms have "cs ! i \<in> set cs" by auto
  then show "p \<in> set (passages cs)" unfolding p passages_def set_map by (rule rev_image_eqI) simp
qed

lemma passages_take: "set (passages (take k cs)) \<subseteq> set (passages cs)"
  by (auto simp: passages_def dest: in_set_takeD)

interpretation bge: soft_reranker "\<lambda>cs k. Inr (bge_rerank e q cs k tm)" for e q tm
proof (unfold_locales, goal_cases)
  case (1 cs k out b)
  then show ?case by (auto simp: bge_rerank_def Let_def split: if_splits)
next
  case (2 cs k out b)
  have "set (passages (map (\<lambda>((i, x, s), sc). (i, x, sc)) (take k (sort_desc snd (zip cs scs))))) \<subseteq> set (passages cs)" for scs
    by (rule passages_rescored) (auto dest!: in_set_takeD set_zip_leftD)
  then show ?case using 2 passages_take [of k cs] by (auto simp: bge_rerank_def Let_def split: if_splits)
next
  case (3 cs k out)
  then show ?case by (auto simp: bge_rerank_def Let_def split: if_splits)
next
  case (4 cs k out)
  have "sorted_wrt (\<lambda>x y. snd (snd x) \<ge> snd (snd y)) (map (\<lambda>((i, x, s), sc). (i, x, sc)) (take k (sort_desc snd (zip cs scs))))" for scs
    using sorted_wrt_take [OF sorted_sort_desc [of snd "zip cs scs"], of k] by (simp add: sorted_wrt_map case_prod_beta)
  then show ?case using 4 by (auto simp: bge_rerank_def Let_def split: if_splits)
qed

lemma cohere_rows_bound: "cohere_rows e n rows = Inr xs \<Longrightarrow> p \<in> set xs \<Longrightarrow> fst p < n"
proof (induction e n rows arbitrary: xs rule: cohere_rows.induct)
  case (2 e n d rows)
  then show ?case by (fastforce simp: bind_res_eq_Inr split: if_splits option.splits)
qed (auto split: sum.splits)

lemma cohere_scored_bound: "cohere_scored e n reply = Inr xs \<Longrightarrow> p \<in> set xs \<Longrightarrow> fst p < n"
  by (auto simp: cohere_scored_def bind_res_eq_Inr dest: cohere_rows_bound split: cohere_reply.splits json.splits)

interpretation cohere: soft_reranker "\<lambda>cs k. cohere_rerank e q cs k" for e q
proof (unfold_locales, goal_cases)
  case (1 cs k out b)
  then show ?case by (auto simp: cohere_rerank_def bind_res_eq_Inr split: if_splits)
next
  case (2 cs k out b)
  show ?case
  proof (cases b)
    case True
    then show ?thesis using 2 passages_take [of k cs] by (auto simp: cohere_rerank_def bind_res_eq_Inr split: if_splits)
  next
    case False
    show ?thesis
    proof (cases "cs = []")
      case True
      then show ?thesis using 2 by (simp add: cohere_rerank_def passages_def)
    next
      case ne: False
      then obtain xs where xs: "cohere_scored e (length cs) (coh_reply e q (map (\<lambda>(i, x, s). take PASSAGE_CHAR_CAP x) cs) k) = Inr xs"
        and out: "out = map (\<lambda>(i, s). (fst (cs ! i), fst (snd (cs ! i)), s)) (take k (sort_desc snd xs))"
        using 2 False by (auto simp: cohere_rerank_def bind_res_eq_Inr split: if_splits)
      have "\<forall>p \<in> set (take k (sort_desc snd xs)). fst p < length cs"
        using cohere_scored_bound [OF xs] by (metis in_set_takeD set_sort_desc)
      from passages_picked [OF this] show ?thesis unfolding out .
    qed
  qed
next
  case (3 cs k out)
  then show ?case by (auto simp: cohere_rerank_def bind_res_eq_Inr split: if_splits)
next
  case (4 cs k out)
  have "sorted_wrt (\<lambda>x y. snd (snd x) \<ge> snd (snd y)) (map (\<lambda>(i, s). (fst (cs ! i), fst (snd (cs ! i)), s)) (take k (sort_desc snd xs)))"
    for xs :: "(nat \<times> rat) list"
    using sorted_wrt_take [OF sorted_sort_desc [of snd xs], of k] by (simp add: sorted_wrt_map case_prod_beta)
  then show ?case using 4 by (auto simp: cohere_rerank_def bind_res_eq_Inr split: if_splits)
qed

section \<open>Greedy picks\<close>

lemma best_from_in: "best_from f b is \<in> set (b # is)"
  by (induction f b "is" rule: best_from.induct) auto

lemma best_from_max: "j \<in> set (b # is) \<Longrightarrow> f j \<le> f (best_from f b is)"
proof (induction f b "is" arbitrary: j rule: best_from.induct)
  case (2 f b i "is")
  show ?case
  proof (cases "f i > f b")
    case True
    have "f i \<le> f (best_from f i is)" using 2(1) [OF True, of i] by simp
    then show ?thesis using 2(1) [OF True, of j] 2(3) True by auto
  next
    case False
    have "f b \<le> f (best_from f b is)" using 2(2) [OF False, of b] by simp
    then show ?thesis using 2(2) [OF False, of j] 2(3) False by auto
  qed
qed simp

lemma mmr_loop_picks:
  "distinct (picked @ remaining) \<Longrightarrow>
     prefix picked (mmr_loop e l cs n picked remaining)
     \<and> distinct (mmr_loop e l cs n picked remaining)
     \<and> set (mmr_loop e l cs n picked remaining) \<subseteq> set picked \<union> set remaining
     \<and> length (mmr_loop e l cs n picked remaining) = length picked + min n (length remaining)"
proof (induction e l cs n picked remaining rule: mmr_loop.induct)
  case (3 e l cs n picked i "is")
  define b where "b = best_from (mmr_score e l cs picked) i is"
  have b: "b \<in> set (i # is)" using best_from_in [of "mmr_score e l cs picked" i "is"] by (simp add: b_def)
  have d: "distinct ((picked @ [b]) @ remove1 b (i # is))"
    using 3(2) b by (auto simp: distinct_remove1 set_remove1_eq simp del: remove1.simps)
  have len: "length (remove1 b (i # is)) = length is" using b by (simp add: length_remove1 del: remove1.simps)
  have sub: "set (remove1 b (i # is)) \<subseteq> set (i # is)" by (rule set_remove1_subset)
  have step: "mmr_loop e l cs (Suc n) picked (i # is) = mmr_loop e l cs n (picked @ [b]) (remove1 b (i # is))"
    by (simp add: Let_def b_def del: remove1.simps)
  have IH: "prefix (picked @ [b]) (mmr_loop e l cs n (picked @ [b]) (remove1 b (i # is)))
     \<and> distinct (mmr_loop e l cs n (picked @ [b]) (remove1 b (i # is)))
     \<and> set (mmr_loop e l cs n (picked @ [b]) (remove1 b (i # is))) \<subseteq> set (picked @ [b]) \<union> set (remove1 b (i # is))
     \<and> length (mmr_loop e l cs n (picked @ [b]) (remove1 b (i # is))) = length (picked @ [b]) + min n (length (remove1 b (i # is)))"
    using 3(1) [OF b_def] d by blast
  have "prefix picked (mmr_loop e l cs n (picked @ [b]) (remove1 b (i # is)))"
    using IH by (meson append_prefixD)
  moreover have "set (mmr_loop e l cs n (picked @ [b]) (remove1 b (i # is))) \<subseteq> set picked \<union> set (i # is)"
    using IH sub b by auto
  ultimately show ?case
    unfolding step using IH by (simp add: len del: remove1.simps)
qed auto

text \<open>Each pick after those already made maximises the objective over what was left.\<close>

lemma mmr_loop_greedy:
  "distinct (picked @ remaining) \<Longrightarrow> length picked \<le> j \<Longrightarrow> j < length (mmr_loop e l cs n picked remaining) \<Longrightarrow>
     c \<in> set remaining \<Longrightarrow> c \<notin> set (take j (mmr_loop e l cs n picked remaining)) \<Longrightarrow>
     mmr_score e l cs (take j (mmr_loop e l cs n picked remaining)) c
       \<le> mmr_score e l cs (take j (mmr_loop e l cs n picked remaining)) (mmr_loop e l cs n picked remaining ! j)"
proof (induction e l cs n picked remaining rule: mmr_loop.induct)
  case (3 e l cs n picked i "is")
  define b where "b = best_from (mmr_score e l cs picked) i is"
  have b: "b \<in> set (i # is)" using best_from_in [of "mmr_score e l cs picked" i "is"] by (simp add: b_def)
  have d: "distinct ((picked @ [b]) @ remove1 b (i # is))"
    using 3(2) b by (auto simp: distinct_remove1 set_remove1_eq simp del: remove1.simps)
  define out where "out = mmr_loop e l cs n (picked @ [b]) (remove1 b (i # is))"
  have step: "mmr_loop e l cs (Suc n) picked (i # is) = out"
    by (simp add: Let_def b_def out_def del: remove1.simps)
  have pre: "prefix (picked @ [b]) out" using mmr_loop_picks [OF d] by (simp add: out_def)
  show ?case
  proof (cases "j = length picked")
    case True
    then have "take j out = picked" "out ! j = b" using pre by (auto simp: prefix_def nth_append)
    then show ?thesis
      unfolding step using best_from_max [of c i "is" "mmr_score e l cs picked"] 3(5) by (simp add: b_def)
  next
    case False
    then have j: "length (picked @ [b]) \<le> j" using 3(3) by simp
    have "b \<in> set (take j out)"
    proof -
      obtain zs where "out = (picked @ [b]) @ zs" using pre by (auto simp: prefix_def)
      then show ?thesis using j by (cases "j - length picked") simp_all
    qed
    then have "c \<noteq> b" using 3(6) step by metis
    then have c: "c \<in> set (remove1 b (i # is))" using 3(5) by (metis in_set_remove1)
    show ?thesis
      unfolding step using 3(1) [OF b_def d j] 3(4,6) c step by (simp add: out_def)
  qed
qed auto

section \<open>Properties\<close>

text \<open>
  C35. Diversification is greedy and loses nothing it need not: with any similarities it picks
  \<open>min k n\<close> different candidates with their incoming scores, each pick maximises the objective
  over what was left when it was made, and the first one is a nearest candidate to the query.
\<close>

theorem mmr_pick_greedy:
  "\<exists>picks. mmr_pick e cs k l = map ((!) cs) picks \<and> distinct picks \<and> set picks \<subseteq> {0 ..< length cs}
     \<and> length picks = min k (length cs)
     \<and> (\<forall>j < length picks. \<forall>c < length cs. c \<notin> set (take j picks) \<longrightarrow>
          mmr_score e l cs (take j picks) c \<le> mmr_score e l cs (take j picks) (picks ! j))
     \<and> (\<forall>c < length cs. picks \<noteq> [] \<longrightarrow> simq e (cand_text cs c) \<le> simq e (cand_text cs (picks ! 0)))"
proof -
  define picks where "picks = (if cs = [] then [] else mmr_loop e l cs k [] [0 ..< length cs])"
  have d: "distinct ([] @ [0 ..< length cs])" by simp
  have p: "distinct picks \<and> set picks \<subseteq> {0 ..< length cs} \<and> length picks = min k (length cs)"
    using mmr_loop_picks [OF d, of e l cs k] by (auto simp: picks_def)
  have g: "mmr_score e l cs (take j picks) c \<le> mmr_score e l cs (take j picks) (picks ! j)"
    if "j < length picks" "c < length cs" "c \<notin> set (take j picks)" for j c
    using that mmr_loop_greedy [OF d, of j e l cs k c] by (auto simp: picks_def split: if_splits)
  have first: "simq e (cand_text cs c) \<le> simq e (cand_text cs (picks ! 0))" if "c < length cs" "picks \<noteq> []" for c
    using g [of 0 c] that by (simp add: mmr_score_def)
  show ?thesis
    by (rule exI [of _ picks]) (use p g first in \<open>simp add: mmr_pick_def picks_def\<close>)
qed

definition demo_sims :: sims where
  "demo_sims = \<lparr>simq = (\<lambda>x. of_nat (length x)), simt = (\<lambda>x y. if x = y then 10 else 0), sim_fl = (\<lambda>r. r)\<rparr>"

theorem mmr_pick_greedy_witness:
  "mmr_pick demo_sims [(''a'', ''xx'', 1), (''b'', ''xx'', 1), (''c'', ''x'', 1)] 2 MMR_LAMBDA = [(''a'', ''xx'', 1), (''c'', ''x'', 1)]
   \<and> length (mmr_pick demo_sims [(''a'', ''xx'', 1), (''b'', ''xx'', 1), (''c'', ''x'', 1)] 2 MMR_LAMBDA) = 2"
proof -
  have run: "mmr_pick demo_sims [(''a'', ''xx'', 1), (''b'', ''xx'', 1), (''c'', ''x'', 1)] 2 MMR_LAMBDA
      = [(''a'', ''xx'', 1), (''c'', ''x'', 1)]"
    by (simp add: mmr_pick_def numeral_2_eq_2 upt_rec mmr_score_def demo_sims_def cand_text_def MMR_LAMBDA_def Let_def)
  obtain picks where "mmr_pick demo_sims [(''a'', ''xx'', 1), (''b'', ''xx'', 1), (''c'', ''x'', 1)] 2 MMR_LAMBDA
      = map ((!) [(''a'', ''xx'', 1), (''b'', ''xx'', 1), (''c'', ''x'', 1)]) picks" "length picks = 2"
    using mmr_pick_greedy [of demo_sims "[(''a'', ''xx'', 1), (''b'', ''xx'', 1), (''c'', ''x'', 1)]" 2 MMR_LAMBDA] by auto
  then show ?thesis using run by simp
qed


definition demo_bge :: bge_env where
  "demo_bge = \<lparr>bge_scores = (\<lambda>ps. map (\<lambda>p. of_nat (length (snd p))) ps), bge_elapsed_ms = 500\<rparr>"

definition demo_cohere :: "cohere_reply \<Rightarrow> cohere_env" where
  "demo_cohere r = \<lparr>coh_key = ''k'', coh_reply = (\<lambda>q ds n. r), coh_int = (\<lambda>s. None), coh_float = (\<lambda>s. None), coh_fl = (\<lambda>x. x)\<rparr>"


text \<open>
  Not every failure of the hosted reranker degrades: with a credential and candidates, a
  timeout, a bad status and an empty result list fall back to retrieval order, but a body that is
  no JSON, one that is no object, and a row without a relevance score raise out of the stage.
\<close>

theorem cohere_failures:
  assumes "cs \<noteq> []" and "coh_key ce \<noteq> []"
    and "reply = coh_reply ce q (map (\<lambda>(i, x, s). take PASSAGE_CHAR_CAP x) cs) k"
  shows "(reply = CohTimeout \<or> reply = CohHttpError \<or> reply = CohBody (JObj [(''results'', JList [])]) \<longrightarrow>
        cohere_rerank ce q cs k = Inr (take k cs, True))
    \<and> (reply = CohBadJson \<or> reply = CohBody (JList xs) \<or> reply = CohBody (JObj [(''results'', JList [JObj [(''index'', JInt 0)]])]) \<longrightarrow>
        (\<exists>e. cohere_rerank ce q cs k = Inl e))"
  using assms
  by (auto simp: cohere_rerank_def cohere_scored_def get_or_def py_iter_def py_int_def)

theorem cohere_failures_witness:
  "(\<exists>e. cohere_rerank (demo_cohere CohBadJson) ''q'' [(''a'', ''x'', 2)] 1 = Inl e)
   \<and> cohere_rerank (demo_cohere CohTimeout) ''q'' [(''a'', ''x'', 2)] 1 = Inr (take 1 [(''a'', ''x'', 2)], True)"
  using cohere_failures [of "[(''a'', ''x'', 2)]" "demo_cohere CohBadJson" CohBadJson "''q''" 1]
    cohere_failures [of "[(''a'', ''x'', 2)]" "demo_cohere CohTimeout" CohTimeout "''q''" 1]
  by (simp add: demo_cohere_def)

text \<open>The accepted names, in any letter case and with white space around them.\<close>

lemma resolve_reranker_names:
  "resolve_reranker None None = Inr Bge"
  "resolve_reranker (Some '' Cohere '') None = Inr Cohere"
  "resolve_reranker None (Some ''rerank-3.5'') = Inr Cohere"
  "resolve_reranker (Some ''BAAI/bge-reranker-base'') (Some ''cohere'') = Inr Bge"
  by code_simp+

end
