(* ===== verification/RagPipeline.thy ===== *)
theory RagPipeline
  imports Cache Rerank Llm
begin

text \<open>
  \<open>retrieve_and_generate\<close> of \<open>taxcalc_ai/rag.py\<close>: cache, retrieve, fuse, diversify, rerank,
  generate, store. The stages are those of the other theories. Arguments: the encoder and its
  similarities, the full-text match, the model behind the generation request, the environment
  variables, and the float functions.
\<close>

(* src/taxcalc-ai/src/taxcalc_ai/rag.py:194-196 _FALSE_VALUES *)
definition FALSE_VALUES :: "string list" where "FALSE_VALUES = [''0'', ''false'', ''no'', ''off'']"

(* src/taxcalc-ai/src/taxcalc_ai/rag.py:208-222 flag_from_env *)
definition flag_from_env :: "(string \<Rightarrow> string option) \<Rightarrow> string \<Rightarrow> bool \<Rightarrow> bool" where
  "flag_from_env environ name default_on = (case environ name of
     None \<Rightarrow> default_on | Some raw \<Rightarrow> lower (strip raw) \<notin> set FALSE_VALUES)"

fun numbered :: "nat \<Rightarrow> hit list \<Rightarrow> string list" where
  "numbered n [] = []"
| "numbered n ((i, x, s) # hs) = (''['' @ nat_str n @ ''] '' @ x) # numbered (Suc n) hs"

(* src/taxcalc-ai/src/taxcalc_ai/rag.py:225-241 _build_prompt *)
definition build_prompt :: "string \<Rightarrow> hit list \<Rightarrow> string" where
  "build_prompt q ctxt =
     ''Answer the question using only the numbered context below.'' @ [CHR 0x0A, CHR 0x0A]
     @ join [CHR 0x0A, CHR 0x0A] (numbered 1 ctxt) @ [CHR 0x0A, CHR 0x0A] @ ''Question: '' @ q"

record rag_env =
  rag_encode :: "string \<Rightarrow> rat list"
  rag_dist :: "rat list \<Rightarrow> rat list \<Rightarrow> rat"
  rag_sims :: "rat list \<Rightarrow> sims"
  rag_fts :: "string \<Rightarrow> string \<Rightarrow> bool"
  rag_rank :: "string \<Rightarrow> string \<Rightarrow> rat"
  rag_md :: "jdict \<Rightarrow> jdict \<Rightarrow> bool"
  rag_fl :: "rat \<Rightarrow> rat"
  rag_fr :: "rat \<Rightarrow> string"
  rag_digest :: "rat list \<Rightarrow> string"
  rag_model :: string
  rag_bge :: bge_env
  rag_cohere :: cohere_env
  rag_environ :: "string \<Rightarrow> string option"
  rag_llm :: "string \<Rightarrow> llm_response res"

record rag_flags =
  use_hybrid :: "bool option"
  use_mmr :: "bool option"
  use_rerank :: "bool option"
  use_filter :: "bool option"

definition flag_or_env :: "rag_env \<Rightarrow> bool option \<Rightarrow> string \<Rightarrow> bool" where
  "flag_or_env e f name = (case f of Some b \<Rightarrow> b | None \<Rightarrow> flag_from_env (rag_environ e) name True)"

(* src/taxcalc-ai/src/taxcalc_ai/rag.py:310-352 retrieval stages of retrieve_and_generate *)
definition retrieve_stages ::
  "rag_env \<Rightarrow> rag_flags \<Rightarrow> corpus_row list \<Rightarrow> rat list \<Rightarrow> string \<Rightarrow> string \<Rightarrow> jdict option
     \<Rightarrow> (hit list \<times> hit list \<times> hit list \<times> bool) res" where
  "retrieve_stages e fs t qv q tenant mf =
     (let hybrid_on = flag_or_env e (use_hybrid fs) ''RAG_USE_HYBRID'';
          mmr_on = flag_or_env e (use_mmr fs) ''RAG_USE_MMR'';
          rerank_on = flag_or_env e (use_rerank fs) ''RAG_USE_RERANK'';
          filter_on = flag_or_env e (use_filter fs) ''RAG_USE_FILTER'';
          dense = dense_topk_filtered (rag_dist e qv) (rag_md e) t tenant (if filter_on then mf else None)
                    DEFAULT_RETRIEVER_K (rag_model e);
          sparse = (if hybrid_on then sparse_topk_fts (rag_fts e q) (rag_rank e q) t tenant DEFAULT_RETRIEVER_K else []);
          fused = (if hybrid_on then rrf_fuse (rag_fl e) dense sparse K_CONST 1 1 DEFAULT_FUSED_K
                   else take DEFAULT_FUSED_K dense);
          diversified = (if mmr_on then mmr_pick (rag_sims e qv) fused DEFAULT_MMR_K MMR_LAMBDA
                         else take DEFAULT_MMR_K fused)
      in bind_res (if rerank_on
                   then rerank_candidates (rag_bge e) (rag_cohere e) None (rag_environ e ''RERANKER'') q diversified DEFAULT_RERANK_TOP_K
                   else Inr (take DEFAULT_RERANK_TOP_K diversified, False))
           (\<lambda>(reranked, timed_out). Inr (dense, sparse, reranked, timed_out)))"

definition citation_of :: "string \<Rightarrow> hit \<Rightarrow> json" where
  "citation_of tenant h = JObj [(''chunk_id'', JStr (fst h)), (''chunk_text'', JStr (fst (snd h))),
     (''score'', JFloat (snd (snd h))), (''tenant_id'', JStr tenant)]"

definition coverage_json :: "coverage_report \<Rightarrow> json" where
  "coverage_json c = JObj [(''dense_only'', JFloat (of_nat (dense_only c))), (''sparse_only'', JFloat (of_nat (sparse_only c))),
     (''both'', JFloat (of_nat (both_lists c))), (''jaccard'', JFloat (jaccard c))]"

definition first_text :: "content_block list \<Rightarrow> string" where
  "first_text bs = (case bs of TextBlock x # rest \<Rightarrow> x | _ \<Rightarrow> [])"

(* src/taxcalc-ai/src/taxcalc_ai/rag.py:358-378 answer of retrieve_and_generate *)
definition fresh_answer :: "rag_env \<Rightarrow> string \<Rightarrow> string \<Rightarrow> hit list \<Rightarrow> hit list \<Rightarrow> hit list \<Rightarrow> bool \<Rightarrow> jdict" where
  "fresh_answer e tenant txt dense sparse reranked timed_out =
     [(''text'', JStr txt), (''citations'', JList (map (citation_of tenant) reranked)),
      (''rerank_timed_out'', JBool timed_out), (''coverage'', coverage_json (coverage (rag_fl e) dense sparse))]"

(* src/taxcalc-ai/src/taxcalc_ai/rag.py:381-395 usage of retrieve_and_generate *)
definition with_usage :: "usage option \<Rightarrow> jdict \<Rightarrow> jdict" where
  "with_usage u a = (case u of None \<Rightarrow> a
     | Some v \<Rightarrow> dict_set ''usage'' (JObj [(''input_tokens'', JInt (or_zero (input_tokens v))),
                   (''output_tokens'', JInt (or_zero (output_tokens v)))]) a)"

text \<open>The result, the cache afterwards and the prompts that were sent to the model.\<close>

record rag_out =
  rag_result :: "jdict res"
  rag_cache :: redis
  rag_prompts :: "string list"

(* src/taxcalc-ai/src/taxcalc_ai/rag.py:244-409 retrieve_and_generate *)
definition retrieve_and_generate ::
  "rag_env \<Rightarrow> rag_flags \<Rightarrow> corpus_row list \<Rightarrow> int \<Rightarrow> redis \<Rightarrow> string \<Rightarrow> string \<Rightarrow> jdict option \<Rightarrow> rag_out" where
  "retrieve_and_generate e fs t now r q tenant mf =
     (let qv = rag_encode e q;
          stop = (\<lambda>x ps. \<lparr>rag_result = Inl x, rag_cache = r, rag_prompts = ps\<rparr>)
      in case cache_lookup (rag_fl e) (rag_digest e) now r qv tenant of
           Inl x \<Rightarrow> stop x []
         | Inr (Some a) \<Rightarrow> \<lparr>rag_result = Inr a, rag_cache = r, rag_prompts = []\<rparr>
         | Inr None \<Rightarrow>
            (case retrieve_stages e fs t qv q tenant mf of
               Inl x \<Rightarrow> stop x []
             | Inr (dense, sparse, reranked, timed_out) \<Rightarrow>
                (let prompt = build_prompt q reranked in
                 case rag_llm e prompt of
                   Inl x \<Rightarrow> stop x [prompt]
                 | Inr m \<Rightarrow>
                    (let a = fresh_answer e tenant (first_text (content m)) dense sparse reranked timed_out in
                     case cache_store (rag_fr e) (rag_digest e) now r qv tenant a DEFAULT_TTL_SECONDS of
                       Inl x \<Rightarrow> stop x [prompt]
                     | Inr r' \<Rightarrow> \<lparr>rag_result = Inr (with_usage (resp_usage m) a), rag_cache = r', rag_prompts = [prompt]\<rparr>))))"

section \<open>Where the context comes from\<close>

definition stored_passages :: "corpus_row list \<Rightarrow> string \<Rightarrow> (string \<times> string) set" where
  "stored_passages t tenant = {(chunk_id_expr r, row_text r) | r. r \<in> set t \<and> row_tenant r = tenant}"

lemma dense_passages: "set (passages (dense_topk_filtered d c t tenant mf k m)) \<subseteq> stored_passages t tenant"
  by (auto simp: dense_topk_filtered_def Let_def passages_def stored_passages_def dest!: in_set_takeD)

lemma sparse_passages: "set (passages (sparse_topk_fts f rk t tenant k)) \<subseteq> stored_passages t tenant"
  by (auto simp: sparse_topk_fts_def Let_def passages_def stored_passages_def dest!: in_set_takeD)

lemma map_of_passages: "map_of (map (\<lambda>(a, b, c). (a, b)) hs) i = Some x \<Longrightarrow> (i, x) \<in> set (passages hs)"
  by (induction hs) (auto simp: passages_def split: if_splits)

lemma map_of_passages_rev: "map_of (rev (map (\<lambda>(a, b, c). (a, b)) hs)) i = Some x \<Longrightarrow> (i, x) \<in> set (passages hs)"
proof -
  assume "map_of (rev (map (\<lambda>(a, b, c). (a, b)) hs)) i = Some x"
  then have "(i, x) \<in> set (map (\<lambda>(a, b, c). (a, b)) hs)" by (metis map_of_SomeD set_rev)
  moreover have "map (\<lambda>(a, b, c). (a, b)) hs = passages hs" by (simp add: passages_def case_prod_beta)
  ultimately show ?thesis by simp
qed

lemma text_source_passages:
  "text_source d s i = Some x \<Longrightarrow> (i, x) \<in> set (passages d) \<union> set (passages s)"
  by (auto simp: text_source_def dest: map_of_passages map_of_passages_rev split: option.splits)

lemma fused_text:
  assumes "h \<in> set (rrf_fuse fl d s kc wd ws k)"
  shows "text_source d s (fst h) = Some (fst (snd h))"
proof -
  let ?sc = "add_ranks fl kc ws 1 s (add_ranks fl kc wd 1 d [])"
  obtain i sc where h: "h = (i, (case text_source d s i of Some y \<Rightarrow> y | None \<Rightarrow> []), sc)" and i: "(i, sc) \<in> set ?sc"
    using assms by (auto simp: rrf_fuse_def Let_def texts_get dest!: in_set_takeD)
  have "i \<in> set (dict_keys ?sc)" using i by (force simp: dict_keys_def)
  then have "i \<in> fst ` set d \<union> fst ` set s" by (simp add: add_ranks_keys)
  then have "text_source d s i \<noteq> None"
    by (force simp: text_source_def map_of_eq_None_iff split: option.splits)
  then show ?thesis by (auto simp: h)
qed

lemma fused_passages: "set (passages (rrf_fuse fl d s kc wd ws k)) \<subseteq> set (passages d) \<union> set (passages s)"
proof
  fix p
  assume "p \<in> set (passages (rrf_fuse fl d s kc wd ws k))"
  then obtain h where h: "h \<in> set (rrf_fuse fl d s kc wd ws k)" and p: "p = (fst h, fst (snd h))"
    unfolding passages_def set_map by (rule imageE)
  from text_source_passages [OF fused_text [OF h]] show "p \<in> set (passages d) \<union> set (passages s)" by (simp add: p)
qed

lemma mmr_passages: "set (passages (mmr_pick e cs k l)) \<subseteq> set (passages cs)"
proof -
  have "distinct ([] @ [0 ..< length cs])" by simp
  from mmr_loop_picks [OF this, of e l cs k]
  have "set (mmr_loop e l cs k [] [0 ..< length cs]) \<subseteq> {0 ..< length cs}" by auto
  then have sub: "set (mmr_pick e cs k l) \<subseteq> set cs"
    by (auto simp: mmr_pick_def)
  then show ?thesis unfolding passages_def set_map by (rule image_mono)
qed

lemma rerank_passages:
  assumes "rerank_candidates be ce name env q cs k = Inr (out, b)"
  shows "set (passages out) \<subseteq> set (passages cs) \<and> length out \<le> k"
proof -
  obtain bk where bk: "resolve_reranker name env = Inr bk" using assms by (auto simp: rerank_candidates_def bind_res_eq_Inr)
  show ?thesis
  proof (cases bk)
    case Bge
    then have "Inr (bge_rerank be q cs k RERANK_TIMEOUT_MS) = (Inr (out, b) :: (hit list \<times> bool) res)"
      using assms bk by (simp add: rerank_candidates_def)
    then show ?thesis
      using bge.at_most [of be q cs k RERANK_TIMEOUT_MS out b] bge.from_input [of be q cs k RERANK_TIMEOUT_MS out b] by simp
  next
    case Cohere
    then have "cohere_rerank ce q cs k = Inr (out, b)" using assms bk by (simp add: rerank_candidates_def)
    then show ?thesis using cohere.at_most [of ce q cs k out b] cohere.from_input [of ce q cs k out b] by simp
  qed
qed

lemma retrieve_stages_passages:
  assumes "retrieve_stages e fs t qv q tenant mf = Inr (dense, sparse, reranked, b)"
  shows "set (passages reranked) \<subseteq> stored_passages t tenant \<and> length reranked \<le> 6"
proof -
  define d where "d = dense_topk_filtered (rag_dist e qv) (rag_md e) t tenant
     (if flag_or_env e (use_filter fs) ''RAG_USE_FILTER'' then mf else None) DEFAULT_RETRIEVER_K (rag_model e)"
  define s where "s = (if flag_or_env e (use_hybrid fs) ''RAG_USE_HYBRID''
     then sparse_topk_fts (rag_fts e q) (rag_rank e q) t tenant DEFAULT_RETRIEVER_K else [])"
  define f where "f = (if flag_or_env e (use_hybrid fs) ''RAG_USE_HYBRID''
     then rrf_fuse (rag_fl e) d s K_CONST 1 1 DEFAULT_FUSED_K else take DEFAULT_FUSED_K d)"
  define v where "v = (if flag_or_env e (use_mmr fs) ''RAG_USE_MMR'' then mmr_pick (rag_sims e qv) f DEFAULT_MMR_K MMR_LAMBDA
     else take DEFAULT_MMR_K f)"
  have s0: "set (passages s) \<subseteq> stored_passages t tenant"
  proof (cases "flag_or_env e (use_hybrid fs) ''RAG_USE_HYBRID''")
    case True
    then show ?thesis using sparse_passages by (simp add: s_def)
  qed (simp add: s_def passages_def)
  have d0: "set (passages d) \<subseteq> stored_passages t tenant" unfolding d_def by (rule dense_passages)
  have f0: "set (passages f) \<subseteq> stored_passages t tenant"
  proof (cases "flag_or_env e (use_hybrid fs) ''RAG_USE_HYBRID''")
    case True
    then have "set (passages f) \<subseteq> set (passages d) \<union> set (passages s)" using fused_passages by (simp add: f_def)
    then show ?thesis using s0 d0 by blast
  next
    case False
    then show ?thesis using passages_take [of DEFAULT_FUSED_K d] d0 by (auto simp: f_def)
  qed
  have v0: "set (passages v) \<subseteq> stored_passages t tenant"
  proof (cases "flag_or_env e (use_mmr fs) ''RAG_USE_MMR''")
    case True
    then have "set (passages v) \<subseteq> set (passages f)" using mmr_passages by (simp add: v_def)
    then show ?thesis using f0 by blast
  next
    case False
    then show ?thesis using passages_take [of DEFAULT_MMR_K f] f0 by (auto simp: v_def)
  qed
  have run: "retrieve_stages e fs t qv q tenant mf =
      bind_res (if flag_or_env e (use_rerank fs) ''RAG_USE_RERANK''
                then rerank_candidates (rag_bge e) (rag_cohere e) None (rag_environ e ''RERANKER'') q v DEFAULT_RERANK_TOP_K
                else Inr (take DEFAULT_RERANK_TOP_K v, False))
        (\<lambda>(rr, timed_out). Inr (d, s, rr, timed_out))"
    unfolding retrieve_stages_def Let_def v_def f_def s_def d_def by (rule refl)
  have "set (passages reranked) \<subseteq> set (passages v) \<and> length reranked \<le> DEFAULT_RERANK_TOP_K"
  proof (cases "flag_or_env e (use_rerank fs) ''RAG_USE_RERANK''")
    case True
    then have "rerank_candidates (rag_bge e) (rag_cohere e) None (rag_environ e ''RERANKER'') q v DEFAULT_RERANK_TOP_K = Inr (reranked, b)"
      using assms by (auto simp: run bind_res_eq_Inr)
    from rerank_passages [OF this] show ?thesis .
  next
    case False
    then have "reranked = take DEFAULT_RERANK_TOP_K v"
      using assms by (auto simp: run bind_res_eq_Inr)
    then show ?thesis using passages_take by simp
  qed
  then show ?thesis using v0 by (auto simp: DEFAULT_RERANK_TOP_K_def)
qed

section \<open>What an answer cites\<close>

text \<open>The citations of an answer are at most six passages of the tenant's rows.\<close>

definition grounded :: "corpus_row set \<Rightarrow> string \<Rightarrow> jdict \<Rightarrow> bool" where
  "grounded rows tenant a \<longleftrightarrow> (\<exists>cs. dict_get a ''citations'' = Some (JList cs) \<and> length cs \<le> 6
     \<and> (\<forall>c \<in> set cs. \<exists>i x sc. c = citation_of tenant (i, x, sc)
          \<and> (\<exists>row \<in> rows. row_tenant row = tenant \<and> i = chunk_id_expr row \<and> x = row_text row)))"

lemma grounded_mono: "grounded rows tenant a \<Longrightarrow> rows \<subseteq> rows' \<Longrightarrow> grounded rows' tenant a"
  unfolding grounded_def by (elim exE conjE, intro exI conjI, assumption, assumption) (meson subsetD)

lemma grounded_citations: "grounded rows tenant a \<Longrightarrow> citations_match tenant a"
proof -
  assume "grounded rows tenant a"
  then obtain cs where cs: "dict_get a ''citations'' = Some (JList cs)"
    and each: "\<forall>c \<in> set cs. \<exists>i x sc. c = citation_of tenant (i, x, sc)"
    unfolding grounded_def by blast
  have "case c of JObj d \<Rightarrow> dict_get d ''tenant_id'' = Some (JStr tenant) | _ \<Rightarrow> True" if "c \<in> set cs" for c
    using each that by (auto simp: citation_of_def)
  then show ?thesis by (simp add: citations_match_def get_or_def cs list_all_iff)
qed

lemma grounded_usage [simp]: "grounded rows tenant (with_usage u a) = grounded rows tenant a"
  by (simp add: grounded_def with_usage_def split: option.split)

lemma fresh_grounded:
  assumes "retrieve_stages e fs t qv q tenant mf = Inr (d, s, rr, b)"
  shows "grounded (set t) tenant (fresh_answer e tenant txt d s rr b)"
proof -
  have "\<exists>i x sc. citation_of tenant h = citation_of tenant (i, x, sc)
      \<and> (\<exists>row \<in> set t. row_tenant row = tenant \<and> i = chunk_id_expr row \<and> x = row_text row)" if "h \<in> set rr" for h
  proof -
    have "(fst h, fst (snd h)) \<in> stored_passages t tenant"
      using retrieve_stages_passages [OF assms] that by (auto simp: passages_def)
    then show ?thesis
      by (intro exI [of _ "fst h"] exI [of _ "fst (snd h)"] exI [of _ "snd (snd h)"]) (auto simp: stored_passages_def)
  qed
  then show ?thesis
    using retrieve_stages_passages [OF assms] by (auto simp: grounded_def fresh_answer_def)
qed

section \<open>A fresh answer in the cache\<close>

lemma citations_match_fresh: "citations_match tenant (fresh_answer e tenant txt d s rr b)"
  by (simp add: citations_match_def fresh_answer_def get_or_def citation_of_def list_all_iff)

lemma fresh_no_usage: "dict_get (fresh_answer e tenant txt d s rr b) ''usage'' = None"
  by (simp add: fresh_answer_def)

text \<open>The floats of an answer are written so that they read back: the scores and the diagnostic.\<close>

definition answer_floats_ok :: "rag_env \<Rightarrow> bool" where
  "answer_floats_ok e \<longleftrightarrow> (\<forall>r. float_ok (rag_fr e) (rag_fl e) r)"

lemma json_ok_elems_all: "json_ok_elems fr fl xs \<longleftrightarrow> (\<forall>x \<in> set xs. json_ok fr fl x)"
  by (induction xs) auto

lemma fresh_json_ok:
  assumes "\<forall>h \<in> set rr. float_ok (rag_fr e) (rag_fl e) (snd (snd h))"
    and "json_ok (rag_fr e) (rag_fl e) (coverage_json (coverage (rag_fl e) d s))"
  shows "json_ok (rag_fr e) (rag_fl e) (JObj (fresh_answer e tenant txt d s rr b))"
  using assms by (simp add: fresh_answer_def dict_ok_def json_ok_elems_all citation_of_def)

lemma rag_fresh_cases:
  assumes "rag_result (retrieve_and_generate e fs t now r q tenant mf) = Inr a"
    and "cache_lookup (rag_fl e) (rag_digest e) now r (rag_encode e q) tenant = Inr None"
  obtains d s rr b m r' where
    "retrieve_stages e fs t (rag_encode e q) q tenant mf = Inr (d, s, rr, b)"
    "rag_llm e (build_prompt q rr) = Inr m"
    "a = with_usage (resp_usage m) (fresh_answer e tenant (first_text (content m)) d s rr b)"
    "cache_store (rag_fr e) (rag_digest e) now r (rag_encode e q) tenant
        (fresh_answer e tenant (first_text (content m)) d s rr b) DEFAULT_TTL_SECONDS = Inr r'"
    "rag_cache (retrieve_and_generate e fs t now r q tenant mf) = r'"
    "rag_prompts (retrieve_and_generate e fs t now r q tenant mf) = [build_prompt q rr]"
  using assms by (auto simp: retrieve_and_generate_def Let_def split: sum.splits prod.splits)

lemma rag_hit:
  assumes "cache_lookup (rag_fl e) (rag_digest e) now r (rag_encode e q) tenant = Inr (Some a)"
  shows "retrieve_and_generate e fs t now r q tenant mf = \<lparr>rag_result = Inr a, rag_cache = r, rag_prompts = []\<rparr>"
  using assms by (simp add: retrieve_and_generate_def Let_def)

section \<open>Properties\<close>

text \<open>
  An answer is grounded in the tenant's own corpus: a generated answer made exactly one model
  call, cites at most six passages, each of them a stored row of the requesting tenant and labelled
  with that tenant; nothing of another tenant can be cited.
\<close>

theorem fresh_answer_grounded:
  assumes "rag_result (retrieve_and_generate e fs t now r q tenant mf) = Inr a"
    and "cache_lookup (rag_fl e) (rag_digest e) now r (rag_encode e q) tenant = Inr None"
  shows "length (rag_prompts (retrieve_and_generate e fs t now r q tenant mf)) = 1
    \<and> (\<exists>cs. dict_get a ''citations'' = Some (JList cs) \<and> length cs \<le> 6
         \<and> (\<forall>c \<in> set cs. \<exists>i x sc. c = citation_of tenant (i, x, sc)
              \<and> (\<exists>row \<in> set t. row_tenant row = tenant \<and> i = chunk_id_expr row \<and> x = row_text row)))
    \<and> citations_match tenant a"
proof -
  obtain d s rr b m r' where st: "retrieve_stages e fs t (rag_encode e q) q tenant mf = Inr (d, s, rr, b)"
    and llm: "rag_llm e (build_prompt q rr) = Inr m"
    and a: "a = with_usage (resp_usage m) (fresh_answer e tenant (first_text (content m)) d s rr b)"
    and p: "rag_prompts (retrieve_and_generate e fs t now r q tenant mf) = [build_prompt q rr]"
    by (rule rag_fresh_cases [OF assms]) blast
  have "grounded (set t) tenant a" using fresh_grounded [OF st] by (simp add: a)
  from grounded_citations [OF this] this show ?thesis
    unfolding grounded_def using p by (intro conjI) (simp, assumption+)
qed

definition demo_rag :: rag_env where
  "demo_rag = \<lparr>rag_encode = (\<lambda>q. [1]), rag_dist = (\<lambda>a b. 0), rag_sims = (\<lambda>v. demo_sims), rag_fts = (\<lambda>q x. False),
     rag_rank = (\<lambda>q x. 0), rag_md = (\<lambda>a b. True), rag_fl = (\<lambda>x. x), rag_fr = (\<lambda>x. if x = 1 then ''1.0'' else ''0.0''),
     rag_digest = (\<lambda>v. replicate 16 CHR ''a''), rag_model = ''m'', rag_bge = demo_bge, rag_cohere = demo_cohere CohTimeout,
     rag_environ = (\<lambda>n. None),
     rag_llm = (\<lambda>p. Inr \<lparr>stop_reason = ''end_turn'', content = [TextBlock ''hi''],
        resp_usage = Some \<lparr>input_tokens = Some 10, output_tokens = Some 2\<rparr>\<rparr>)\<rparr>"

definition demo_flags :: rag_flags where
  "demo_flags = \<lparr>use_hybrid = Some False, use_mmr = Some False, use_rerank = Some False, use_filter = Some False\<rparr>"

lemma demo_stages:
  "retrieve_stages demo_rag demo_flags [row_a] [1] ''q'' ''a'' mf
     = Inr ([(chunk_id_expr row_a, ''x'', 0)], [], [(chunk_id_expr row_a, ''x'', 0)], False)"
  by (simp add: retrieve_stages_def Let_def flag_or_env_def demo_flags_def demo_rag_def dense_topk_filtered_def row_a_def
      DEFAULT_RETRIEVER_K_def DEFAULT_FUSED_K_def DEFAULT_MMR_K_def DEFAULT_RERANK_TOP_K_def)

lemma demo_rag_run:
  "rag_result (retrieve_and_generate demo_rag demo_flags [row_a] 0 [] ''q'' ''a'' None)
     = Inr (with_usage (Some \<lparr>input_tokens = Some 10, output_tokens = Some 2\<rparr>)
        (fresh_answer demo_rag ''a'' ''hi'' [(chunk_id_expr row_a, ''x'', 0)] [] [(chunk_id_expr row_a, ''x'', 0)] False))
   \<and> cache_lookup (rag_fl demo_rag) (rag_digest demo_rag) 0 [] (rag_encode demo_rag ''q'') ''a'' = Inr None"
proof -
  have e: "rag_encode demo_rag ''q'' = [1]"
    "rag_llm demo_rag p = Inr \<lparr>stop_reason = ''end_turn'', content = [TextBlock ''hi''],
        resp_usage = Some \<lparr>input_tokens = Some 10, output_tokens = Some 2\<rparr>\<rparr>" for p
    by (simp_all add: demo_rag_def)
  have c: "cache_lookup fl dg now [] v tn = Inr None" for fl :: "rat \<Rightarrow> rat" and dg :: "rat list \<Rightarrow> string" and now v tn
    by (simp add: cache_lookup_def get_epoch_def r_get_def)
  have st: "\<exists>r'. cache_store fr dg now [] v tn a ttl = Inr r'" for fr and dg :: "rat list \<Rightarrow> string" and now v tn a ttl
    by (simp add: cache_store_def get_epoch_def r_get_def)
  show ?thesis
    using st by (auto simp: retrieve_and_generate_def Let_def e c demo_stages first_text_def split: sum.split)
      (metis Inl_Inr_False)
qed

theorem fresh_answer_grounded_witness:
  "\<exists>a cs. rag_result (retrieve_and_generate demo_rag demo_flags [row_a] 0 [] ''q'' ''a'' None) = Inr a
     \<and> dict_get a ''citations'' = Some (JList cs) \<and> length cs \<le> 6 \<and> citations_match ''a'' a"
  using fresh_answer_grounded [OF conjunct1 [OF demo_rag_run] conjunct2 [OF demo_rag_run]] demo_rag_run by blast

text \<open>
  The cache pays once: after a generated answer, the same question of the same tenant within
  the hour is answered from the cache, with the same fields, no model call and no usage to bill. The
  hit does not depend on the metadata filter or the stage flags of the second request: an answer
  retrieved without a filter is also what a filtered request gets.
\<close>

theorem second_request_hits:
  assumes "rag_result (retrieve_and_generate e fs t now r q tenant mf) = Inr a"
    and "cache_lookup (rag_fl e) (rag_digest e) now r (rag_encode e q) tenant = Inr None"
    and dg: "digest_ok (rag_digest e)" and inv: "cache_inv (rag_digest e) r"
    and floats: "\<forall>d s rr b m. retrieve_stages e fs t (rag_encode e q) q tenant mf = Inr (d, s, rr, b) \<longrightarrow>
        json_ok (rag_fr e) (rag_fl e) (JObj (fresh_answer e tenant m d s rr b))"
    and soon: "later < now + 3600"
  shows "let out = retrieve_and_generate e fs2 t2 later (rag_cache (retrieve_and_generate e fs t now r q tenant mf)) q tenant mf2 in
     rag_prompts out = [] \<and> (\<exists>c. rag_result out = Inr c \<and> dict_get c ''usage'' = None
       \<and> (\<forall>k. k \<noteq> ''usage'' \<longrightarrow> dict_get c k = dict_get a k))"
proof -
  obtain d s rr b m r' where st: "retrieve_stages e fs t (rag_encode e q) q tenant mf = Inr (d, s, rr, b)"
    and llm: "rag_llm e (build_prompt q rr) = Inr m"
    and a: "a = with_usage (resp_usage m) (fresh_answer e tenant (first_text (content m)) d s rr b)"
    and store: "cache_store (rag_fr e) (rag_digest e) now r (rag_encode e q) tenant
        (fresh_answer e tenant (first_text (content m)) d s rr b) DEFAULT_TTL_SECONDS = Inr r'"
    and c: "rag_cache (retrieve_and_generate e fs t now r q tenant mf) = r'"
    by (rule rag_fresh_cases [OF assms(1,2)]) blast
  let ?f = "fresh_answer e tenant (first_text (content m)) d s rr b"
  have j: "json_ok (rag_fr e) (rag_fl e) (JObj ?f)" using floats st by blast
  have hit: "cache_lookup (rag_fl e) (rag_digest e) later r' (rag_encode e q) tenant = Inr (Some ?f)"
    using stored_read [OF j inv store, of later] soon citations_match_fresh by (simp add: DEFAULT_TTL_SECONDS_def)
  have "dict_get ?f k = dict_get a k" if "k \<noteq> ''usage''" for k
    using that by (simp add: a with_usage_def split: option.split)
  then show ?thesis
    using rag_hit [OF hit] fresh_no_usage unfolding c by (simp add: Let_def)
qed

lemma parse_one_place:
  assumes "stop_ok s" and "is_digit c" and "is_digit z"
  shows "parse_num fl ([c, CHR ''.'', z] @ s) = Some (JFloat (fl (decimal_value False [c] [z] None)), s)"
proof -
  have c: "c \<noteq> CHR ''-''" "c \<noteq> CHR ''.''" using assms(2) by (auto simp: is_digit_def digit_val_def)
  have dot: "\<not> is_digit CHR ''.''" by (simp add: is_digit_def digit_val_def)
  have i: "parse_int_part ([c, CHR ''.'', z] @ s) = Some ([c], CHR ''.'' # z # s)"
    using assms(2) dot by (simp add: parse_int_part_def)
  have s: "span is_digit (z # s) = ([z], s)"
    using span_all [of is_digit "[z]" s] assms(3) stop_ok_not_digit [OF assms(1)] by simp
  have f: "parse_frac (CHR ''.'' # z # s) = ([z], s)" by (simp add: parse_frac_def s del: span.simps)
  have x: "parse_exp s = (None, s)"
    using assms(1) by (cases s) (auto simp: parse_exp_def stop_ok_def)
  show ?thesis unfolding parse_num_def using c i by (simp add: f x)
qed

lemma demo_floats: "float_ok (rag_fr demo_rag) (rag_fl demo_rag) 0" "float_ok (rag_fr demo_rag) (rag_fl demo_rag) 1"
proof -
  have "is_digit CHR ''0''" "is_digit CHR ''1''" by (simp_all add: is_digit_def digit_val_def)
  moreover have "decimal_value False ''0'' ''0'' None = 0" "decimal_value False ''1'' ''0'' None = 1"
    by (simp_all add: decimal_value_def digit_val_def)
  ultimately show "float_ok (rag_fr demo_rag) (rag_fl demo_rag) 0" "float_ok (rag_fr demo_rag) (rag_fl demo_rag) 1"
    using parse_one_place [of _ "CHR ''0''" "CHR ''0''" "\<lambda>x. x"] parse_one_place [of _ "CHR ''1''" "CHR ''0''" "\<lambda>x. x"]
    by (auto simp: float_ok_def demo_rag_def)
qed

lemma demo_json:
  "retrieve_stages demo_rag demo_flags [row_a] (rag_encode demo_rag ''q'') ''q'' ''a'' None = Inr (d, s, rr, b)
     \<Longrightarrow> json_ok (rag_fr demo_rag) (rag_fl demo_rag) (JObj (fresh_answer demo_rag ''a'' m d s rr b))"
proof -
  have enc: "rag_encode demo_rag ''q'' = [1]" by (simp add: demo_rag_def)
  have cov: "coverage (rag_fl demo_rag) [(chunk_id_expr row_a, ''x'', 0)] [] = \<lparr>dense_only = 1, sparse_only = 0, both_lists = 0, jaccard = 0\<rparr>"
    by (simp add: coverage_def demo_rag_def)
  assume "retrieve_stages demo_rag demo_flags [row_a] (rag_encode demo_rag ''q'') ''q'' ''a'' None = Inr (d, s, rr, b)"
  then show ?thesis
    using demo_stages [of None] cov demo_floats
    by (intro fresh_json_ok) (auto simp: enc coverage_json_def dict_ok_def)
qed

lemma demo_digest_ok: "digest_ok (rag_digest demo_rag)"
  by (simp add: digest_ok_def demo_rag_def HASH_PREFIX_LENGTH_def)

theorem second_request_hits_witness:
  "rag_prompts (retrieve_and_generate demo_rag demo_flags [] 3599
     (rag_cache (retrieve_and_generate demo_rag demo_flags [row_a] 0 [] ''q'' ''a'' None)) ''q'' ''a'' (Some [])) = []"
  using second_request_hits [OF conjunct1 [OF demo_rag_run] conjunct2 [OF demo_rag_run] demo_digest_ok cache_inv_empty,
      of 3599 demo_flags "[]" "Some []"] demo_json
  by (auto simp: Let_def)

end
