(* ===== verification/RagHistory.thy ===== *)
theory RagHistory
  imports RagPipeline
begin

text \<open>
  The pipeline over time: requests of many tenants, against a corpus that changes between them, and
  ingests that bump a tenant's cache epoch, all on one cache. The invariant says what may lie in a
  bucket; each event keeps it.
\<close>

record rag_request =
  rq_env :: rag_env
  rq_flags :: rag_flags
  rq_rows :: "corpus_row list"
  rq_now :: int
  rq_question :: string
  rq_tenant :: string
  rq_filter :: "jdict option"

definition serve :: "rag_request \<Rightarrow> redis \<Rightarrow> rag_out" where
  "serve q r = retrieve_and_generate (rq_env q) (rq_flags q) (rq_rows q) (rq_now q) r (rq_question q) (rq_tenant q) (rq_filter q)"

datatype rag_event = Ask rag_request | Bumped int string

fun rag_step :: "rag_event \<Rightarrow> redis \<Rightarrow> redis" where
  "rag_step (Ask q) r = rag_cache (serve q r)"
| "rag_step (Bumped now tenant) r = snd (bump_epoch now r tenant)"

fun event_rows :: "rag_event \<Rightarrow> corpus_row set" where
  "event_rows (Ask q) = set (rq_rows q)"
| "event_rows (Bumped now tenant) = {}"

text \<open>
  What is asked of a request: it uses the cache's digest and float functions, and the floats of the
  answer it may store can be written and read back.
\<close>

definition request_ok :: "(rat list \<Rightarrow> string) \<Rightarrow> (rat \<Rightarrow> string) \<Rightarrow> (rat \<Rightarrow> rat) \<Rightarrow> rag_request \<Rightarrow> bool" where
  "request_ok dg fr fl q \<longleftrightarrow> rag_digest (rq_env q) = dg \<and> rag_fr (rq_env q) = fr \<and> rag_fl (rq_env q) = fl
     \<and> (\<forall>d s rr b txt. retrieve_stages (rq_env q) (rq_flags q) (rq_rows q) (rag_encode (rq_env q) (rq_question q))
            (rq_question q) (rq_tenant q) (rq_filter q) = Inr (d, s, rr, b) \<longrightarrow>
          json_ok fr fl (JObj (fresh_answer (rq_env q) (rq_tenant q) txt d s rr b)))"

fun event_ok :: "(rat list \<Rightarrow> string) \<Rightarrow> (rat \<Rightarrow> string) \<Rightarrow> (rat \<Rightarrow> rat) \<Rightarrow> rag_event \<Rightarrow> bool" where
  "event_ok dg fr fl (Ask q) = request_ok dg fr fl q"
| "event_ok dg fr fl (Bumped now tenant) = True"

section \<open>What lies in a bucket\<close>

definition bucket_inv ::
  "(rat list \<Rightarrow> string) \<Rightarrow> (rat \<Rightarrow> string) \<Rightarrow> (rat \<Rightarrow> rat) \<Rightarrow> corpus_row set \<Rightarrow> redis \<Rightarrow> bool" where
  "bucket_inv dg fr fl rows r \<longleftrightarrow>
     (\<forall>v t ep raw x. dict_get r (bucket_key dg v t ep) = Some (raw, x) \<longrightarrow>
        (\<exists>a. raw = dumps fr (JObj a) \<and> json_ok fr fl (JObj a) \<and> grounded rows t a \<and> dict_get a ''usage'' = None))"

lemma bucket_inv_empty: "bucket_inv dg fr fl rows []"
  by (simp add: bucket_inv_def)

lemma bucket_inv_mono: "bucket_inv dg fr fl rows r \<Longrightarrow> rows \<subseteq> rows' \<Longrightarrow> bucket_inv dg fr fl rows' r"
  unfolding bucket_inv_def by (meson grounded_mono)

lemma bump_bucket: "dict_get (snd (bump_epoch now r tenant)) (bucket_key dg v t ep) = dict_get r (bucket_key dg v t ep)"
  by (simp add: bump_epoch_def r_incr_def r_set_def epoch_not_bucket [symmetric] split: option.split)

lemma bucket_inv_bump: "bucket_inv dg fr fl rows r \<Longrightarrow> bucket_inv dg fr fl rows (snd (bump_epoch now r tenant))"
  by (simp add: bucket_inv_def bump_bucket)

lemma bucket_inv_store:
  assumes dg: "digest_ok dg" and inv: "bucket_inv dg fr fl rows r"
    and st: "cache_store fr dg now r v t a ttl = Inr r'"
    and a: "json_ok fr fl (JObj a)" "grounded rows t a" "dict_get a ''usage'' = None"
  shows "bucket_inv dg fr fl rows r'"
proof -
  obtain ep where r': "r' = dict_set (bucket_key dg v t ep) (dumps fr (JObj a), Some (now + ttl)) r"
    using st by (auto simp: cache_store_def bind_res_eq_Inr r_set_def simp del: dumps.simps)
  have "\<exists>b. raw = dumps fr (JObj b) \<and> json_ok fr fl (JObj b) \<and> grounded rows t2 b \<and> dict_get b ''usage'' = None"
    if get: "dict_get r' (bucket_key dg v2 t2 ep2) = Some (raw, x)" for v2 t2 ep2 raw x
  proof (cases "bucket_key dg v2 t2 ep2 = bucket_key dg v t ep")
    case True
    then have "t2 = t" using bucket_key_inj [OF dg True] by simp
    then show ?thesis using get a True by (intro exI [of _ a]) (simp add: r' del: dumps.simps)
  next
    case False
    then have "dict_get r (bucket_key dg v2 t2 ep2) = Some (raw, x)" using get by (simp add: r' del: dumps.simps)
    then show ?thesis using inv unfolding bucket_inv_def by blast
  qed
  then show ?thesis unfolding bucket_inv_def by blast
qed

lemma bucket_inv_lookup:
  assumes inv: "bucket_inv dg fr fl rows r" and hit: "cache_lookup fl dg now r v t = Inr (Some a)"
  shows "grounded rows t a \<and> dict_get a ''usage'' = None"
proof -
  obtain ep raw w where get: "r_get now r (bucket_key dg v t ep) = Some raw" and w: "loads fl raw = Inr w"
    and body: "(case w of JObj a \<Rightarrow> Inr (if citations_match t a then Some a else None)
       | _ \<Rightarrow> Inl (OtherError ''AttributeError'' ''get'')) = (Inr (Some a) :: jdict option res)"
    using hit by (auto simp: cache_lookup_def bind_res_eq_Inr split: option.splits)
  have ld: "loads fl raw = Inr (JObj a)"
    using body w by (cases w) (auto split: if_splits)
  obtain x where "dict_get r (bucket_key dg v t ep) = Some (raw, x)"
    using get by (auto simp: r_get_def split: option.splits if_splits)
  then obtain b where b: "raw = dumps fr (JObj b)" "json_ok fr fl (JObj b)" "grounded rows t b" "dict_get b ''usage'' = None"
    using inv unfolding bucket_inv_def by blast
  have "a = b" using loads_dumps [OF b(2)] ld unfolding b(1) by simp
  then show ?thesis using b by simp
qed

section \<open>One request\<close>

lemma serve_keeps:
  assumes dg: "digest_ok dg" and ok: "request_ok dg fr fl q" and inv: "bucket_inv dg fr fl rows r" and sub: "set (rq_rows q) \<subseteq> rows"
  shows "bucket_inv dg fr fl rows (rag_cache (serve q r))
    \<and> (\<forall>a. rag_result (serve q r) = Inr a \<longrightarrow> grounded rows (rq_tenant q) a
         \<and> (rag_prompts (serve q r) = [] \<longrightarrow> dict_get a ''usage'' = None))"
proof -
  let ?e = "rq_env q" and ?v = "rag_encode (rq_env q) (rq_question q)"
  have same: "rag_digest ?e = dg" "rag_fr ?e = fr" "rag_fl ?e = fl" using ok by (simp_all add: request_ok_def)
  show ?thesis
  proof (cases "cache_lookup fl dg (rq_now q) r ?v (rq_tenant q)")
    case (Inl x)
    then show ?thesis using inv by (simp add: serve_def retrieve_and_generate_def Let_def same)
  next
    case (Inr h)
    show ?thesis
    proof (cases h)
      case (Some a)
      then have "serve q r = \<lparr>rag_result = Inr a, rag_cache = r, rag_prompts = []\<rparr>"
        using Inr rag_hit [of ?e "rq_now q" r "rq_question q" "rq_tenant q" a] by (simp add: serve_def same)
      then show ?thesis using inv bucket_inv_lookup [OF inv] Inr Some by simp
    next
      case None
      note miss = Inr [unfolded None]
      show ?thesis
      proof (cases "retrieve_stages ?e (rq_flags q) (rq_rows q) ?v (rq_question q) (rq_tenant q) (rq_filter q)")
        case (Inl x)
        then show ?thesis using inv miss by (simp add: serve_def retrieve_and_generate_def Let_def same)
      next
        case (Inr y)
        obtain d s rr b where y: "y = (d, s, rr, b)" by (cases y)
        note st = Inr [unfolded y]
        show ?thesis
        proof (cases "rag_llm ?e (build_prompt (rq_question q) rr)")
          case (Inl x)
          then show ?thesis using inv miss st by (simp add: serve_def retrieve_and_generate_def Let_def same)
        next
          case (Inr m)
          let ?a = "fresh_answer ?e (rq_tenant q) (first_text (content m)) d s rr b"
          have gr: "grounded rows (rq_tenant q) ?a" using fresh_grounded [OF st] grounded_mono sub by blast
          have js: "json_ok fr fl (JObj ?a)" using ok st by (simp add: request_ok_def del: json_ok.simps)
          show ?thesis
          proof (cases "cache_store fr dg (rq_now q) r ?v (rq_tenant q) ?a DEFAULT_TTL_SECONDS")
            case (Inl x)
            then show ?thesis using inv miss st Inr by (simp add: serve_def retrieve_and_generate_def Let_def same)
          next
            case (Inr r')
            have "serve q r = \<lparr>rag_result = Inr (with_usage (resp_usage m) ?a), rag_cache = r',
                rag_prompts = [build_prompt (rq_question q) rr]\<rparr>"
              using miss st \<open>rag_llm _ _ = _\<close> Inr by (simp add: serve_def retrieve_and_generate_def Let_def same)
            then show ?thesis using bucket_inv_store [OF dg inv Inr js gr fresh_no_usage] gr by simp
          qed
        qed
      qed
    qed
  qed
qed

lemma history_buckets:
  assumes "digest_ok dg" and "\<forall>ev \<in> set evs. event_ok dg fr fl ev \<and> event_rows ev \<subseteq> rows" and "bucket_inv dg fr fl rows r"
  shows "bucket_inv dg fr fl rows (fold rag_step evs r)"
  using assms(2,3)
proof (induction evs arbitrary: r)
  case (Cons ev evs)
  have "bucket_inv dg fr fl rows (rag_step ev r)"
  proof (cases ev)
    case (Ask q)
    then show ?thesis using serve_keeps [OF assms(1) _ Cons.prems(2)] Cons.prems(1) by simp
  next
    case (Bumped now t)
    then show ?thesis using bucket_inv_bump [OF Cons.prems(2)] by simp
  qed
  then show ?case using Cons by simp
qed simp

section \<open>Properties\<close>

text \<open>
  C1. Tenant isolation over time: after any history of requests and epoch bumps of any tenants,
  against any versions of the corpus, whatever a request is answered with, from the model or from
  the cache, cites at most six passages, and each is a row its own tenant had in the corpus of this
  request or of an earlier one; and an answer that needed no model call carries no usage to bill.
\<close>

theorem history_grounded:
  assumes dg: "digest_ok dg" and past: "\<forall>ev \<in> set evs. event_ok dg fr fl ev" and ok: "request_ok dg fr fl q"
    and out: "out = serve q (fold rag_step evs [])" and a: "rag_result out = Inr a"
  shows "\<exists>cs. dict_get a ''citations'' = Some (JList cs) \<and> length cs \<le> 6
    \<and> (\<forall>c \<in> set cs. \<exists>i x sc row. c = citation_of (rq_tenant q) (i, x, sc) \<and> row_tenant row = rq_tenant q
         \<and> i = chunk_id_expr row \<and> x = row_text row \<and> (row \<in> set (rq_rows q) \<or> (\<exists>ev \<in> set evs. row \<in> event_rows ev)))
    \<and> (rag_prompts out = [] \<longrightarrow> dict_get a ''usage'' = None)"
proof -
  let ?rows = "set (rq_rows q) \<union> (\<Union>ev \<in> set evs. event_rows ev)"
  have "bucket_inv dg fr fl ?rows (fold rag_step evs [])"
    using history_buckets [OF dg _ bucket_inv_empty, of evs fr fl ?rows] past by blast
  from serve_keeps [OF dg ok this] have "grounded ?rows (rq_tenant q) a"
    and "rag_prompts out = [] \<longrightarrow> dict_get a ''usage'' = None"
    using a out by auto
  then show ?thesis unfolding grounded_def by fastforce
qed

definition demo_ask :: "int \<Rightarrow> corpus_row list \<Rightarrow> rag_request" where
  "demo_ask now rows = \<lparr>rq_env = demo_rag, rq_flags = demo_flags, rq_rows = rows, rq_now = now, rq_question = ''q'',
     rq_tenant = ''a'', rq_filter = None\<rparr>"

theorem history_grounded_witness:
  "\<exists>a cs. rag_result (serve (demo_ask 10 [row_a]) (fold rag_step [Ask (demo_ask 0 [row_a])] [])) = Inr a
     \<and> rag_prompts (serve (demo_ask 10 [row_a]) (fold rag_step [Ask (demo_ask 0 [row_a])] [])) = []
     \<and> dict_get a ''citations'' = Some (JList cs) \<and> length cs \<le> 6 \<and> dict_get a ''usage'' = None"
proof -
  have ok: "request_ok (rag_digest demo_rag) (rag_fr demo_rag) (rag_fl demo_rag) (demo_ask n [row_a])" for n
    using demo_json by (simp add: request_ok_def demo_ask_def del: json_ok.simps)
  have past: "\<forall>ev \<in> set [Ask (demo_ask 0 [row_a])]. event_ok (rag_digest demo_rag) (rag_fr demo_rag) (rag_fl demo_rag) ev"
    using ok by simp
  obtain d s rr b m r' where st: "retrieve_stages demo_rag demo_flags [row_a] (rag_encode demo_rag ''q'') ''q'' ''a'' None = Inr (d, s, rr, b)"
    and llm: "rag_llm demo_rag (build_prompt ''q'' rr) = Inr m"
    and store: "cache_store (rag_fr demo_rag) (rag_digest demo_rag) 0 [] (rag_encode demo_rag ''q'') ''a''
        (fresh_answer demo_rag ''a'' (first_text (content m)) d s rr b) DEFAULT_TTL_SECONDS = Inr r'"
    and c: "rag_cache (retrieve_and_generate demo_rag demo_flags [row_a] 0 [] ''q'' ''a'' None) = r'"
    by (rule rag_fresh_cases [OF conjunct1 [OF demo_rag_run] conjunct2 [OF demo_rag_run]]) blast
  have "cache_lookup (rag_fl demo_rag) (rag_digest demo_rag) 10 r' (rag_encode demo_rag ''q'') ''a''
      = Inr (Some (fresh_answer demo_rag ''a'' (first_text (content m)) d s rr b))"
    using stored_read [OF demo_json [OF st] cache_inv_empty store, of 10] citations_match_fresh by (simp add: DEFAULT_TTL_SECONDS_def)
  from rag_hit [OF this, of demo_flags "[row_a]" None]
  have run: "serve (demo_ask 10 [row_a]) (fold rag_step [Ask (demo_ask 0 [row_a])] [])
      = \<lparr>rag_result = Inr (fresh_answer demo_rag ''a'' (first_text (content m)) d s rr b), rag_cache = r', rag_prompts = []\<rparr>"
    by (simp add: serve_def demo_ask_def c)
  then show ?thesis
    using history_grounded [OF demo_digest_ok past ok [of 10] refl] by (auto simp: run)
qed

end
