(* ===== verification/Decimal.thy ===== *)
theory Decimal
  imports Json
begin

text \<open>
  Python's \<open>decimal.Decimal\<close>, as far as the tool server uses it: construction from a text, which is
  exact, \<open>str\<close>, \<open>int\<close>, comparison of values, the product with an integer in the default context
  (28 digits, half even), and \<open>quantize\<close> with \<open>ROUND_HALF_UP\<close>. A finite decimal keeps its
  coefficient and exponent apart, because \<open>10.00\<close> and \<open>10\<close> are the same number and different
  amounts of money. Where the library raises a subclass of \<open>ArithmeticError\<close> the result is \<open>None\<close>.
\<close>

section \<open>Values\<close>

datatype dec = DFin bool nat int | DInf bool | DNan bool

definition scale10 :: "int \<Rightarrow> rat" where
  "scale10 e = (if 0 \<le> e then 10 ^ nat e else 1 / 10 ^ nat (- e))"

fun dec_value :: "dec \<Rightarrow> rat option" where
  "dec_value (DFin neg c e) = Some ((if neg then - 1 else 1) * of_nat c * scale10 e)"
| "dec_value _ = None"

lemma scale10_pos [simp]: "0 < scale10 e"
  by (simp add: scale10_def)

lemma scale10_nz [simp]: "scale10 e \<noteq> 0"
  using scale10_pos [of e] by linarith

lemma scale10_Suc: "scale10 (e + 1) = 10 * scale10 e"
proof (cases "0 \<le> e")
  case True
  then have "nat (e + 1) = Suc (nat e)" by simp
  then show ?thesis using True by (simp add: scale10_def)
next
  case False
  then have "nat (- e) = Suc (nat (- (e + 1)))" by simp
  then show ?thesis using False by (cases "e = - 1") (auto simp: scale10_def)
qed

lemma scale10_add: "scale10 (e + int n) = 10 ^ n * scale10 e"
proof (induction n)
  case (Suc n)
  have "scale10 (e + int (Suc n)) = scale10 ((e + int n) + 1)" by (simp add: algebra_simps)
  then show ?case using Suc unfolding scale10_Suc by simp
qed simp

definition ndigits :: "nat \<Rightarrow> nat" where
  "ndigits c = length (nat_str c)"

lemma nat_str_bounds: "n < 10 ^ length (nat_str n) \<and> (0 < n \<longrightarrow> 10 ^ (length (nat_str n) - 1) \<le> n)"
proof (induction n rule: nat_str.induct)
  case (1 n)
  show ?case
  proof (cases "n < 10")
    case True
    then show ?thesis by (simp add: nat_str.simps [of n])
  next
    case False
    then have ih: "n div 10 < 10 ^ length (nat_str (n div 10))" "10 ^ (length (nat_str (n div 10)) - 1) \<le> n div 10"
      using 1 by auto
    have len: "length (nat_str n) = Suc (length (nat_str (n div 10)))" using False by (simp add: nat_str.simps [of n])
    have ne: "0 < length (nat_str (n div 10))" by simp
    then have pw: "10 * 10 ^ (length (nat_str (n div 10)) - 1) = (10 :: nat) ^ length (nat_str (n div 10))"
      by (cases "length (nat_str (n div 10))") auto
    have "n < 10 * 10 ^ length (nat_str (n div 10))" using ih(1) by linarith
    moreover have "10 ^ length (nat_str (n div 10)) \<le> n" using ih(2) pw by linarith
    ultimately show ?thesis by (simp add: len)
  qed
qed

lemma ndigits_le: "c < 10 ^ k \<Longrightarrow> 0 < k \<Longrightarrow> ndigits c \<le> k"
proof (rule ccontr)
  assume c: "c < 10 ^ k" and k: "0 < k" and "\<not> ndigits c \<le> k"
  then have big: "k \<le> ndigits c - 1" by simp
  show False
  proof (cases "c = 0")
    case True
    then show ?thesis using \<open>\<not> ndigits c \<le> k\<close> k by (simp add: ndigits_def nat_str.simps [of 0])
  next
    case False
    then have "(10 :: nat) ^ (ndigits c - 1) \<le> c" using nat_str_bounds [of c] by (simp add: ndigits_def)
    moreover have "(10 :: nat) ^ k \<le> 10 ^ (ndigits c - 1)" using big by (rule power_increasing) simp
    ultimately show ?thesis using c by linarith
  qed
qed

lemma ndigits_ge: "10 ^ k \<le> c \<Longrightarrow> k < ndigits c"
proof (rule ccontr)
  assume c: "10 ^ k \<le> c" and "\<not> k < ndigits c"
  then have "(10 :: nat) ^ ndigits c \<le> 10 ^ k" by (intro power_increasing) auto
  then have "(10 :: nat) ^ ndigits c \<le> c" using c by (rule order_trans)
  then show False using nat_str_bounds [of c] by (simp add: ndigits_def)
qed

section \<open>Reading and printing\<close>

text \<open>The widest exponents the library accepts; a text beyond them is \<open>InvalidOperation\<close>.\<close>

definition dec_limits :: "nat \<Rightarrow> int \<Rightarrow> bool" where
  "dec_limits c e \<longleftrightarrow> - 1999999999999999997 \<le> e \<and> e + int (ndigits c) - 1 \<le> 999999999999999999"

definition split_sign :: "string \<Rightarrow> bool \<times> string" where
  "split_sign s = (case s of [] \<Rightarrow> (False, []) | c # r \<Rightarrow>
     if c = CHR ''-'' then (True, r) else if c = CHR ''+'' then (False, r) else (False, s))"

text \<open>The exponent part: nothing, or \<open>e\<close>, an optional sign and at least one digit to the end.\<close>

definition dec_exp :: "string \<Rightarrow> int option" where
  "dec_exp s = (case s of [] \<Rightarrow> Some 0 | c # r \<Rightarrow>
     (if c = CHR ''e'' \<or> c = CHR ''E'' then
        (let (neg, ds) = split_sign r in
         if isdigit ds then Some (if neg then - int (digits_val 0 ds) else int (digits_val 0 ds)) else None)
      else None))"

definition dec_number :: "bool \<Rightarrow> string \<Rightarrow> dec option" where
  "dec_number neg s =
     (let (ip, r1) = span is_digit s;
          (fp, r2) = (case r1 of [] \<Rightarrow> ([], []) | c # r \<Rightarrow> if c = CHR ''.'' then span is_digit r else ([], r1))
      in if ip = [] \<and> fp = [] then None
         else case dec_exp r2 of None \<Rightarrow> None
           | Some x \<Rightarrow> (let c = digits_val 0 (ip @ fp); e = x - int (length fp) in
               if dec_limits c e then Some (DFin neg c e) else None))"

definition dec_special :: "bool \<Rightarrow> string \<Rightarrow> dec option" where
  "dec_special neg s = (let b = lower s in
     if b = ''inf'' \<or> b = ''infinity'' then Some (DInf neg)
     else if starts_with b ''nan'' \<and> list_all is_digit (drop 3 b) then Some (DNan False)
     else if starts_with b ''snan'' \<and> list_all is_digit (drop 4 b) then Some (DNan True)
     else None)"

definition dec_parse :: "string \<Rightarrow> dec option" where
  "dec_parse s =
     (let (neg, b) = split_sign (filter (\<lambda>c. c \<noteq> CHR ''_'') (strip s))
      in case dec_number neg b of Some d \<Rightarrow> Some d | None \<Rightarrow> dec_special neg b)"

text \<open>\<open>str\<close>: positional notation while the exponent is not positive and the value not tiny.\<close>

definition dec_str :: "dec \<Rightarrow> string" where
  "dec_str d = (case d of
     DInf neg \<Rightarrow> (if neg then ''-Infinity'' else ''Infinity'')
   | DNan sn \<Rightarrow> (if sn then ''sNaN'' else ''NaN'')
   | DFin neg c e \<Rightarrow>
       (let ds = nat_str c; left = e + int (length ds);
            body = (if e \<le> 0 \<and> - 6 < left then
                      (if left \<le> 0 then ''0.'' @ replicate (nat (- left)) CHR ''0'' @ ds
                       else if e = 0 then ds
                       else take (nat left) ds @ ''.'' @ drop (nat left) ds)
                    else take 1 ds @ (if length ds = 1 then [] else ''.'' @ drop 1 ds) @ ''E''
                         @ (if left - 1 < 0 then ''-'' else ''+'') @ nat_str (nat \<bar>left - 1\<bar>))
        in (if neg then ''-'' else []) @ body))"

section \<open>Reading back what was printed\<close>

lemma digits_val_zeros: "digits_val 0 (replicate n CHR ''0'' @ ds) = digits_val 0 ds"
proof (induction n)
  case (Suc n)
  have "digit_val CHR ''0'' = Some 0" by (simp add: digit_val_def)
  then show ?case using Suc by simp
qed simp

lemma digit_zero: "is_digit CHR ''0''"
  by (simp add: is_digit_def digit_val_def)

lemma not_digit_marks: "\<not> is_digit CHR ''.''" "\<not> is_digit CHR ''E''" "\<not> is_digit CHR ''+''" "\<not> is_digit CHR ''_''"
  by (simp_all add: is_digit_def digit_val_def)

lemma digit_not_space: "is_digit c \<Longrightarrow> \<not> is_space c"
  by (auto simp: is_digit_def digit_val_def is_space_def Let_def split: if_splits)

lemma digits_take: "list_all is_digit (take k (nat_str n))" "list_all is_digit (drop k (nat_str n))"
  using nat_str_digits [of n] by (auto simp: list_all_iff dest: in_set_takeD in_set_dropD)

lemma span_digits: "list_all is_digit s \<Longrightarrow> (r = [] \<or> \<not> is_digit (hd r)) \<Longrightarrow> span is_digit (s @ r) = (s, r)"
  by (rule span_all)

lemma dec_number_parts:
  assumes ip: "list_all is_digit ip" and fp: "list_all is_digit fp" and some: "ip \<noteq> [] \<or> fp \<noteq> []"
    and ex: "dec_exp r = Some x" and stop: "r = [] \<or> \<not> is_digit (hd r)"
    and lim: "dec_limits (digits_val 0 (ip @ fp)) (x - int (length fp))"
  shows "dec_number neg (ip @ ''.'' @ fp @ r) = Some (DFin neg (digits_val 0 (ip @ fp)) (x - int (length fp)))"
proof -
  have "span is_digit (ip @ ''.'' @ fp @ r) = (ip, ''.'' @ fp @ r)"
    by (rule span_digits [OF ip]) (simp add: not_digit_marks)
  then show ?thesis
    using span_digits [OF fp stop] some ex lim by (auto simp: dec_number_def Let_def)
qed

lemma dec_number_whole:
  assumes ip: "list_all is_digit ip" and some: "ip \<noteq> []" and ex: "dec_exp r = Some x"
    and stop: "r = [] \<or> \<not> is_digit (hd r) \<and> hd r \<noteq> CHR ''.''" and lim: "dec_limits (digits_val 0 ip) x"
  shows "dec_number neg (ip @ r) = Some (DFin neg (digits_val 0 ip) x)"
proof -
  have "span is_digit (ip @ r) = (ip, r)" by (rule span_digits [OF ip]) (use stop in auto)
  then show ?thesis using some ex lim stop by (cases r) (auto simp: dec_number_def Let_def)
qed

lemma dec_exp_printed: "dec_exp (''E'' @ (if x < 0 then ''-'' else ''+'') @ nat_str (nat \<bar>x\<bar>)) = Some x"
  by (simp add: dec_exp_def split_sign_def digits_val_nat_str)

text \<open>What is printed has no white space and no underscore, and starts with a digit or a sign.\<close>

definition dec_char :: "char \<Rightarrow> bool" where
  "dec_char c \<longleftrightarrow> is_digit c \<or> c \<in> {CHR ''.'', CHR ''E'', CHR ''-'', CHR ''+''}"

lemma dec_char_plain: "dec_char c \<Longrightarrow> \<not> is_space c \<and> c \<noteq> CHR ''_''"
proof (cases "is_digit c")
  case True
  then show ?thesis using digit_not_space not_digit_marks by blast
qed (auto simp: dec_char_def is_space_def)

lemma dec_char_simps [simp]:
  "dec_char CHR ''.''" "dec_char CHR ''E''" "dec_char CHR ''-''" "dec_char CHR ''+''" "dec_char CHR ''0''"
  using digit_zero by (simp_all add: dec_char_def)

lemma list_all_replicate [simp]: "list_all p (replicate n c) \<longleftrightarrow> n = 0 \<or> p c"
  by (induction n) auto

lemma strip_plain:
  assumes "list_all (\<lambda>c. \<not> is_space c) s"
  shows "strip s = s"
proof -
  have "dropWhile is_space t = t" if "list_all (\<lambda>c. \<not> is_space c) t" for t
    using that by (cases t) auto
  then show ?thesis using assms by (simp add: strip_def)
qed

lemma dec_chars_take: "list_all dec_char (take k (nat_str n))" "list_all dec_char (drop k (nat_str n))" "list_all dec_char (nat_str n)"
  using digits_take [of k n] nat_str_digits [of n] unfolding list_all_iff dec_char_def by blast+

lemma dec_str_chars: "list_all dec_char (dec_str (DFin neg c e))"
  by (simp add: dec_str_def Let_def dec_chars_take)

lemma nat_str_hd: "is_digit (hd (nat_str n))"
  using nat_str_digits [of n] nat_str_nonempty [of n] unfolding list_all_iff by (metis list.set_sel(1))

lemma split_sign_digit: "s \<noteq> [] \<Longrightarrow> is_digit (hd s) \<Longrightarrow> split_sign s = (False, s)"
  using not_digit_marks by (cases s) (auto simp: split_sign_def)

text \<open>The printed form without its sign, and what reading it gives.\<close>

definition dec_body :: "nat \<Rightarrow> int \<Rightarrow> string" where
  "dec_body c e = dec_str (DFin False c e)"

lemma dec_str_body: "dec_str (DFin neg c e) = (if neg then ''-'' else []) @ dec_body c e"
  by (simp add: dec_body_def dec_str_def Let_def)

lemma dec_body_hd: "dec_body c e \<noteq> [] \<and> is_digit (hd (dec_body c e))"
proof -
  have ne: "nat_str c \<noteq> []" by simp
  then obtain d ds where ds: "nat_str c = d # ds" by (cases "nat_str c") auto
  then have d: "is_digit d" using nat_str_hd [of c] by simp
  show ?thesis
    using d digit_zero by (auto simp: dec_body_def dec_str_def Let_def ds hd_append take_Cons split: nat.split)
qed

lemma dec_number_body:
  assumes "dec_limits c e"
  shows "dec_number neg (dec_body c e) = Some (DFin neg c e)"
proof -
  let ?ds = "nat_str c" and ?left = "e + int (length (nat_str c))"
  have dg: "list_all is_digit ?ds" by (rule nat_str_digits)
  have val: "digits_val 0 ?ds = c" by (rule digits_val_nat_str)
  have none: "dec_exp [] = Some 0" by (simp add: dec_exp_def)
  consider (small) "e \<le> 0" "- 6 < ?left" "?left \<le> 0" | (whole) "e = 0" "0 < ?left"
    | (mid) "e < 0" "0 < ?left" | (sci) "\<not> (e \<le> 0 \<and> - 6 < ?left)" by linarith
  then show ?thesis
  proof cases
    case small
    define fp where "fp = replicate (nat (- ?left)) CHR ''0'' @ ?ds"
    have len: "0 - int (length fp) = e" using small by (simp add: fp_def)
    have body: "dec_body c e = ''0'' @ ''.'' @ fp @ []"
      using small by (simp add: dec_body_def dec_str_def Let_def fp_def)
    have "digits_val 0 (replicate (Suc (nat (- ?left))) CHR ''0'' @ ?ds) = c"
      unfolding digits_val_zeros by (rule val)
    then have v: "digits_val 0 (''0'' @ fp) = c" by (simp add: fp_def)
    have "list_all is_digit ''0''" "list_all is_digit fp" using dg digit_zero by (simp_all add: fp_def)
    from dec_number_parts [OF this _ none, of neg] show ?thesis
      unfolding body v len using assms by simp
  next
    case whole
    have "dec_body c e = ?ds @ []" using whole by (simp add: dec_body_def dec_str_def Let_def)
    then show ?thesis using dec_number_whole [OF dg, of "[]" 0 neg] none assms val whole by simp
  next
    case mid
    have len: "int (length (drop (nat ?left) ?ds)) = - e" using mid by auto
    have "dec_body c e = take (nat ?left) ?ds @ ''.'' @ drop (nat ?left) ?ds @ []"
      using mid by (simp add: dec_body_def dec_str_def Let_def)
    moreover have "take (nat ?left) ?ds \<noteq> []" using mid by simp
    ultimately show ?thesis
      using dec_number_parts [OF digits_take(1) [of "nat ?left" c] digits_take(2) [of "nat ?left" c], of "[]" 0 neg]
        none assms len val by simp
  next
    case sci
    let ?x = "?left - 1" and ?r = "''E'' @ (if ?left - 1 < 0 then ''-'' else ''+'') @ nat_str (nat \<bar>?left - 1\<bar>)"
    have ex: "dec_exp ?r = Some ?x" by (rule dec_exp_printed)
    have body: "dec_body c e = take 1 ?ds @ (if length ?ds = 1 then [] else ''.'' @ drop 1 ?ds) @ ?r"
      using sci by (auto simp: dec_body_def dec_str_def Let_def)
    have t1: "take 1 ?ds \<noteq> []" by simp
    show ?thesis
    proof (cases "length ?ds = 1")
      case True
      then have "dec_body c e = ?ds @ ?r" unfolding body by simp
      then show ?thesis using dec_number_whole [OF dg _ ex, of neg] assms val True not_digit_marks by simp
    next
      case False
      have "0 < length ?ds" by simp
      then have len: "int (length (drop 1 ?ds)) = int (length ?ds) - 1" by (cases "length ?ds") auto
      have "dec_body c e = take 1 ?ds @ ''.'' @ drop 1 ?ds @ ?r" unfolding body using False by simp
      moreover have "dec_limits (digits_val 0 (take 1 ?ds @ drop 1 ?ds)) (?x - int (length (drop 1 ?ds)))"
        using assms len val by (simp only: append_take_drop_id) (simp add: algebra_simps)
      moreover have "?x - int (length (drop 1 ?ds)) = e" using len by simp
      ultimately show ?thesis
        using dec_number_parts [OF digits_take(1) [of 1 c] digits_take(2) [of 1 c] _ ex, of neg] t1 not_digit_marks val
        by (simp only: append_take_drop_id) simp
    qed
  qed
qed

lemma dec_parse_str:
  assumes "dec_limits c e"
  shows "dec_parse (dec_str (DFin neg c e)) = Some (DFin neg c e)"
proof -
  have plain: "list_all (\<lambda>c. \<not> is_space c) (dec_str (DFin neg c e))" "list_all (\<lambda>c. c \<noteq> CHR ''_'') (dec_str (DFin neg c e))"
    using dec_str_chars [of neg c e] dec_char_plain unfolding list_all_iff by blast+
  then have "filter (\<lambda>c. c \<noteq> CHR ''_'') (strip (dec_str (DFin neg c e))) = dec_str (DFin neg c e)"
    by (simp add: strip_plain list_all_iff filter_id_conv)
  moreover have "split_sign (dec_str (DFin neg c e)) = (neg, dec_body c e)"
    using dec_body_hd [of c e] split_sign_digit [of "dec_body c e"]
    by (cases neg) (simp_all add: dec_str_body, simp add: split_sign_def)
  ultimately show ?thesis by (simp add: dec_parse_def dec_number_body [OF assms])
qed

section \<open>Arithmetic\<close>

text \<open>\<open>int\<close> truncates towards zero; an infinity or a NaN raises.\<close>

fun dec_trunc :: "dec \<Rightarrow> int option" where
  "dec_trunc (DFin neg c e) =
     (let n = (if 0 \<le> e then c * 10 ^ nat e else c div 10 ^ nat (- e)) in Some (if neg then - int n else int n))"
| "dec_trunc _ = None"

definition div_half_even :: "nat \<Rightarrow> nat \<Rightarrow> nat" where
  "div_half_even c p = (let q = c div p; r = c mod p in if p < 2 * r \<or> (2 * r = p \<and> odd q) then q + 1 else q)"

definition div_half_up :: "nat \<Rightarrow> nat \<Rightarrow> nat" where
  "div_half_up c p = (let q = c div p; r = c mod p in if p \<le> 2 * r then q + 1 else q)"

text \<open>
  The default context: 28 digits, exponents from -999999 to 999999. Digits that do not fit are
  rounded half to even, tiny results to the smallest exponent; a result that is too large raises.
\<close>

definition ctx_round :: "nat \<Rightarrow> int \<Rightarrow> (nat \<times> int) option" where
  "ctx_round c e =
     (let surplus = max (int (ndigits c) - 28) (- 1000026 - e);
          (c1, e1) = (if surplus \<le> 0 then (c, e)
                      else (let q = div_half_even c (10 ^ nat surplus)
                            in if 28 < ndigits q then (q div 10, e + surplus + 1) else (q, e + surplus)))
      in if c1 \<noteq> 0 \<and> 999999 < e1 + int (ndigits c1) - 1 then None else Some (c1, e1))"

fun dec_mul_nat :: "dec \<Rightarrow> nat \<Rightarrow> dec option" where
  "dec_mul_nat (DFin neg c e) n = map_option (\<lambda>(c', e'). DFin neg c' e') (ctx_round (c * n) e)"
| "dec_mul_nat (DInf neg) n = (if n = 0 then None else Some (DInf neg))"
| "dec_mul_nat (DNan signals) n = (if signals then None else Some (DNan False))"

text \<open>\<open>quantize\<close> to exponent \<open>q\<close>, half up; a coefficient of more than 28 digits raises.\<close>

fun dec_quantize :: "dec \<Rightarrow> int \<Rightarrow> dec option" where
  "dec_quantize (DFin neg c e) q =
     (let c' = (if q \<le> e then c * 10 ^ nat (e - q) else div_half_up c (10 ^ nat (q - e)))
      in if 28 < ndigits c' then None else Some (DFin neg c' q))"
| "dec_quantize (DInf neg) q = None"
| "dec_quantize (DNan signals) q = (if signals then None else Some (DNan False))"

lemma scale10_diff:
  assumes "q \<le> e"
  shows "scale10 e = 10 ^ nat (e - q) * scale10 q"
  using scale10_add [of q "nat (e - q)"] assms by simp

lemma dec_trunc_bounds:
  assumes "dec_trunc (DFin False c e) = Some n"
  shows "of_int n \<le> of_nat c * scale10 e \<and> of_nat c * scale10 e < of_int n + 1 \<and> 0 \<le> n"
proof (cases "0 \<le> e")
  case True
  then show ?thesis using assms by (auto simp: scale10_def Let_def)
next
  case False
  let ?p = "10 ^ nat (- e) :: nat"
  have n: "n = int (c div ?p)" using assms False by (simp add: Let_def)
  have e: "c div ?p * ?p + c mod ?p = c" and r: "c mod ?p < ?p" by (rule div_mult_mod_eq, rule mod_less_divisor) simp
  have lo: "c div ?p * ?p \<le> c" using e by linarith
  have "(c div ?p + 1) * ?p = c div ?p * ?p + ?p" by simp
  then have hi: "c < (c div ?p + 1) * ?p" using e r by linarith
  from lo hi have "of_nat (c div ?p * ?p) \<le> (of_nat c :: rat)" "(of_nat c :: rat) < of_nat ((c div ?p + 1) * ?p)"
    by (simp_all only: of_nat_le_iff of_nat_less_iff)
  then show ?thesis using False by (simp add: n scale10_def field_simps)
qed

lemma dec_mul_nat_exact:
  assumes "c * n < 10 ^ 28" and "- 1000026 \<le> e" and "e \<le> 999900"
  shows "dec_mul_nat (DFin neg c e) n = Some (DFin neg (c * n) e)"
proof -
  have "ndigits (c * n) \<le> 28" using ndigits_le [OF assms(1)] by simp
  then show ?thesis using assms by (simp add: ctx_round_def Let_def)
qed

text \<open>Quantizing keeps the value exactly when the value is a multiple of the new unit.\<close>

lemma div_half_up_exact:
  fixes p :: nat
  assumes "0 < p"
  shows "div_half_up c p * p = c \<longleftrightarrow> p dvd c"
proof
  assume h: "div_half_up c p * p = c"
  show "p dvd c" by (rule dvdI [of _ _ "div_half_up c p"]) (use h in \<open>simp add: mult.commute\<close>)
next
  assume "p dvd c"
  then have "c mod p = 0" by simp
  then show "div_half_up c p * p = c" using \<open>p dvd c\<close> assms by (simp add: div_half_up_def Let_def)
qed

lemma quantize_value:
  assumes "dec_quantize (DFin neg c e) q = Some d"
  shows "dec_value d = dec_value (DFin neg c e) \<longleftrightarrow> q \<le> e \<or> 10 ^ nat (q - e) dvd c"
proof (cases "q \<le> e")
  case True
  then show ?thesis using assms scale10_diff [OF True] by (auto simp: Let_def split: if_splits)
next
  case False
  let ?p = "10 ^ nat (q - e) :: nat"
  have d: "d = DFin neg (div_half_up c ?p) q" using assms False by (auto simp: Let_def split: if_splits)
  have "scale10 q = 10 ^ nat (q - e) * scale10 e" using False by (intro scale10_diff) simp
  moreover have "of_nat (div_half_up c ?p) * (10 ^ nat (q - e) * scale10 e) = of_nat c * scale10 e
      \<longleftrightarrow> (of_nat (div_half_up c ?p * ?p) :: rat) = of_nat c"
    by (auto simp: mult.assoc [symmetric])
  ultimately have "dec_value d = dec_value (DFin neg c e) \<longleftrightarrow> div_half_up c ?p * ?p = c"
    by (simp add: d of_nat_eq_iff [symmetric, where 'a = rat] del: of_nat_eq_iff)
  then show ?thesis using False div_half_up_exact [of ?p c] by simp
qed

end
