(* ===== verification/McpCore.thy ===== *)
theory McpCore
  imports Decimal Deadline
begin

text \<open>
  What every tool of \<open>taxcalc_mcp_server\<close> goes through: \<open>numeric.py\<close> (counts, scores, minor
  units), \<open>errors.py\<close> (the code of an error), \<open>tenancy.py\<close> (whose credential and whose tenant),
  \<open>settings.py\<close>, and \<open>observability.py\<close> (the pair of log lines and the tenant check around a
  call). A context variable is a field of the call's identity; the clock is left out.
\<close>

section \<open>Numbers\<close>

(* src/taxcalc-mcp-server/src/taxcalc_mcp_server/numeric.py:53-55 MINOR_UNITS_PER_MAJOR *)
definition MINOR_UNITS_PER_MAJOR :: nat where "MINOR_UNITS_PER_MAJOR = 100"

text \<open>A value on its way into a money field: raw JSON, or a decimal that was made of it before.\<close>

datatype money_input = MJson json | MDec dec

(* src/taxcalc-mcp-server/src/taxcalc_mcp_server/numeric.py:58-67 is_inexact_binary *)
definition is_inexact_binary :: "money_input \<Rightarrow> bool" where
  "is_inexact_binary v = (case v of MJson (JFloat r) \<Rightarrow> True | _ \<Rightarrow> False)"

text \<open>
  \<open>ps\<close> reads the number a text denotes, \<open>fl\<close> rounds an integer to a float; only a text that is no
  number falls back to the default, an integer beyond the float range raises.
\<close>

(* src/taxcalc-mcp-server/src/taxcalc_mcp_server/numeric.py:70-88 to_score *)
definition to_score :: "(rat \<Rightarrow> rat) \<Rightarrow> (string \<Rightarrow> rat option) \<Rightarrow> json \<Rightarrow> rat \<Rightarrow> rat res" where
  "to_score fl ps v dflt = (case v of
     JFloat r \<Rightarrow> Inr r
   | JInt i \<Rightarrow> py_float fl ps (JInt i)
   | JStr s \<Rightarrow> (case ps s of Some r \<Rightarrow> Inr r | None \<Rightarrow> Inr dflt)
   | _ \<Rightarrow> Inr dflt)"

(* src/taxcalc-mcp-server/src/taxcalc_mcp_server/numeric.py:91-113 as_token_count *)
definition as_token_count :: "json \<Rightarrow> int" where
  "as_token_count v = (case v of
     JBool b \<Rightarrow> 0
   | JInt i \<Rightarrow> i
   | JFloat r \<Rightarrow> (if r < 0 then - \<lfloor>- r\<rfloor> else \<lfloor>r\<rfloor>)
   | JStr s \<Rightarrow> (case dec_parse s of None \<Rightarrow> 0 | Some d \<Rightarrow> (case dec_trunc d of None \<Rightarrow> 0 | Some n \<Rightarrow> n))
   | _ \<Rightarrow> 0)"

(* src/taxcalc-mcp-server/src/taxcalc_mcp_server/numeric.py:116-133 as_minor_units *)
definition as_minor_units :: "string option \<Rightarrow> int" where
  "as_minor_units major = (case major of
     None \<Rightarrow> 0
   | Some s \<Rightarrow> (if s = [] then 0
       else case dec_parse s of None \<Rightarrow> 0
         | Some d \<Rightarrow> (case dec_mul_nat d MINOR_UNITS_PER_MAJOR of None \<Rightarrow> 0
             | Some p \<Rightarrow> (case dec_trunc p of None \<Rightarrow> 0 | Some n \<Rightarrow> n))))"

lemma minor_units_exact:
  assumes "dec_parse s = Some (DFin False c e)" and "s \<noteq> []"
    and "c < 10 ^ 26" and "- 1000026 \<le> e" and "e \<le> 999900"
  shows "of_int (as_minor_units (Some s)) \<le> of_nat c * scale10 e * 100
    \<and> of_nat c * scale10 e * 100 < of_int (as_minor_units (Some s)) + 1 \<and> 0 \<le> as_minor_units (Some s)"
proof -
  have "c * 100 < 10 ^ 28" using assms(3) by simp
  from dec_mul_nat_exact [OF this assms(4,5), of False]
  have m: "dec_mul_nat (DFin False c e) MINOR_UNITS_PER_MAJOR = Some (DFin False (c * 100) e)"
    by (simp add: MINOR_UNITS_PER_MAJOR_def)
  obtain n where n: "dec_trunc (DFin False (c * 100) e) = Some n" by (simp add: Let_def)
  have "as_minor_units (Some s) = n" using assms(1,2) by (simp only: as_minor_units_def m n option.case if_False)
  then show ?thesis using dec_trunc_bounds [OF n] by (simp add: algebra_simps)
qed

section \<open>Errors\<close>

(* src/taxcalc-mcp-server/src/taxcalc_mcp_server/errors.py:30-31 MAX_MESSAGE_CHARS *)
definition MAX_MESSAGE_CHARS :: nat where "MAX_MESSAGE_CHARS = 200"

(* src/taxcalc-mcp-server/src/taxcalc_mcp_server/errors.py:33-36 RAG_TIMEOUT_CODE *)
definition RAG_TIMEOUT_CODE :: int where "RAG_TIMEOUT_CODE = 5040"

(* src/taxcalc-mcp-server/src/taxcalc_mcp_server/errors.py:38-39 DEFAULT_CODE *)
definition DEFAULT_CODE :: int where "DEFAULT_CODE = 5030"

(* src/taxcalc-mcp-server/src/taxcalc_mcp_server/errors.py:41-54 STATUS_TO_CODE *)
definition STATUS_TO_CODE :: "(int, int) dict" where
  "STATUS_TO_CODE = [(400, 4001), (401, 4030), (403, 4030), (404, 4040), (409, 4090), (429, 4290)]"

(* src/taxcalc-mcp-server/src/taxcalc_mcp_server/errors.py:57-67 _map_http *)
definition map_http :: "int \<Rightarrow> string \<Rightarrow> exn" where
  "map_http status body =
     McpError (case dict_get STATUS_TO_CODE status of Some c \<Rightarrow> c | None \<Rightarrow> DEFAULT_CODE) (take MAX_MESSAGE_CHARS body)"

(* src/taxcalc-mcp-server/src/taxcalc_mcp_server/errors.py:70-79 rag_timeout *)
definition rag_timeout :: "string \<Rightarrow> exn" where
  "rag_timeout m = McpError RAG_TIMEOUT_CODE (take MAX_MESSAGE_CHARS m)"

(* src/taxcalc-mcp-server/src/taxcalc_mcp_server/errors.py:82-106 tenant_mismatch *)
definition tenant_mismatch :: "string \<Rightarrow> string \<Rightarrow> exn" where
  "tenant_mismatch claimed requested =
     McpError 4030 ''bearer token is scoped to a different tenant than this call acts on''"

section \<open>Identity\<close>

(* src/taxcalc-mcp-server/src/taxcalc_mcp_server/tenancy.py:23-30 _REQUEST_JWT and _REQUEST_TENANT *)
record identity =
  id_jwt :: string
  id_tenant :: string

definition no_identity :: identity where "no_identity = \<lparr>id_jwt = [], id_tenant = []\<rparr>"

(* src/taxcalc-mcp-server/src/taxcalc_mcp_server/tenancy.py:33-40 set_request_identity *)
definition set_request_identity :: "string \<Rightarrow> string \<Rightarrow> identity" where
  "set_request_identity token tenant = \<lparr>id_jwt = token, id_tenant = tenant\<rparr>"

(* src/taxcalc-mcp-server/src/taxcalc_mcp_server/tenancy.py:52-75 cross_tenant_claim *)
definition cross_tenant_claim :: "identity \<Rightarrow> string \<Rightarrow> string" where
  "cross_tenant_claim i requested = (if id_tenant i \<noteq> [] \<and> id_tenant i \<noteq> requested then id_tenant i else [])"

(* src/taxcalc-mcp-server/src/taxcalc_mcp_server/tenancy.py:78-86 bearer_token *)
definition bearer_token :: "identity \<Rightarrow> string \<Rightarrow> string" where
  "bearer_token i configured = (if id_jwt i \<noteq> [] then id_jwt i else configured)"

(* src/taxcalc-mcp-server/src/taxcalc_mcp_server/tenancy.py:89-104 auth_headers *)
definition mcp_auth_headers :: "identity \<Rightarrow> string \<Rightarrow> string \<Rightarrow> (string, string) dict" where
  "mcp_auth_headers i configured tenant =
     [(''Authorization'', ''Bearer '' @ bearer_token i configured), (''X-Tenant'', tenant)]"

(* src/taxcalc-mcp-server/src/taxcalc_mcp_server/tenancy.py:107-122 parse_bearer *)
definition parse_bearer :: "string option \<Rightarrow> string" where
  "parse_bearer h = (case h of None \<Rightarrow> []
     | Some v \<Rightarrow> (if v = [] then []
         else let (scheme, token) = (case partition_at '' '' v of Some p \<Rightarrow> p | None \<Rightarrow> (v, []))
              in if lower scheme \<noteq> ''bearer'' then [] else strip token))"

section \<open>Settings\<close>

(* src/taxcalc-mcp-server/src/taxcalc_mcp_server/settings.py:31-111 Settings *)
record mcp_settings =
  orders_svc_url :: string
  llm_proxy_url :: string
  llm_proxy_chat_path :: string
  mcp_langsmith_project :: string
  tool_timeout_default_s :: rat
  tool_timeout_rag_s :: rat
  mcp_bearer_jwt :: string
  jwks_url :: string
  jwt_audience :: string
  mcp_host :: string
  mcp_port :: int

(* src/taxcalc-mcp-server/src/taxcalc_mcp_server/settings.py:44-97 field bounds of Settings *)
definition mcp_settings_ok :: "mcp_settings \<Rightarrow> bool" where
  "mcp_settings_ok s \<longleftrightarrow> orders_svc_url s \<noteq> [] \<and> llm_proxy_url s \<noteq> [] \<and> llm_proxy_chat_path s \<noteq> []
     \<and> 1 \<le> length (mcp_langsmith_project s) \<and> length (mcp_langsmith_project s) \<le> 128
     \<and> 1 / 2 \<le> tool_timeout_default_s s \<and> tool_timeout_default_s s \<le> 60
     \<and> 1 \<le> tool_timeout_rag_s s \<and> tool_timeout_rag_s s \<le> 300 \<and> 1 \<le> mcp_port s \<and> mcp_port s \<le> 65535"

(* src/taxcalc-mcp-server/src/taxcalc_mcp_server/settings.py:99-104 Settings.normalised_orders_url *)
definition normalised_orders_url :: "mcp_settings \<Rightarrow> string" where
  "normalised_orders_url s = rstrip_char CHR ''/'' (orders_svc_url s)"

(* src/taxcalc-mcp-server/src/taxcalc_mcp_server/settings.py:106-111 Settings.normalised_llm_proxy_url *)
definition normalised_llm_proxy_url :: "mcp_settings \<Rightarrow> string" where
  "normalised_llm_proxy_url s = rstrip_char CHR ''/'' (llm_proxy_url s)"

section \<open>The span around a call\<close>

record http_request =
  req_method :: string
  req_url :: string
  req_headers :: "(string, string) dict"
  req_json :: "json option"

record http_response =
  resp_status :: int
  resp_text :: string
  resp_json :: "json res"
  resp_cost :: "string option"

datatype log_line =
    StartLine string string
  | EndLine string string "int option" "string option" jdict

record call_state =
  sent_http :: "http_request list"
  log_lines :: "log_line list"

fun exn_name :: "exn \<Rightarrow> string" where
  "exn_name (BudgetExceeded a b) = ''BudgetExceeded''"
| "exn_name (ValueError m) = ''ValueError''"
| "exn_name (TypeError m) = ''TypeError''"
| "exn_name (KeyError m) = ''KeyError''"
| "exn_name (ArithmeticError m) = m"
| "exn_name (RuntimeError m) = ''RuntimeError''"
| "exn_name TimeoutError = ''TimeoutError''"
| "exn_name (GraphRecursionError m) = ''GraphRecursionError''"
| "exn_name (ValidationError m) = ''ValidationError''"
| "exn_name (DependencyUnavailable m) = ''DependencyUnavailable''"
| "exn_name Cancelled = ''CancelledError''"
| "exn_name (McpError c m) = ''McpError''"
| "exn_name (OtherError n m) = n"

(* src/taxcalc-mcp-server/src/taxcalc_mcp_server/observability.py:63-65 COST_SOURCE_NONE *)
definition COST_SOURCE_NONE :: string where "COST_SOURCE_NONE = ''none''"

(* src/taxcalc-mcp-server/src/taxcalc_mcp_server/observability.py:67-69 COST_SOURCE_PROXY *)
definition COST_SOURCE_PROXY :: string where "COST_SOURCE_PROXY = ''proxy-header''"

(* src/taxcalc-mcp-server/src/taxcalc_mcp_server/observability.py:71-74 COST_SOURCE_UNPRICED *)
definition COST_SOURCE_UNPRICED :: string where "COST_SOURCE_UNPRICED = ''unpriced''"

definition span_seed :: jdict where
  "span_seed = [(''cost_usd_minor'', JInt 0), (''cost_source'', JStr COST_SOURCE_NONE)]"

text \<open>The \<open>end\<close> line of an outcome; a cancellation passes both handlers and writes none.\<close>

(* src/taxcalc-mcp-server/src/taxcalc_mcp_server/observability.py:107-137 exits of observe *)
definition end_lines :: "string \<Rightarrow> string \<Rightarrow> 'a res \<Rightarrow> jdict \<Rightarrow> log_line list" where
  "end_lines tool tenant r x = (case r of
     Inl (McpError c m) \<Rightarrow> [EndLine tool tenant (Some c) None x]
   | Inl e \<Rightarrow> (if is_exception e then [EndLine tool tenant None (Some (exn_name e)) x] else [])
   | Inr a \<Rightarrow> [EndLine tool tenant None None x])"

(* src/taxcalc-mcp-server/src/taxcalc_mcp_server/observability.py:77-137 observe *)
definition observe ::
  "identity \<Rightarrow> string \<Rightarrow> string \<Rightarrow> (jdict \<Rightarrow> call_state \<Rightarrow> 'a res \<times> jdict \<times> call_state)
     \<Rightarrow> call_state \<Rightarrow> 'a res \<times> call_state" where
  "observe i tool tenant body st =
     (let st1 = st\<lparr>log_lines := log_lines st @ [StartLine tool tenant]\<rparr>;
          claimed = cross_tenant_claim i tenant;
          (r, x, st2) = (if claimed \<noteq> [] then (Inl (tenant_mismatch claimed tenant), span_seed, st1)
                         else body span_seed st1)
      in (r, st2\<lparr>log_lines := log_lines st2 @ end_lines tool tenant r x\<rparr>))"

section \<open>Laws of the span\<close>

text \<open>A body that only talks to the network: it adds requests and no log lines.\<close>

definition quiet :: "(jdict \<Rightarrow> call_state \<Rightarrow> 'a res \<times> jdict \<times> call_state) \<Rightarrow> bool" where
  "quiet body \<longleftrightarrow> (\<forall>x st r x' st'. body x st = (r, x', st') \<longrightarrow> log_lines st' = log_lines st)"

lemma observe_refuses:
  assumes "id_tenant i \<noteq> []" and "id_tenant i \<noteq> tenant"
  shows "fst (observe i tool tenant body st) = Inl (tenant_mismatch (id_tenant i) tenant)
    \<and> sent_http (snd (observe i tool tenant body st)) = sent_http st"
  using assms by (simp add: observe_def Let_def cross_tenant_claim_def)

lemma observe_passes:
  assumes "id_tenant i = [] \<or> id_tenant i = tenant"
    and "body span_seed (st\<lparr>log_lines := log_lines st @ [StartLine tool tenant]\<rparr>) = (r, x, st2)"
  shows "observe i tool tenant body st = (r, st2\<lparr>log_lines := log_lines st2 @ end_lines tool tenant r x\<rparr>)"
  using assms by (auto simp: observe_def Let_def cross_tenant_claim_def)

lemma observe_lines:
  assumes "quiet body"
  shows "\<exists>x. log_lines (snd (observe i tool tenant body st))
      = log_lines st @ StartLine tool tenant # end_lines tool tenant (fst (observe i tool tenant body st)) x"
proof (cases "cross_tenant_claim i tenant = []")
  case True
  obtain r x st2 where b: "body span_seed (st\<lparr>log_lines := log_lines st @ [StartLine tool tenant]\<rparr>) = (r, x, st2)"
    by (cases "body span_seed (st\<lparr>log_lines := log_lines st @ [StartLine tool tenant]\<rparr>)")
  then have "log_lines st2 = log_lines st @ [StartLine tool tenant]"
    using assms unfolding quiet_def by fastforce
  then show ?thesis using True b by (auto simp: observe_def Let_def)
qed (auto simp: observe_def Let_def)

end
