(* ===== verification/McpTools.thy ===== *)
theory McpTools
  imports McpCore
begin

text \<open>
  \<open>taxcalc_mcp_server/tools\<close>: the four tools. A tool is two functions: the published one takes the
  call's arguments, which the protocol library has validated against the signature, and builds the
  input model, which validates again; the inner one does the work inside \<open>observe\<close>. Arguments: the
  services behind the one HTTP client, the retrieval pipeline, and the conversions of the validation
  library (a decimal, a UUID, an integer of a JSON value). A request is recorded when it is sent.
\<close>

record tool_env =
  te_conf :: mcp_settings
  te_ident :: identity
  te_http :: "nat \<Rightarrow> http_request \<Rightarrow> http_response res"
  te_rag :: "string \<Rightarrow> string \<Rightarrow> int \<Rightarrow> jdict body_run"
  te_dec :: "json \<Rightarrow> dec option"
  te_uuid :: "json \<Rightarrow> string option"
  te_int :: "json \<Rightarrow> int option"
  te_fl :: "rat \<Rightarrow> rat"
  te_num :: "string \<Rightarrow> rat option"
  te_repr :: "json \<Rightarrow> string"
  te_seconds :: "rat \<Rightarrow> string"

definition send :: "tool_env \<Rightarrow> http_request \<Rightarrow> call_state \<Rightarrow> http_response res \<times> call_state" where
  "send e req st = (te_http e (length (sent_http st)) req, st\<lparr>sent_http := sent_http st @ [req]\<rparr>)"

definition call_headers :: "tool_env \<Rightarrow> string \<Rightarrow> (string, string) dict" where
  "call_headers e tenant = mcp_auth_headers (te_ident e) (mcp_bearer_jwt (te_conf e)) tenant"

definition str_between :: "nat \<Rightarrow> nat \<Rightarrow> string \<Rightarrow> bool" where
  "str_between lo hi s \<longleftrightarrow> lo \<le> length s \<and> length s \<le> hi"

definition str_field :: "jdict \<Rightarrow> string \<Rightarrow> string option" where
  "str_field d k = (case dict_get d k of Some (JStr s) \<Rightarrow> Some s | _ \<Rightarrow> None)"

section \<open>Orders\<close>

(* src/taxcalc-mcp-server/src/taxcalc_mcp_server/tools/orders.py:50-53 MONEY_SCALE *)
definition MONEY_SCALE :: int where "MONEY_SCALE = 2"

(* src/taxcalc-mcp-server/src/taxcalc_mcp_server/tools/orders.py:55-59 TENANT_PATTERN *)
definition TENANTS :: "string list" where
  "TENANTS = [''tenant-a'', ''tenant-b'', ''tenant-c'']"

(* src/taxcalc-mcp-server/src/taxcalc_mcp_server/tools/orders.py:65-73 GetOrderArgs *)
record get_order_args =
  go_order :: string
  go_tenant :: string

definition mk_get_order_args :: "string \<Rightarrow> string \<Rightarrow> get_order_args res" where
  "mk_get_order_args oid tenant =
     (if str_between 1 64 oid \<and> tenant \<in> set TENANTS then Inr \<lparr>go_order = oid, go_tenant = tenant\<rparr>
      else Inl (ValidationError ''GetOrderArgs''))"

(* src/taxcalc-mcp-server/src/taxcalc_mcp_server/tools/orders.py:73-96 fields of CreateRefundArgs *)
record create_refund_args =
  cr_order :: string
  cr_amount :: dec
  cr_reason :: string
  cr_tenant :: string
  cr_key :: string

text \<open>
  The validators of \<open>amount\<close>, in their order: no binary float, a finite decimal above zero, at most
  two decimal places. The comparison with the quantized value raises what \<open>quantize\<close> raises.
\<close>

definition finite_positive :: "dec \<Rightarrow> bool" where
  "finite_positive d \<longleftrightarrow> (case dec_value d of None \<Rightarrow> False | Some v \<Rightarrow> 0 < v)"

(* src/taxcalc-mcp-server/src/taxcalc_mcp_server/tools/orders.py:98-122 CreateRefundArgs._reject_inexact_binary *)
definition reject_inexact_binary :: "money_input \<Rightarrow> money_input res" where
  "reject_inexact_binary v = (if is_inexact_binary v then Inl (ValidationError ''amount'') else Inr v)"

(* src/taxcalc-mcp-server/src/taxcalc_mcp_server/tools/orders.py:124-147 CreateRefundArgs._enforce_money_scale *)
definition enforce_money_scale :: "dec \<Rightarrow> dec res" where
  "enforce_money_scale d = (case dec_quantize d (- MONEY_SCALE) of
     None \<Rightarrow> Inl (ArithmeticError ''InvalidOperation'')
   | Some q \<Rightarrow> if dec_value d \<noteq> dec_value q then Inl (ValidationError ''amount'') else Inr d)"

definition money_decimal :: "tool_env \<Rightarrow> money_input \<Rightarrow> dec res" where
  "money_decimal e v = (case (case v of MDec d \<Rightarrow> Some d | MJson j \<Rightarrow> te_dec e j) of
     None \<Rightarrow> Inl (ValidationError ''amount'')
   | Some d \<Rightarrow> if finite_positive d then Inr d else Inl (ValidationError ''amount''))"

(* src/taxcalc-mcp-server/src/taxcalc_mcp_server/tools/orders.py:76-147 CreateRefundArgs *)
definition mk_create_refund_args ::
  "tool_env \<Rightarrow> string \<Rightarrow> money_input \<Rightarrow> string \<Rightarrow> string \<Rightarrow> string \<Rightarrow> create_refund_args res" where
  "mk_create_refund_args e oid amount reason tenant key =
     (case bind_res (reject_inexact_binary amount) (\<lambda>v. bind_res (money_decimal e v) enforce_money_scale) of
        Inl x \<Rightarrow> Inl x
      | Inr d \<Rightarrow> (if str_between 1 64 oid \<and> str_between 4 200 reason \<and> tenant \<in> set TENANTS
          then Inr \<lparr>cr_order = oid, cr_amount = d, cr_reason = reason, cr_tenant = tenant, cr_key = key\<rparr>
          else Inl (ValidationError ''CreateRefundArgs'')))"

text \<open>The reply models: exactly the declared fields, money as a decimal, dumped as text.\<close>

(* src/taxcalc-mcp-server/src/taxcalc_mcp_server/tools/orders.py:153-170 OrderView *)
definition order_view :: "tool_env \<Rightarrow> json \<Rightarrow> json res" where
  "order_view e v = (case v of
     JObj d \<Rightarrow> (case (str_field d ''order_id'', str_field d ''tenant_id'', Option.bind (dict_get d ''total'') (te_dec e), str_field d ''status'') of
        (Some o', Some t, Some m, Some s) \<Rightarrow>
          (if dec_value m \<noteq> None \<and> set (dict_keys d) \<subseteq> {''order_id'', ''tenant_id'', ''total'', ''status''}
           then Inr (JObj [(''order_id'', JStr o'), (''tenant_id'', JStr t), (''total'', JStr (dec_str m)), (''status'', JStr s)])
           else Inl (ValidationError ''OrderView''))
      | _ \<Rightarrow> Inl (ValidationError ''OrderView''))
   | _ \<Rightarrow> Inl (ValidationError ''OrderView''))"

(* src/taxcalc-mcp-server/src/taxcalc_mcp_server/tools/orders.py:173-187 RefundView *)
definition refund_view :: "tool_env \<Rightarrow> json \<Rightarrow> json res" where
  "refund_view e v = (case v of
     JObj d \<Rightarrow> (case (str_field d ''order_id'', str_field d ''refund_id'', Option.bind (dict_get d ''amount'') (te_dec e),
                       str_field d ''reason'', str_field d ''status'') of
        (Some o', Some r, Some m, Some w, Some s) \<Rightarrow>
          (if dec_value m \<noteq> None \<and> set (dict_keys d) \<subseteq> {''order_id'', ''refund_id'', ''amount'', ''reason'', ''status''}
           then Inr (JObj [(''order_id'', JStr o'), (''refund_id'', JStr r), (''amount'', JStr (dec_str m)),
                           (''reason'', JStr w), (''status'', JStr s)])
           else Inl (ValidationError ''RefundView''))
      | _ \<Rightarrow> Inl (ValidationError ''RefundView''))
   | _ \<Rightarrow> Inl (ValidationError ''RefundView''))"

text \<open>Sending, recording the status, mapping anything but 200, and reading the body.\<close>

definition forward ::
  "tool_env \<Rightarrow> http_request \<Rightarrow> (http_response \<Rightarrow> jdict \<Rightarrow> jdict) \<Rightarrow> (json \<Rightarrow> json res) \<Rightarrow> jdict \<Rightarrow> call_state
     \<Rightarrow> json res \<times> jdict \<times> call_state" where
  "forward e req note shape x st = (case send e req st of
     (Inl err, st') \<Rightarrow> (Inl err, x, st')
   | (Inr r, st') \<Rightarrow>
       (let x' = note r (dict_set ''http_status'' (JInt (resp_status r)) x)
        in (if resp_status r \<noteq> 200 then Inl (map_http (resp_status r) (resp_text r)) else bind_res (resp_json r) shape, x', st')))"

(* src/taxcalc-mcp-server/src/taxcalc_mcp_server/tools/orders.py:241-262 _get_order *)
definition get_order :: "tool_env \<Rightarrow> get_order_args \<Rightarrow> call_state \<Rightarrow> json res \<times> call_state" where
  "get_order e a = observe (te_ident e) ''orders.get_order'' (go_tenant a)
     (forward e \<lparr>req_method = ''GET'', req_url = ''/orders/'' @ go_order a, req_headers = call_headers e (go_tenant a), req_json = None\<rparr>
        (\<lambda>r x. x) (order_view e))"

definition refund_payload :: "create_refund_args \<Rightarrow> json" where
  "refund_payload a = JObj [(''orderId'', JStr (cr_order a)), (''amount'', JStr (dec_str (cr_amount a))),
     (''reason'', JStr (cr_reason a)), (''idempotencyKey'', JStr (cr_key a))]"

definition refund_request :: "tool_env \<Rightarrow> create_refund_args \<Rightarrow> http_request" where
  "refund_request e a = \<lparr>req_method = ''POST'', req_url = ''/orders/'' @ cr_order a @ ''/refunds'',
     req_headers = dict_set ''Idempotency-Key'' (cr_key a) (call_headers e (cr_tenant a)), req_json = Some (refund_payload a)\<rparr>"

(* src/taxcalc-mcp-server/src/taxcalc_mcp_server/tools/orders.py:279-319 _create_refund *)
definition create_refund :: "tool_env \<Rightarrow> create_refund_args \<Rightarrow> call_state \<Rightarrow> json res \<times> call_state" where
  "create_refund e a = observe (te_ident e) ''orders.create_refund'' (cr_tenant a)
     (\<lambda>x. forward e (refund_request e a) (\<lambda>r x. x) (refund_view e) (dict_set ''idempotency_key'' (JStr (cr_key a)) x))"

section \<open>Chat\<close>

(* src/taxcalc-mcp-server/src/taxcalc_mcp_server/tools/llm.py:55-61 ChatMessage *)
record chat_message =
  cm_role :: string
  cm_content :: string

definition chat_message_of :: "json \<Rightarrow> chat_message option" where
  "chat_message_of v = (case v of
     JObj d \<Rightarrow> (case (str_field d ''role'', str_field d ''content'') of
        (Some r, Some c) \<Rightarrow> (if r \<in> {''user'', ''assistant'', ''system''} \<and> str_between 1 8000 c
            \<and> set (dict_keys d) \<subseteq> {''role'', ''content''} then Some \<lparr>cm_role = r, cm_content = c\<rparr> else None)
      | _ \<Rightarrow> None)
   | _ \<Rightarrow> None)"

(* src/taxcalc-mcp-server/src/taxcalc_mcp_server/tools/llm.py:64-75 ChatArgs *)
record chat_args =
  ca_messages :: "chat_message list"
  ca_max_tokens :: int
  ca_tenant :: string

definition mk_chat_args :: "chat_message list \<Rightarrow> int \<Rightarrow> string \<Rightarrow> chat_args res" where
  "mk_chat_args ms n tenant =
     (if 1 \<le> length ms \<and> length ms \<le> 50 \<and> 1 \<le> n \<and> n \<le> 4096 \<and> tenant \<in> set TENANTS
      then Inr \<lparr>ca_messages = ms, ca_max_tokens = n, ca_tenant = tenant\<rparr> else Inl (ValidationError ''ChatArgs''))"

(* src/taxcalc-mcp-server/src/taxcalc_mcp_server/tools/llm.py:78-93 ChatReply *)
record chat_reply =
  rp_text :: string
  rp_model :: string
  rp_input :: int
  rp_output :: int

(* src/taxcalc-mcp-server/src/taxcalc_mcp_server/tools/llm.py:96-99 COST_FEATURE *)
definition COST_FEATURE :: string where "COST_FEATURE = ''mcp.llm.chat''"

(* src/taxcalc-mcp-server/src/taxcalc_mcp_server/tools/llm.py:115-118 CHAT_COMPLETIONS_SUFFIX *)
definition CHAT_COMPLETIONS_SUFFIX :: string where "CHAT_COMPLETIONS_SUFFIX = ''/chat/completions''"

datatype wire_shape = ChatShape | CompletionsShape

(* src/taxcalc-mcp-server/src/taxcalc_mcp_server/tools/llm.py:121-133 _wire_shape *)
definition wire_shape_of :: "string \<Rightarrow> wire_shape" where
  "wire_shape_of path =
     (if starts_with (rev (rstrip_char CHR ''/'' path)) (rev CHAT_COMPLETIONS_SUFFIX) then ChatShape else CompletionsShape)"

(* src/taxcalc-mcp-server/src/taxcalc_mcp_server/tools/llm.py:136-147 _flatten *)
definition flatten_turns :: "chat_message list \<Rightarrow> string" where
  "flatten_turns ms = join [CHR 0x0A, CHR 0x0A] (map (\<lambda>m. cm_role m @ '': '' @ cm_content m) ms)"

(* src/taxcalc-mcp-server/src/taxcalc_mcp_server/tools/llm.py:150-165 _request_body *)
definition request_body :: "chat_args \<Rightarrow> wire_shape \<Rightarrow> json" where
  "request_body a sh = (case sh of
     ChatShape \<Rightarrow> JObj [(''messages'', JList (map (\<lambda>m. JObj [(''role'', JStr (cm_role m)), (''content'', JStr (cm_content m))]) (ca_messages a))),
                         (''max_tokens'', JInt (ca_max_tokens a))]
   | CompletionsShape \<Rightarrow> JObj [(''prompt'', JStr (flatten_turns (ca_messages a))), (''feature'', JStr COST_FEATURE)])"

definition as_dict :: "json \<Rightarrow> jdict" where
  "as_dict v = (case v of JObj d \<Rightarrow> d | _ \<Rightarrow> [])"

(* src/taxcalc-mcp-server/src/taxcalc_mcp_server/tools/llm.py:168-199 _parse_reply *)
definition parse_reply :: "tool_env \<Rightarrow> jdict \<Rightarrow> wire_shape \<Rightarrow> chat_reply" where
  "parse_reply e body sh = (case sh of
     ChatShape \<Rightarrow>
       (let first = (case dict_get body ''choices'' of Some (JList (c # cs)) \<Rightarrow> c | _ \<Rightarrow> JObj []);
            message = (case first of JObj d \<Rightarrow> get_or d ''message'' (JObj []) | _ \<Rightarrow> JObj []);
            use = as_dict (get_or body ''usage'' JNull)
        in \<lparr>rp_text = (case message of JObj d \<Rightarrow> py_str (te_repr e) (get_or d ''content'' (JStr [])) | _ \<Rightarrow> []),
            rp_model = py_str (te_repr e) (get_or body ''model'' (JStr [])),
            rp_input = as_token_count (get_or use ''prompt_tokens'' (JInt 0)),
            rp_output = as_token_count (get_or use ''completion_tokens'' (JInt 0))\<rparr>)
   | CompletionsShape \<Rightarrow>
       (let resolved = get_or body ''resolvedModel'' JNull
        in \<lparr>rp_text = py_str (te_repr e) (get_or body ''text'' (JStr [])),
            rp_model = py_str (te_repr e) (if truthy resolved then resolved else get_or body ''model'' (JStr [])),
            rp_input = as_token_count (get_or body ''inputTokens'' (JInt 0)),
            rp_output = as_token_count (get_or body ''outputTokens'' (JInt 0))\<rparr>))"

definition dump_reply :: "chat_reply \<Rightarrow> json" where
  "dump_reply r = JObj [(''text'', JStr (rp_text r)), (''model'', JStr (rp_model r)),
     (''input_tokens'', JInt (rp_input r)), (''output_tokens'', JInt (rp_output r))]"

(* src/taxcalc-mcp-server/src/taxcalc_mcp_server/tools/llm.py:202-249 _chat *)
definition chat :: "tool_env \<Rightarrow> chat_args \<Rightarrow> call_state \<Rightarrow> json res \<times> call_state" where
  "chat e a = observe (te_ident e) ''llm.chat'' (ca_tenant a)
     (\<lambda>x. let path = llm_proxy_chat_path (te_conf e);
              sh = wire_shape_of path;
              x1 = dict_set ''max_tokens'' (JInt (ca_max_tokens a))
                     (dict_set ''wire_shape'' (JStr (case sh of ChatShape \<Rightarrow> ''chat'' | CompletionsShape \<Rightarrow> ''completions''))
                       (dict_set ''turns'' (JInt (int (length (ca_messages a)))) x))
          in forward e \<lparr>req_method = ''POST'', req_url = normalised_llm_proxy_url (te_conf e) @ path,
                        req_headers = call_headers e (ca_tenant a), req_json = Some (request_body a sh)\<rparr>
               (\<lambda>r y. dict_set ''cost_source'' (JStr COST_SOURCE_PROXY) (dict_set ''cost_usd_minor'' (JInt (as_minor_units (resp_cost r))) y))
               (\<lambda>v. Inr (dump_reply (parse_reply e (as_dict v) sh))) x1)"

section \<open>Retrieval\<close>

(* src/taxcalc-mcp-server/src/taxcalc_mcp_server/tools/rag.py:46-62 RagArgs *)
record rag_args =
  ra_question :: string
  ra_tenant :: string
  ra_top_k :: int

definition mk_rag_args :: "string \<Rightarrow> string \<Rightarrow> int \<Rightarrow> rag_args res" where
  "mk_rag_args q tenant k =
     (if str_between 2 2000 q \<and> tenant \<in> set TENANTS \<and> 1 \<le> k \<and> k \<le> 20
      then Inr \<lparr>ra_question = q, ra_tenant = tenant, ra_top_k = k\<rparr> else Inl (ValidationError ''RagArgs''))"

(* src/taxcalc-mcp-server/src/taxcalc_mcp_server/tools/rag.py:117-131 _doc_id_of *)
definition rag_doc_id_of :: "string \<Rightarrow> string" where
  "rag_doc_id_of cid =
     (if \<not> starts_with cid ''chunk-'' \<or> \<not> contains cid ''-p'' then cid
      else (let s = removeprefix ''chunk-'' cid in case rsplit1 ''-p'' s of Some (a, _) \<Rightarrow> a | None \<Rightarrow> s))"

(* src/taxcalc-mcp-server/src/taxcalc_mcp_server/tools/rag.py:65-82 Citation *)
definition rag_citation :: "string \<Rightarrow> rat \<Rightarrow> json" where
  "rag_citation cid sc = JObj [(''chunk_id'', JStr cid), (''doc_id'', JStr (rag_doc_id_of cid)), (''score'', JFloat sc)]"

(* src/taxcalc-mcp-server/src/taxcalc_mcp_server/tools/rag.py:165-178 citation loop of _retrieve_and_generate *)
fun rag_citations :: "tool_env \<Rightarrow> json list \<Rightarrow> json list res" where
  "rag_citations e [] = Inr []"
| "rag_citations e (JObj item # xs) =
     bind_res (to_score (te_fl e) (te_num e) (get_or item ''score'' JNull) 0) (\<lambda>sc.
       bind_res (rag_citations e xs) (\<lambda>cs.
         Inr (rag_citation (py_str (te_repr e) (get_or item ''chunk_id'' (JStr []))) sc # cs)))"
| "rag_citations e (x # xs) = rag_citations e xs"

(* src/taxcalc-mcp-server/src/taxcalc_mcp_server/tools/rag.py:165-194 reshaping of _retrieve_and_generate *)
definition rag_answer :: "tool_env \<Rightarrow> nat \<Rightarrow> jdict \<Rightarrow> (json list \<times> bool \<times> json) res" where
  "rag_answer e k result =
     bind_res (case get_or result ''citations'' (JList []) of JList raw \<Rightarrow> rag_citations e (take k raw) | _ \<Rightarrow> Inr []) (\<lambda>cs.
       let jac = (case get_or result ''coverage'' (JObj []) of JObj d \<Rightarrow> get_or d ''jaccard'' (JFloat 0) | _ \<Rightarrow> JFloat 0)
       in bind_res (to_score (te_fl e) (te_num e) jac 0) (\<lambda>cov.
            let late = truthy (get_or result ''rerank_timed_out'' (JBool False))
            in Inr (cs, late, JObj [(''answer'', JStr (py_str (te_repr e) (get_or result ''text'' (JStr [])))),
                  (''citations'', JList cs), (''coverage'', JFloat cov), (''rerank_timed_out'', JBool late)])))"

(* src/taxcalc-mcp-server/src/taxcalc_mcp_server/tools/rag.py:134-194 _retrieve_and_generate *)
definition rag_tool :: "tool_env \<Rightarrow> rag_args \<Rightarrow> call_state \<Rightarrow> json res \<times> call_state" where
  "rag_tool e a = observe (te_ident e) ''rag.retrieve_and_generate'' (ra_tenant a)
     (\<lambda>x st. let x1 = dict_set ''cost_source'' (JStr COST_SOURCE_UNPRICED) (dict_set ''top_k'' (JInt (ra_top_k a)) x) in
        case wait_for (te_rag e (ra_question a) (ra_tenant a) (ra_top_k a)) of
          Inl TimeoutError \<Rightarrow>
            (Inl (rag_timeout (''rag timed out after '' @ te_seconds e (tool_timeout_rag_s (te_conf e)) @ ''s'')), x1, st)
        | Inl err \<Rightarrow> (Inl err, x1, st)
        | Inr result \<Rightarrow>
            (case rag_answer e (nat (ra_top_k a)) result of
               Inl err \<Rightarrow> (Inl err, x1, st)
             | Inr (cs, late, out) \<Rightarrow>
                 (Inr out, dict_set ''rerank_timed_out'' (JBool late) (dict_set ''citations'' (JInt (int (length cs))) x1), st)))"

section \<open>What every tool promises\<close>

text \<open>A request in the tenant's name with the caller's credential.\<close>

definition scoped :: "tool_env \<Rightarrow> string \<Rightarrow> http_request \<Rightarrow> bool" where
  "scoped e tenant q \<longleftrightarrow> dict_get (req_headers q) ''X-Tenant'' = Some tenant
     \<and> dict_get (req_headers q) ''Authorization'' = Some (''Bearer '' @ bearer_token (te_ident e) (mcp_bearer_jwt (te_conf e)))"

definition has_cost :: "jdict \<Rightarrow> bool" where
  "has_cost x \<longleftrightarrow> {''cost_usd_minor'', ''cost_source''} \<subseteq> set (dict_keys x)"

definition tool_body :: "tool_env \<Rightarrow> string \<Rightarrow> (jdict \<Rightarrow> call_state \<Rightarrow> json res \<times> jdict \<times> call_state) \<Rightarrow> bool" where
  "tool_body e tenant body \<longleftrightarrow> (\<forall>x st r x' st'. body x st = (r, x', st') \<longrightarrow>
     log_lines st' = log_lines st \<and> (has_cost x \<longrightarrow> has_cost x')
     \<and> (\<exists>new. sent_http st' = sent_http st @ new \<and> length new \<le> 1 \<and> (\<forall>q \<in> set new. scoped e tenant q)))"

lemma has_cost_set [simp]: "has_cost x \<Longrightarrow> has_cost (dict_set k v x)"
  by (auto simp: has_cost_def dict_keys_set)

lemma has_cost_seed [simp]: "has_cost span_seed"
  by (simp add: has_cost_def span_seed_def)

lemma tool_bodyI:
  assumes "\<And>x st. log_lines (snd (snd (body x st))) = log_lines st"
    and "\<And>x st. has_cost x \<Longrightarrow> has_cost (fst (snd (body x st)))"
    and "\<And>x st. \<exists>new. sent_http (snd (snd (body x st))) = sent_http st @ new \<and> length new \<le> 1 \<and> (\<forall>q \<in> set new. scoped e tenant q)"
  shows "tool_body e tenant body"
  unfolding tool_body_def using assms by (metis fst_conv snd_conv)

lemma scoped_headers [simp]: "scoped e tenant \<lparr>req_method = m, req_url = u, req_headers = call_headers e tenant, req_json = j\<rparr>"
  by (simp add: scoped_def call_headers_def mcp_auth_headers_def)

lemma forward_body:
  assumes "scoped e tenant req" and "\<And>r x. has_cost x \<Longrightarrow> has_cost (note r x)" and "\<And>x. has_cost x \<Longrightarrow> has_cost (pre x)"
  shows "tool_body e tenant (\<lambda>x. forward e req note shape (pre x))"
  by (rule tool_bodyI) (auto simp: forward_def send_def Let_def assms split: sum.split)

lemma observe_body:
  assumes "tool_body e tenant body"
  shows "\<exists>new. sent_http (snd (observe (te_ident e) tool tenant body st)) = sent_http st @ new \<and> length new \<le> 1
      \<and> (\<forall>q \<in> set new. scoped e tenant q \<and> (id_tenant (te_ident e) = [] \<or> id_tenant (te_ident e) = tenant))"
    and "\<exists>x. has_cost x \<and> log_lines (snd (observe (te_ident e) tool tenant body st))
      = log_lines st @ StartLine tool tenant # end_lines tool tenant (fst (observe (te_ident e) tool tenant body st)) x"
proof -
  let ?st = "st\<lparr>log_lines := log_lines st @ [StartLine tool tenant]\<rparr>"
  obtain r x st2 where b: "body span_seed ?st = (r, x, st2)" by (cases "body span_seed ?st")
  then have t: "log_lines st2 = log_lines st @ [StartLine tool tenant]" "has_cost x"
    "\<exists>new. sent_http st2 = sent_http st @ new \<and> length new \<le> 1 \<and> (\<forall>q \<in> set new. scoped e tenant q)"
    using assms unfolding tool_body_def by fastforce+
  show "\<exists>new. sent_http (snd (observe (te_ident e) tool tenant body st)) = sent_http st @ new \<and> length new \<le> 1
      \<and> (\<forall>q \<in> set new. scoped e tenant q \<and> (id_tenant (te_ident e) = [] \<or> id_tenant (te_ident e) = tenant))"
    using t(3) by (auto simp: observe_def Let_def cross_tenant_claim_def b)
  show "\<exists>x. has_cost x \<and> log_lines (snd (observe (te_ident e) tool tenant body st))
      = log_lines st @ StartLine tool tenant # end_lines tool tenant (fst (observe (te_ident e) tool tenant body st)) x"
  proof (cases "cross_tenant_claim (te_ident e) tenant = []")
    case True
    then show ?thesis using t(1,2) b by (intro exI [of _ x]) (simp add: observe_def Let_def)
  next
    case False
    then show ?thesis by (intro exI [of _ span_seed]) (simp add: observe_def Let_def)
  qed
qed

locale observed_tool =
  fixes run :: "tool_env \<Rightarrow> 'a \<Rightarrow> call_state \<Rightarrow> json res \<times> call_state"
    and tenant_of :: "'a \<Rightarrow> string"
    and tool :: string
  assumes sends: "\<exists>new. sent_http (snd (run e a st)) = sent_http st @ new \<and> length new \<le> 1
      \<and> (\<forall>q \<in> set new. scoped e (tenant_of a) q \<and> (id_tenant (te_ident e) = [] \<or> id_tenant (te_ident e) = tenant_of a))"
    and logs: "\<exists>x. has_cost x \<and> log_lines (snd (run e a st))
      = log_lines st @ StartLine tool (tenant_of a) # end_lines tool (tenant_of a) (fst (run e a st)) x"
    and refuses: "id_tenant (te_ident e) \<noteq> [] \<Longrightarrow> id_tenant (te_ident e) \<noteq> tenant_of a
      \<Longrightarrow> fst (run e a st) = Inl (tenant_mismatch (id_tenant (te_ident e)) (tenant_of a))"
begin

lemma foreign_sends_nothing:
  assumes "id_tenant (te_ident e) \<noteq> []" and "id_tenant (te_ident e) \<noteq> tenant_of a"
  shows "sent_http (snd (run e a st)) = sent_http st"
  using sends [of e a st] assms by (metis append_Nil2 list.set_intros(1) neq_Nil_conv)

lemma one_end_line:
  assumes "fst (run e a st) \<noteq> Inl Cancelled"
  shows "\<exists>x c t. has_cost x \<and> log_lines (snd (run e a st))
      = log_lines st @ [StartLine tool (tenant_of a), EndLine tool (tenant_of a) c t x]"
proof -
  obtain x where x: "has_cost x" "log_lines (snd (run e a st))
      = log_lines st @ StartLine tool (tenant_of a) # end_lines tool (tenant_of a) (fst (run e a st)) x"
    using logs by blast
  have "\<exists>c t. end_lines tool (tenant_of a) (fst (run e a st)) x = [EndLine tool (tenant_of a) c t x]"
  proof (cases "fst (run e a st)")
    case (Inl y)
    then show ?thesis using assms by (cases y) (auto simp: end_lines_def)
  qed (simp add: end_lines_def)
  then show ?thesis using x by auto
qed

end

interpretation get_order_tool: observed_tool get_order go_tenant "''orders.get_order''"
proof unfold_locales
  fix e :: tool_env and a :: get_order_args and st :: call_state
  have b: "tool_body e (go_tenant a) (\<lambda>x. forward e \<lparr>req_method = ''GET'', req_url = ''/orders/'' @ go_order a,
      req_headers = call_headers e (go_tenant a), req_json = None\<rparr> (\<lambda>r x. x) (order_view e) x)"
    by (rule forward_body) auto
  show "\<exists>new. sent_http (snd (get_order e a st)) = sent_http st @ new \<and> length new \<le> 1
      \<and> (\<forall>q \<in> set new. scoped e (go_tenant a) q \<and> (id_tenant (te_ident e) = [] \<or> id_tenant (te_ident e) = go_tenant a))"
    unfolding get_order_def by (rule observe_body(1) [OF b])
  show "\<exists>x. has_cost x \<and> log_lines (snd (get_order e a st))
      = log_lines st @ StartLine ''orders.get_order'' (go_tenant a) # end_lines ''orders.get_order'' (go_tenant a) (fst (get_order e a st)) x"
    unfolding get_order_def by (rule observe_body(2) [OF b])
  show "fst (get_order e a st) = Inl (tenant_mismatch (id_tenant (te_ident e)) (go_tenant a))"
    if "id_tenant (te_ident e) \<noteq> []" "id_tenant (te_ident e) \<noteq> go_tenant a"
    unfolding get_order_def using observe_refuses [OF that] by blast
qed

interpretation refund_tool: observed_tool create_refund cr_tenant "''orders.create_refund''"
proof unfold_locales
  fix e :: tool_env and a :: create_refund_args and st :: call_state
  have "scoped e (cr_tenant a) (refund_request e a)"
    by (simp add: refund_request_def scoped_def call_headers_def mcp_auth_headers_def)
  then have b: "tool_body e (cr_tenant a) (\<lambda>x. forward e (refund_request e a) (\<lambda>r x. x) (refund_view e)
      (dict_set ''idempotency_key'' (JStr (cr_key a)) x))"
    by (rule forward_body) auto
  show "\<exists>new. sent_http (snd (create_refund e a st)) = sent_http st @ new \<and> length new \<le> 1
      \<and> (\<forall>q \<in> set new. scoped e (cr_tenant a) q \<and> (id_tenant (te_ident e) = [] \<or> id_tenant (te_ident e) = cr_tenant a))"
    unfolding create_refund_def by (rule observe_body(1) [OF b])
  show "\<exists>x. has_cost x \<and> log_lines (snd (create_refund e a st))
      = log_lines st @ StartLine ''orders.create_refund'' (cr_tenant a) # end_lines ''orders.create_refund'' (cr_tenant a) (fst (create_refund e a st)) x"
    unfolding create_refund_def by (rule observe_body(2) [OF b])
  show "fst (create_refund e a st) = Inl (tenant_mismatch (id_tenant (te_ident e)) (cr_tenant a))"
    if "id_tenant (te_ident e) \<noteq> []" "id_tenant (te_ident e) \<noteq> cr_tenant a"
    unfolding create_refund_def using observe_refuses [OF that] by blast
qed

lemma chat_body: "tool_body e (ca_tenant a)
     (\<lambda>x. let path = llm_proxy_chat_path (te_conf e);
              sh = wire_shape_of path;
              x1 = dict_set ''max_tokens'' (JInt (ca_max_tokens a))
                     (dict_set ''wire_shape'' (JStr (case sh of ChatShape \<Rightarrow> ''chat'' | CompletionsShape \<Rightarrow> ''completions''))
                       (dict_set ''turns'' (JInt (int (length (ca_messages a)))) x))
          in forward e \<lparr>req_method = ''POST'', req_url = normalised_llm_proxy_url (te_conf e) @ path,
                        req_headers = call_headers e (ca_tenant a), req_json = Some (request_body a sh)\<rparr>
               (\<lambda>r y. dict_set ''cost_source'' (JStr COST_SOURCE_PROXY) (dict_set ''cost_usd_minor'' (JInt (as_minor_units (resp_cost r))) y))
               (\<lambda>v. Inr (dump_reply (parse_reply e (as_dict v) sh))) x1)"
  unfolding Let_def by (rule forward_body) auto

interpretation chat_tool: observed_tool chat ca_tenant "''llm.chat''"
  by unfold_locales (unfold chat_def, rule observe_body(1) [OF chat_body], rule observe_body(2) [OF chat_body], simp add: observe_refuses)

lemma rag_body: "tool_body e (ra_tenant a)
     (\<lambda>x st. let x1 = dict_set ''cost_source'' (JStr COST_SOURCE_UNPRICED) (dict_set ''top_k'' (JInt (ra_top_k a)) x) in
        case wait_for (te_rag e (ra_question a) (ra_tenant a) (ra_top_k a)) of
          Inl TimeoutError \<Rightarrow>
            (Inl (rag_timeout (''rag timed out after '' @ te_seconds e (tool_timeout_rag_s (te_conf e)) @ ''s'')), x1, st)
        | Inl err \<Rightarrow> (Inl err, x1, st)
        | Inr result \<Rightarrow>
            (case rag_answer e (nat (ra_top_k a)) result of
               Inl err \<Rightarrow> (Inl err, x1, st)
             | Inr (cs, late, out) \<Rightarrow>
                 (Inr out, dict_set ''rerank_timed_out'' (JBool late) (dict_set ''citations'' (JInt (int (length cs))) x1), st)))"
  by (rule tool_bodyI) (auto simp: Let_def split: sum.split exn.split prod.split)

interpretation retrieval_tool: observed_tool rag_tool ra_tenant "''rag.retrieve_and_generate''"
  by unfold_locales (unfold rag_tool_def, rule observe_body(1) [OF rag_body], rule observe_body(2) [OF rag_body], simp add: observe_refuses)

end
