(* ===== verification/McpServer.thy ===== *)
theory McpServer
  imports McpTools
begin

text \<open>
  \<open>taxcalc_mcp_server/app.py\<close>, the published tool functions, the catalogue and the transports: from
  a client's request to its reply. The protocol library contributes three documented steps, written
  out where the code overrides them: it validates the arguments against the published signature, it
  wraps an exception of a tool into a \<open>ToolError\<close>, and its handler turns any exception into an
  in-band error text.
\<close>

section \<open>The published functions\<close>

text \<open>A text argument of the signature, with its bounds.\<close>

definition flat_str :: "jdict \<Rightarrow> string \<Rightarrow> (string \<Rightarrow> bool) \<Rightarrow> string option" where
  "flat_str d k ok = (case str_field d k of Some s \<Rightarrow> if ok s then Some s else None | None \<Rightarrow> None)"

definition bad_arguments :: "'s \<Rightarrow> json res \<times> 's" where
  "bad_arguments st = (Inl (ValidationError ''Arguments''), st)"

(* src/taxcalc-mcp-server/src/taxcalc_mcp_server/tools/orders.py:265-276 orders_get_order *)
definition orders_get_order :: "tool_env \<Rightarrow> jdict \<Rightarrow> call_state \<Rightarrow> json res \<times> call_state" where
  "orders_get_order e d st =
     (case (flat_str d ''order_id'' (str_between 1 64), flat_str d ''tenant_id'' (\<lambda>t. t \<in> set TENANTS)) of
        (Some oid, Some tenant) \<Rightarrow>
          (case mk_get_order_args oid tenant of Inl x \<Rightarrow> (Inl x, st) | Inr a \<Rightarrow> get_order e a st)
      | _ \<Rightarrow> bad_arguments st)"

text \<open>
  The signature of \<open>orders_create_refund\<close> declares \<open>amount\<close> as a decimal above zero, so the library
  converts it first; the validators of \<open>CreateRefundArgs\<close> see the decimal it made.
\<close>

(* src/taxcalc-mcp-server/src/taxcalc_mcp_server/tools/orders.py:322-347 orders_create_refund *)
definition orders_create_refund :: "tool_env \<Rightarrow> jdict \<Rightarrow> call_state \<Rightarrow> json res \<times> call_state" where
  "orders_create_refund e d st =
     (case (flat_str d ''order_id'' (str_between 1 64), Option.bind (dict_get d ''amount'') (te_dec e),
            flat_str d ''reason'' (str_between 4 200), flat_str d ''tenant_id'' (\<lambda>t. t \<in> set TENANTS),
            Option.bind (dict_get d ''idempotency_key'') (te_uuid e)) of
        (Some oid, Some amount, Some reason, Some tenant, Some key) \<Rightarrow>
          (if \<not> finite_positive amount then bad_arguments st
           else case mk_create_refund_args e oid (MDec amount) reason tenant key of
                  Inl x \<Rightarrow> (Inl x, st) | Inr a \<Rightarrow> create_refund e a st)
      | _ \<Rightarrow> bad_arguments st)"

definition flat_messages :: "jdict \<Rightarrow> chat_message list option" where
  "flat_messages d = (case dict_get d ''messages'' of
     Some (JList xs) \<Rightarrow> (if list_all (\<lambda>v. chat_message_of v \<noteq> None) xs \<and> 1 \<le> length xs \<and> length xs \<le> 50
        then Some (map (\<lambda>v. the (chat_message_of v)) xs) else None)
   | _ \<Rightarrow> None)"

definition flat_int :: "tool_env \<Rightarrow> jdict \<Rightarrow> string \<Rightarrow> int \<Rightarrow> int \<Rightarrow> int option" where
  "flat_int e d k lo hi = (case Option.bind (dict_get d k) (te_int e) of
     Some n \<Rightarrow> if lo \<le> n \<and> n \<le> hi then Some n else None | None \<Rightarrow> None)"

(* src/taxcalc-mcp-server/src/taxcalc_mcp_server/tools/llm.py:252-267 llm_chat *)
definition llm_chat :: "tool_env \<Rightarrow> jdict \<Rightarrow> call_state \<Rightarrow> json res \<times> call_state" where
  "llm_chat e d st =
     (case (flat_messages d, flat_int e d ''max_tokens'' 1 4096, flat_str d ''tenant_id'' (\<lambda>t. t \<in> set TENANTS)) of
        (Some ms, Some n, Some tenant) \<Rightarrow>
          (case mk_chat_args ms n tenant of Inl x \<Rightarrow> (Inl x, st) | Inr a \<Rightarrow> chat e a st)
      | _ \<Rightarrow> bad_arguments st)"

(* src/taxcalc-mcp-server/src/taxcalc_mcp_server/tools/rag.py:197-212 rag_retrieve_and_generate *)
definition rag_retrieve_and_generate :: "tool_env \<Rightarrow> jdict \<Rightarrow> call_state \<Rightarrow> json res \<times> call_state" where
  "rag_retrieve_and_generate e d st =
     (case (flat_str d ''question'' (str_between 2 2000), flat_str d ''tenant_id'' (\<lambda>t. t \<in> set TENANTS),
            (case dict_get d ''top_k'' of None \<Rightarrow> Some 6 | Some v \<Rightarrow> flat_int e d ''top_k'' 1 20)) of
        (Some q, Some tenant, Some k) \<Rightarrow>
          (case mk_rag_args q tenant k of Inl x \<Rightarrow> (Inl x, st) | Inr a \<Rightarrow> rag_tool e a st)
      | _ \<Rightarrow> bad_arguments st)"

section \<open>The server\<close>

text \<open>\<open>str\<close> of an exception: the message it carries.\<close>

fun message_of :: "exn \<Rightarrow> string" where
  "message_of (McpError c m) = m"
| "message_of (OtherError n m) = m"
| "message_of (ValueError m) = m"
| "message_of (TypeError m) = m"
| "message_of (KeyError m) = m"
| "message_of (RuntimeError m) = m"
| "message_of (GraphRecursionError m) = m"
| "message_of (ValidationError m) = m"
| "message_of (DependencyUnavailable m) = m"
| "message_of x = exn_name x"

type_synonym tool_fun = "tool_env \<Rightarrow> jdict \<Rightarrow> call_state \<Rightarrow> json res \<times> call_state"

record published_tool =
  ts_name :: string
  ts_params :: "string list"
  ts_strict :: bool
  ts_run :: tool_fun

text \<open>A request handler: the library's own, or one the server wrapped around it.\<close>

datatype handler = Original | Structured handler

record server =
  sv_tools :: "published_tool list"
  sv_handler :: "handler option"

definition registered :: "published_tool list" where
  "registered =
     [\<lparr>ts_name = ''llm.chat'', ts_params = [''messages'', ''max_tokens'', ''tenant_id''], ts_strict = False, ts_run = llm_chat\<rparr>,
      \<lparr>ts_name = ''orders.get_order'', ts_params = [''order_id'', ''tenant_id''], ts_strict = False, ts_run = orders_get_order\<rparr>,
      \<lparr>ts_name = ''orders.create_refund'', ts_params = [''order_id'', ''amount'', ''reason'', ''tenant_id'', ''idempotency_key''],
        ts_strict = False, ts_run = orders_create_refund\<rparr>,
      \<lparr>ts_name = ''rag.retrieve_and_generate'', ts_params = [''question'', ''tenant_id'', ''top_k''], ts_strict = False,
        ts_run = rag_retrieve_and_generate\<rparr>]"

definition mcp_server :: server where
  "mcp_server = \<lparr>sv_tools = registered, sv_handler = Some Original\<rparr>"

text \<open>One tool call below the override: unknown keys are dropped unless the envelope is strict.\<close>

definition run_tool :: "server \<Rightarrow> tool_env \<Rightarrow> string \<Rightarrow> jdict \<Rightarrow> call_state \<Rightarrow> json res \<times> call_state" where
  "run_tool sv e name d st = (case find (\<lambda>t. ts_name t = name) (sv_tools sv) of
     None \<Rightarrow> (Inl (OtherError ''ToolError'' (''Unknown tool: '' @ name)), st)
   | Some t \<Rightarrow> (if ts_strict t \<and> \<not> set (dict_keys d) \<subseteq> set (ts_params t) then bad_arguments st else ts_run t e d st))"

definition INVALID_PARAMS :: int where "INVALID_PARAMS = - 32602"

text \<open>
  \<open>call_tool\<close>: the library's dispatch wraps every exception of a tool into a \<open>ToolError\<close> that keeps
  its cause; a structured cause is recorded as pending and raised in its place.
\<close>

type_synonym pending = "(int \<times> string) option"

(* src/taxcalc-mcp-server/src/taxcalc_mcp_server/app.py:282-313 StructuredErrorFastMCP.call_tool *)
definition call_tool :: "server \<Rightarrow> tool_env \<Rightarrow> string \<Rightarrow> jdict \<Rightarrow> pending \<times> call_state \<Rightarrow> json res \<times> pending \<times> call_state" where
  "call_tool sv e name d ps =
     (let (pend, st) = ps; (r, st') = run_tool sv e name d st in
      case r of
        Inr v \<Rightarrow> (Inr v, pend, st')
      | Inl (McpError c m) \<Rightarrow> (Inl (McpError c m), Some (c, m), st')
      | Inl (ValidationError m) \<Rightarrow> (Inl (McpError INVALID_PARAMS m), Some (INVALID_PARAMS, m), st')
      | Inl Cancelled \<Rightarrow> (Inl Cancelled, pend, st')
      | Inl (OtherError n m) \<Rightarrow>
          (if n = ''ToolError'' then (Inl (OtherError n m), pend, st')
           else (Inl (OtherError ''ToolError'' (''Error executing tool '' @ name @ '': '' @ m)), pend, st'))
      | Inl x \<Rightarrow> (Inl (OtherError ''ToolError'' (''Error executing tool '' @ name @ '': '' @ message_of x)), pend, st'))"

text \<open>What the client gets: a result, an in-band error text, or an error with a code.\<close>

datatype reply = Result json | InBand string | Coded int string

(* src/taxcalc-mcp-server/src/taxcalc_mcp_server/app.py:342-354 install_structured_error_handler.handler *)
fun handle :: "handler \<Rightarrow> server \<Rightarrow> tool_env \<Rightarrow> string \<Rightarrow> jdict \<Rightarrow> pending \<times> call_state \<Rightarrow> reply res \<times> pending \<times> call_state" where
  "handle Original sv e name d ps = (case call_tool sv e name d ps of
     (Inr v, ps') \<Rightarrow> (Inr (Result v), ps')
   | (Inl x, ps') \<Rightarrow> ((if is_exception x then Inr (InBand (message_of x)) else Inl x), ps'))"
| "handle (Structured h) sv e name d ps = (case handle h sv e name d (None, snd ps) of
     (Inl x, ps') \<Rightarrow> (Inl x, ps')
   | (Inr r, pend, st) \<Rightarrow> (case pend of None \<Rightarrow> (Inr r, pend, st) | Some (c, m) \<Rightarrow> (Inl (McpError c m), pend, st)))"

text \<open>The outermost layer answers a raised \<open>McpError\<close> with its code.\<close>

definition serve_call :: "server \<Rightarrow> tool_env \<Rightarrow> string \<Rightarrow> jdict \<Rightarrow> pending \<times> call_state \<Rightarrow> reply res \<times> pending \<times> call_state" where
  "serve_call sv e name d ps = (case sv_handler sv of
     None \<Rightarrow> (Inr (Coded (- 32601) ''Method not found''), ps)
   | Some h \<Rightarrow> (case handle h sv e name d ps of
        (Inl (McpError c m), ps') \<Rightarrow> (Inr (Coded c m), ps')
      | x \<Rightarrow> x))"

(* src/taxcalc-mcp-server/src/taxcalc_mcp_server/app.py:316-361 install_structured_error_handler *)
definition install_structured_error_handler :: "server \<Rightarrow> server" where
  "install_structured_error_handler sv = (case sv_handler sv of
     Some Original \<Rightarrow> sv\<lparr>sv_handler := Some (Structured Original)\<rparr>
   | _ \<Rightarrow> sv)"

(* src/taxcalc-mcp-server/src/taxcalc_mcp_server/app.py:394-436 enforce_strict_tool_schemas *)
definition enforce_strict_tool_schemas :: "server \<Rightarrow> nat \<times> server" where
  "enforce_strict_tool_schemas sv =
     (let sv1 = install_structured_error_handler sv
      in (length (sv_tools sv1), sv1\<lparr>sv_tools := map (\<lambda>t. t\<lparr>ts_strict := True\<rparr>) (sv_tools sv1)\<rparr>))"

section \<open>The transports\<close>

(* src/taxcalc-mcp-server/src/taxcalc_mcp_server/transports/stdio.py:21-35 main *)
definition stdio_main :: "server \<Rightarrow> server res" where
  "stdio_main sv = (let (n, sv') = enforce_strict_tool_schemas sv
     in if n = 0 then Inl (RuntimeError ''no MCP tools registered'') else Inr sv')"

(* src/taxcalc-mcp-server/src/taxcalc_mcp_server/transports/sse.py:156-181 build_app *)
definition build_app :: "server \<Rightarrow> server res" where
  "build_app sv = (let (n, sv') = enforce_strict_tool_schemas sv
     in if n = 0 then Inl (RuntimeError ''no MCP tools registered'') else Inr sv')"

(* src/taxcalc-mcp-server/src/taxcalc_mcp_server/transports/sse.py:54-57 UNAUTHORIZED_CODE *)
definition UNAUTHORIZED_CODE :: int where "UNAUTHORIZED_CODE = 4030"

text \<open>
  The middleware. \<open>decode\<close> is the verification of a token by the JWT library: its claims, or an
  exception, of which only \<open>PyJWTError\<close> is a verdict. The request goes on with an identity, or it is
  refused with a status and a body.
\<close>

datatype gate = PassOn "identity option" | Refuse int json

(* src/taxcalc-mcp-server/src/taxcalc_mcp_server/transports/sse.py:123-141 BearerMiddleware._validate *)
definition validate_bearer :: "(string \<Rightarrow> jdict res) \<Rightarrow> (json \<Rightarrow> string) \<Rightarrow> string \<Rightarrow> string res" where
  "validate_bearer decode rp token =
     bind_res (decode token) (\<lambda>claims. Inr (py_str rp (get_or claims ''tenant_id'' (JStr []))))"

(* src/taxcalc-mcp-server/src/taxcalc_mcp_server/transports/sse.py:143-153 BearerMiddleware._refuse *)
definition refuse :: "string \<Rightarrow> gate" where
  "refuse m = Refuse 401 (JObj [(''code'', JInt UNAUTHORIZED_CODE), (''message'', JStr m)])"

(* src/taxcalc-mcp-server/src/taxcalc_mcp_server/transports/sse.py:91-121 BearerMiddleware.__call__ *)
definition bearer_middleware :: "mcp_settings \<Rightarrow> (string \<Rightarrow> jdict res) \<Rightarrow> (json \<Rightarrow> string) \<Rightarrow> string \<Rightarrow> string option \<Rightarrow> gate res" where
  "bearer_middleware s decode rp scope header =
     (if scope \<noteq> ''http'' then Inr (PassOn None)
      else (let token = parse_bearer header in
        if token = [] then Inr (refuse ''missing bearer token'')
        else if jwks_url s = [] then Inr (PassOn (Some (set_request_identity token [])))
        else (case validate_bearer decode rp token of
                Inr tenant \<Rightarrow> Inr (PassOn (Some (set_request_identity token tenant)))
              | Inl x \<Rightarrow> (if exn_name x = ''PyJWTError'' then Inr (refuse ''bearer token rejected'') else Inl x))))"

section \<open>The pipeline's clients\<close>

text \<open>
  \<open>_RAG_CLIENTS\<close>: a dictionary that is filled on the first use. \<open>open_anthropic\<close>, \<open>open_pg\<close> and
  \<open>open_redis\<close> say whether a client could be opened now.
\<close>

record client_opening =
  open_anthropic :: "unit res"
  open_pg :: "unit res"
  open_redis :: "unit res"

definition need :: "string \<Rightarrow> string list \<Rightarrow> unit res" where
  "need k cs = (if k \<in> set cs then Inr () else Inl (KeyError k))"

(* src/taxcalc-mcp-server/src/taxcalc_mcp_server/app.py:134-154 _rag_clients *)
definition rag_clients :: "client_opening \<Rightarrow> string list \<Rightarrow> unit res \<times> string list" where
  "rag_clients o' cs =
     (let (r, cs1) = (if cs \<noteq> [] then (Inr (), cs)
        else case open_anthropic o' of Inl x \<Rightarrow> (Inl x, cs)
          | Inr _ \<Rightarrow> (case open_pg o' of Inl x \<Rightarrow> (Inl x, [''anthropic''])
             | Inr _ \<Rightarrow> (case open_redis o' of Inl x \<Rightarrow> (Inl x, [''anthropic'', ''conn''])
                | Inr _ \<Rightarrow> (Inr (), [''anthropic'', ''conn'', ''redis'']))))
      in (case r of Inl x \<Rightarrow> Inl x | Inr _ \<Rightarrow> bind_res (need ''conn'' cs1) (\<lambda>_. need ''redis'' cs1), cs1))"

(* src/taxcalc-mcp-server/src/taxcalc_mcp_server/app.py:157-189 rag_entrypoint *)
definition rag_entrypoint ::
  "(string \<Rightarrow> string \<Rightarrow> jdict res) \<Rightarrow> client_opening \<Rightarrow> string \<Rightarrow> string \<Rightarrow> int \<Rightarrow> string list \<Rightarrow> jdict res \<times> string list" where
  "rag_entrypoint pipeline o' q tenant top_k cs =
     (let (r, cs') = rag_clients o' cs in (bind_res r (\<lambda>_. pipeline q tenant), cs'))"

section \<open>The catalogue\<close>

(* src/taxcalc-mcp-server/src/taxcalc_mcp_server/tools/_resources.py:34-63 _TOOLS *)
definition catalogue_tools :: "jdict list" where
  "catalogue_tools =
     [[(''name'', JStr ''orders.get_order''), (''write'', JBool False), (''idempotent'', JBool True),
       (''summary'', JStr ''Read one order's total and status for a tenant.'')],
      [(''name'', JStr ''orders.create_refund''), (''write'', JBool True), (''idempotent'', JBool True),
       (''idempotency_key'', JStr ''idempotency_key (UUID v4)''),
       (''summary'', JStr ''Refund an order. Safe to retry with the same key; never double-debits.'')],
      [(''name'', JStr ''llm.chat''), (''write'', JBool False), (''idempotent'', JBool False),
       (''summary'', JStr ''Ungrounded chat through the cost-tracked LLM proxy.'')],
      [(''name'', JStr ''rag.retrieve_and_generate''), (''write'', JBool False), (''idempotent'', JBool False),
       (''summary'', JStr ''Answer from the tenant's document corpus, with citations and coverage.'')]]"

(* src/taxcalc-mcp-server/src/taxcalc_mcp_server/tools/_resources.py:65-81 _CORPUS_CHUNKS_PER_TENANT *)
definition CORPUS_CHUNKS_PER_TENANT :: "(string, int) dict" where
  "CORPUS_CHUNKS_PER_TENANT = [(''tenant-a'', 36), (''tenant-b'', 33), (''tenant-c'', 31)]"

(* src/taxcalc-mcp-server/src/taxcalc_mcp_server/tools/_resources.py:83-101 _CORPUS *)
definition catalogue_corpus :: jdict where
  "catalogue_corpus =
     [(''tenants'', JList (map JStr (dict_keys CORPUS_CHUNKS_PER_TENANT))),
      (''size'', JObj [(''chunks'', JInt (sum_list (map snd CORPUS_CHUNKS_PER_TENANT))),
        (''documents'', JInt (sum_list (map snd CORPUS_CHUNKS_PER_TENANT))),
        (''chunks_per_tenant'', JObj (map (\<lambda>(k, n). (k, JInt n)) CORPUS_CHUNKS_PER_TENANT))]),
      (''retrieval'', JStr ''hybrid dense+sparse, RRF fused, MMR diversified, cross-encoder reranked''),
      (''default_top_k'', JInt 6), (''max_top_k'', JInt 20)]"

(* src/taxcalc-mcp-server/src/taxcalc_mcp_server/tools/_resources.py:119-137 catalogue *)
definition catalogue :: "string \<Rightarrow> jdict" where
  "catalogue version = [(''server'', JStr ''taxcalc-mcp-server''), (''version'', JStr version),
     (''tools'', JList (map JObj catalogue_tools)), (''corpus'', JObj catalogue_corpus)]"

end
