(* ===== verification/McpLaws.thy ===== *)
theory McpLaws
  imports McpServer
begin

text \<open>
  What the tool server promises a client: every request it sends is in the tenant's name, an error
  keeps its code, every call is logged, money reaches the wire unchanged, the gate in front of it
  lets no unverified caller through. The published functions meet one contract (locale
  \<open>published_fun\<close>), the dispatch above them adds nothing to the state.
\<close>

section \<open>A contract of the published functions\<close>

definition scoped_new :: "tool_env \<Rightarrow> jdict \<Rightarrow> call_state \<Rightarrow> call_state \<Rightarrow> bool" where
  "scoped_new e d st st' \<longleftrightarrow> (\<exists>new. sent_http st' = sent_http st @ new \<and> length new \<le> 1
     \<and> (\<forall>q \<in> set new. \<exists>t \<in> set TENANTS. str_field d ''tenant_id'' = Some t \<and> scoped e t q
          \<and> (id_tenant (te_ident e) = [] \<or> id_tenant (te_ident e) = t)))"

definition logged_call :: "string \<Rightarrow> json res \<Rightarrow> call_state \<Rightarrow> call_state \<Rightarrow> bool" where
  "logged_call tool r st st' \<longleftrightarrow> log_lines st' = log_lines st \<and> r \<noteq> Inl Cancelled \<and> (\<exists>x. r = Inl x)
     \<or> (\<exists>t \<in> set TENANTS. \<exists>x. has_cost x \<and> log_lines st' = log_lines st @ StartLine tool t # end_lines tool t r x)"

lemma scoped_new_same [simp]: "scoped_new e d st st"
  by (simp add: scoped_new_def)

lemma flat_strD: "flat_str d k ok = Some s \<Longrightarrow> str_field d k = Some s \<and> ok s"
  by (auto simp: flat_str_def split: option.splits if_splits)

text \<open>
  A published function either fails before its inner tool, or runs the inner tool with arguments
  whose tenant is the call's.
\<close>

locale published_fun = observed_tool run tenant_of tool
  for run :: "tool_env \<Rightarrow> 'a \<Rightarrow> call_state \<Rightarrow> json res \<times> call_state"
    and tenant_of :: "'a \<Rightarrow> string"
    and tool :: string +
  fixes pub :: "tool_env \<Rightarrow> jdict \<Rightarrow> call_state \<Rightarrow> json res \<times> call_state"
  assumes stages: "(\<exists>x. pub e d st = (Inl x, st) \<and> x \<noteq> Cancelled)
      \<or> (\<exists>a. pub e d st = run e a st \<and> tenant_of a \<in> set TENANTS \<and> str_field d ''tenant_id'' = Some (tenant_of a))"
begin

lemma pub_scoped: "scoped_new e d st (snd (pub e d st))"
  using stages [of e d st]
proof (elim disjE exE conjE)
  fix a
  assume a: "pub e d st = run e a st" "tenant_of a \<in> set TENANTS" "str_field d ''tenant_id'' = Some (tenant_of a)"
  then show ?thesis using sends [of e a st] unfolding scoped_new_def by auto
qed simp

lemma pub_logged: "logged_call tool (fst (pub e d st)) st (snd (pub e d st))"
  using stages [of e d st]
proof (elim disjE exE conjE)
  fix a
  assume a: "pub e d st = run e a st" "tenant_of a \<in> set TENANTS"
  then show ?thesis using logs [of e a st] unfolding logged_call_def by auto
qed (simp add: logged_call_def)

lemma pub_foreign:
  assumes "id_tenant (te_ident e) \<noteq> []" and "str_field d ''tenant_id'' \<noteq> Some (id_tenant (te_ident e))"
  shows "sent_http (snd (pub e d st)) = sent_http st \<and> (\<forall>v. fst (pub e d st) \<noteq> Inr v)"
  using stages [of e d st]
proof (elim disjE exE conjE)
  fix a
  assume "pub e d st = run e a st" "str_field d ''tenant_id'' = Some (tenant_of a)"
  then show ?thesis using foreign_sends_nothing [of e a st] refuses [of e a st] assms by auto
qed simp

end

lemma no_flat_bad: "bad_arguments st = (Inl (ValidationError ''Arguments''), st)"
  by (simp add: bad_arguments_def)

interpretation get_order_pub: published_fun get_order go_tenant "''orders.get_order''" orders_get_order
proof unfold_locales
  fix e :: tool_env and d and st :: call_state
  show "(\<exists>x. orders_get_order e d st = (Inl x, st) \<and> x \<noteq> Cancelled)
      \<or> (\<exists>a. orders_get_order e d st = get_order e a st \<and> go_tenant a \<in> set TENANTS
          \<and> str_field d ''tenant_id'' = Some (go_tenant a))"
    by (cases "flat_str d ''order_id'' (str_between 1 64)"; cases "flat_str d ''tenant_id'' (\<lambda>t. t \<in> set TENANTS)")
       (auto simp: orders_get_order_def bad_arguments_def mk_get_order_args_def dest!: flat_strD)
qed

interpretation chat_pub: published_fun chat ca_tenant "''llm.chat''" llm_chat
proof unfold_locales
  fix e :: tool_env and d and st :: call_state
  show "(\<exists>x. llm_chat e d st = (Inl x, st) \<and> x \<noteq> Cancelled)
      \<or> (\<exists>a. llm_chat e d st = chat e a st \<and> ca_tenant a \<in> set TENANTS \<and> str_field d ''tenant_id'' = Some (ca_tenant a))"
    by (cases "flat_messages d"; cases "flat_int e d ''max_tokens'' 1 4096"; cases "flat_str d ''tenant_id'' (\<lambda>t. t \<in> set TENANTS)")
       (auto simp: llm_chat_def bad_arguments_def mk_chat_args_def dest!: flat_strD)
qed

interpretation rag_pub: published_fun rag_tool ra_tenant "''rag.retrieve_and_generate''" rag_retrieve_and_generate
proof unfold_locales
  fix e :: tool_env and d and st :: call_state
  let ?k = "case dict_get d ''top_k'' of None \<Rightarrow> Some 6 | Some v \<Rightarrow> flat_int e d ''top_k'' 1 20"
  show "(\<exists>x. rag_retrieve_and_generate e d st = (Inl x, st) \<and> x \<noteq> Cancelled)
      \<or> (\<exists>a. rag_retrieve_and_generate e d st = rag_tool e a st \<and> ra_tenant a \<in> set TENANTS
          \<and> str_field d ''tenant_id'' = Some (ra_tenant a))"
    unfolding rag_retrieve_and_generate_def
    by (cases "flat_str d ''question'' (str_between 2 2000)"; cases "flat_str d ''tenant_id'' (\<lambda>t. t \<in> set TENANTS)"; cases ?k)
       (auto simp: bad_arguments_def mk_rag_args_def dest!: flat_strD)
qed

lemma mk_create_refund_args_cases:
  "(\<exists>x. mk_create_refund_args e oid amount reason tenant key = Inl x \<and> x \<noteq> Cancelled)
     \<or> (\<exists>a. mk_create_refund_args e oid amount reason tenant key = Inr a \<and> cr_tenant a = tenant)"
proof (cases "bind_res (reject_inexact_binary amount) (\<lambda>v. bind_res (money_decimal e v) enforce_money_scale)")
  case (Inl x)
  then have "x \<noteq> Cancelled"
    by (auto simp: bind_res_def reject_inexact_binary_def money_decimal_def enforce_money_scale_def
        split: sum.splits if_splits option.splits)
  then show ?thesis using Inl by (simp add: mk_create_refund_args_def)
qed (auto simp: mk_create_refund_args_def)

interpretation refund_pub: published_fun create_refund cr_tenant "''orders.create_refund''" orders_create_refund
proof unfold_locales
  fix e :: tool_env and d and st :: call_state
  show "(\<exists>x. orders_create_refund e d st = (Inl x, st) \<and> x \<noteq> Cancelled)
      \<or> (\<exists>a. orders_create_refund e d st = create_refund e a st \<and> cr_tenant a \<in> set TENANTS
          \<and> str_field d ''tenant_id'' = Some (cr_tenant a))"
  proof (cases "\<exists>oid amount reason tenant key. flat_str d ''order_id'' (str_between 1 64) = Some oid
      \<and> Option.bind (dict_get d ''amount'') (te_dec e) = Some amount \<and> finite_positive amount
      \<and> flat_str d ''reason'' (str_between 4 200) = Some reason
      \<and> flat_str d ''tenant_id'' (\<lambda>t. t \<in> set TENANTS) = Some tenant
      \<and> Option.bind (dict_get d ''idempotency_key'') (te_uuid e) = Some key")
    case True
    then obtain oid amount reason tenant key where f: "flat_str d ''order_id'' (str_between 1 64) = Some oid"
      "Option.bind (dict_get d ''amount'') (te_dec e) = Some amount" "finite_positive amount"
      "flat_str d ''reason'' (str_between 4 200) = Some reason" "flat_str d ''tenant_id'' (\<lambda>t. t \<in> set TENANTS) = Some tenant"
      "Option.bind (dict_get d ''idempotency_key'') (te_uuid e) = Some key" by blast
    then show ?thesis
      using mk_create_refund_args_cases [of e oid "MDec amount" reason tenant key] flat_strD [OF f(5)]
      by (auto simp: orders_create_refund_def)
  next
    case False
    then have "orders_create_refund e d st = bad_arguments st"
      by (auto simp: orders_create_refund_def split: option.splits)
    then show ?thesis by (simp add: bad_arguments_def)
  qed
qed

section \<open>The dispatch\<close>

text \<open>The server both transports run: structured errors installed, envelopes strict.\<close>

definition hardened :: server where
  "hardened = snd (enforce_strict_tool_schemas mcp_server)"

lemma hardened_tools: "sv_tools hardened = map (\<lambda>t. t\<lparr>ts_strict := True\<rparr>) registered"
  by (simp add: hardened_def enforce_strict_tool_schemas_def install_structured_error_handler_def mcp_server_def Let_def)

lemma hardened_handler: "sv_handler hardened = Some (Structured Original)"
  by (simp add: hardened_def enforce_strict_tool_schemas_def install_structured_error_handler_def mcp_server_def Let_def)

lemma find_map_strict: "find (\<lambda>t. ts_name t = n) (map (\<lambda>t. t\<lparr>ts_strict := True\<rparr>) ts)
    = map_option (\<lambda>t. t\<lparr>ts_strict := True\<rparr>) (find (\<lambda>t. ts_name t = n) ts)"
  by (induction ts) auto

lemma call_tool_state [simp]: "snd (snd (call_tool sv e n d (p, st))) = snd (run_tool sv e n d st)"
  by (auto simp: call_tool_def split: prod.splits sum.splits exn.splits)

lemma handle_state: "snd (snd (handle h sv e n d ps)) = snd (run_tool sv e n d (snd ps))"
proof (induction h arbitrary: ps)
  case Original
  obtain p st where "ps = (p, st)" by (cases ps)
  obtain r p' st' where "call_tool sv e n d (p, st) = (r, p', st')" by (cases "call_tool sv e n d (p, st)")
  then show ?case using \<open>ps = (p, st)\<close> call_tool_state [of sv e n d p st] by (cases r) simp_all
next
  case (Structured h)
  show ?case using Structured [of "(None, snd ps)"] by (auto split: prod.splits sum.splits option.splits)
qed

lemma serve_state:
  assumes "sv_handler sv = Some h"
  shows "snd (snd (serve_call sv e n d ps)) = snd (run_tool sv e n d (snd ps))"
  using handle_state [of h sv e n d ps] assms
  by (auto simp: serve_call_def split: prod.splits sum.splits exn.splits)

text \<open>What the client gets for each outcome of a call, whatever an earlier call left pending.\<close>

definition coded_reply :: "string \<Rightarrow> json res \<Rightarrow> reply res" where
  "coded_reply n r = (case r of
     Inr v \<Rightarrow> Inr (Result v)
   | Inl (McpError c m) \<Rightarrow> Inr (Coded c m)
   | Inl (ValidationError m) \<Rightarrow> Inr (Coded INVALID_PARAMS m)
   | Inl Cancelled \<Rightarrow> Inl Cancelled
   | Inl (OtherError k m) \<Rightarrow> Inr (InBand (if k = ''ToolError'' then m else ''Error executing tool '' @ n @ '': '' @ m))
   | Inl x \<Rightarrow> Inr (InBand (''Error executing tool '' @ n @ '': '' @ message_of x)))"

lemma structured_reply:
  assumes "sv_handler sv = Some (Structured Original)"
  shows "fst (serve_call sv e n d (p, st)) = coded_reply n (fst (run_tool sv e n d st))"
proof (cases "run_tool sv e n d st")
  case (Pair r st')
  show ?thesis
  proof (cases r)
    case (Inl x)
    then show ?thesis using Pair assms by (cases x) (simp_all add: serve_call_def call_tool_def coded_reply_def)
  next
    case (Inr v)
    then show ?thesis using Pair assms by (simp add: serve_call_def call_tool_def coded_reply_def)
  qed
qed

lemma plain_reply_uncoded:
  assumes "sv_handler sv = Some Original"
  shows "fst (serve_call sv e n d ps) \<noteq> Inr (Coded c m)"
proof -
  obtain p st where ps: "ps = (p, st)" by (cases ps)
  obtain r st' where r: "run_tool sv e n d st = (r, st')" by (cases "run_tool sv e n d st")
  show ?thesis
  proof (cases r)
    case (Inl x)
    then show ?thesis using ps r assms by (cases x) (simp_all add: serve_call_def call_tool_def)
  next
    case (Inr v)
    then show ?thesis using ps r assms by (simp add: serve_call_def call_tool_def)
  qed
qed

text \<open>A call of a tool of the hardened server: unknown keys are refused before anything runs.\<close>

lemma run_hardened:
  "run_tool hardened e n d st = (Inl (OtherError ''ToolError'' (''Unknown tool: '' @ n)), st)
   \<or> run_tool hardened e n d st = bad_arguments st
   \<or> (\<exists>t \<in> set registered. ts_name t = n \<and> set (dict_keys d) \<subseteq> set (ts_params t) \<and> run_tool hardened e n d st = ts_run t e d st)"
proof (cases "find (\<lambda>t. ts_name t = n) registered")
  case None
  then show ?thesis by (simp add: run_tool_def hardened_tools find_map_strict)
next
  case (Some t)
  then have "t \<in> set registered" "ts_name t = n" by (auto simp: find_Some_iff)
  then show ?thesis using Some by (auto simp: run_tool_def hardened_tools find_map_strict)
qed

lemma registered_cases:
  assumes "t \<in> set registered"
  shows "t = \<lparr>ts_name = ''llm.chat'', ts_params = [''messages'', ''max_tokens'', ''tenant_id''], ts_strict = False, ts_run = llm_chat\<rparr>
    \<or> t = \<lparr>ts_name = ''orders.get_order'', ts_params = [''order_id'', ''tenant_id''], ts_strict = False, ts_run = orders_get_order\<rparr>
    \<or> t = \<lparr>ts_name = ''orders.create_refund'', ts_params = [''order_id'', ''amount'', ''reason'', ''tenant_id'', ''idempotency_key''],
        ts_strict = False, ts_run = orders_create_refund\<rparr>
    \<or> t = \<lparr>ts_name = ''rag.retrieve_and_generate'', ts_params = [''question'', ''tenant_id'', ''top_k''], ts_strict = False,
        ts_run = rag_retrieve_and_generate\<rparr>"
  using assms unfolding registered_def list.set insert_iff empty_iff by argo

lemma registered_scoped:
  assumes "t \<in> set registered"
  shows "scoped_new e d st (snd (ts_run t e d st))"
  using registered_cases [OF assms]
  by (elim disjE) (simp_all add: chat_pub.pub_scoped get_order_pub.pub_scoped refund_pub.pub_scoped rag_pub.pub_scoped)

lemma registered_logged:
  assumes "t \<in> set registered"
  shows "logged_call (ts_name t) (fst (ts_run t e d st)) st (snd (ts_run t e d st))"
  using registered_cases [OF assms]
  by (elim disjE) (simp_all add: chat_pub.pub_logged get_order_pub.pub_logged refund_pub.pub_logged rag_pub.pub_logged)

lemma run_hardened_scoped: "scoped_new e d st (snd (run_tool hardened e n d st))"
  using run_hardened [of e n d st] by (auto simp: bad_arguments_def registered_scoped)

lemma run_hardened_logged: "logged_call n (fst (run_tool hardened e n d st)) st (snd (run_tool hardened e n d st))"
  using run_hardened [of e n d st]
  by (auto simp: bad_arguments_def registered_logged) (auto simp: logged_call_def)

lemma registered_foreign:
  assumes "t \<in> set registered"
    and "id_tenant (te_ident e) \<noteq> []" and "str_field d ''tenant_id'' \<noteq> Some (id_tenant (te_ident e))"
  shows "sent_http (snd (ts_run t e d st)) = sent_http st" and "fst (ts_run t e d st) \<noteq> Inr v"
  using registered_cases [OF assms(1)] assms(2,3)
  by (elim disjE; simp add: chat_pub.pub_foreign get_order_pub.pub_foreign refund_pub.pub_foreign rag_pub.pub_foreign)+

lemma run_hardened_foreign:
  assumes "id_tenant (te_ident e) \<noteq> []" and "str_field d ''tenant_id'' \<noteq> Some (id_tenant (te_ident e))"
  shows "sent_http (snd (run_tool hardened e n d st)) = sent_http st" and "fst (run_tool hardened e n d st) \<noteq> Inr v"
  using run_hardened [of e n d st] by (auto simp: bad_arguments_def registered_foreign [OF _ assms])

lemma end_lines_cases: "(r = Inl Cancelled \<and> end_lines n t r x = []) \<or> (\<exists>c y. end_lines n t r x = [EndLine n t c y x])"
proof (cases r)
  case (Inl z)
  then show ?thesis by (cases z) (simp_all add: end_lines_def)
qed (simp add: end_lines_def)

section \<open>A concrete server\<close>

text \<open>Settings, services and callers the witnesses use.\<close>

definition demo_conf :: mcp_settings where
  "demo_conf = \<lparr>orders_svc_url = ''http://orders/'', llm_proxy_url = ''http://llm'', llm_proxy_chat_path = ''/v1/complete'',
     mcp_langsmith_project = ''p'', tool_timeout_default_s = 10, tool_timeout_rag_s = 30, mcp_bearer_jwt = ''svc'',
     jwks_url = ''http://jwks'', jwt_audience = ''aud'', mcp_host = ''::'', mcp_port = 8000\<rparr>"

definition demo_order :: json where
  "demo_order = JObj [(''order_id'', JStr ''o1''), (''tenant_id'', JStr ''tenant-a''), (''total'', JStr ''7.50''), (''status'', JStr ''open'')]"

definition demo_dec :: "json \<Rightarrow> dec option" where
  "demo_dec j = (case j of JStr s \<Rightarrow> dec_parse s | JInt i \<Rightarrow> dec_parse (int_str i) | _ \<Rightarrow> None)"

definition demo_reply :: "int \<Rightarrow> json \<Rightarrow> http_response" where
  "demo_reply code v = \<lparr>resp_status = code, resp_text = ''body'', resp_json = Inr v, resp_cost = Some ''0.25''\<rparr>"

definition demo_env :: "identity \<Rightarrow> http_response res \<Rightarrow> tool_env" where
  "demo_env i r = \<lparr>te_conf = demo_conf, te_ident = i, te_http = (\<lambda>k q. r), te_rag = (\<lambda>q t k. CutOff), te_dec = demo_dec,
     te_uuid = (\<lambda>j. case j of JStr s \<Rightarrow> Some s | _ \<Rightarrow> None), te_int = (\<lambda>j. case j of JInt i \<Rightarrow> Some i | _ \<Rightarrow> None),
     te_fl = (\<lambda>r. r), te_num = (\<lambda>s. None), te_repr = (\<lambda>j. []), te_seconds = (\<lambda>r. ''30'')\<rparr>"

definition demo_start :: call_state where "demo_start = \<lparr>sent_http = [], log_lines = []\<rparr>"

definition demo_get :: jdict where
  "demo_get = [(''order_id'', JStr ''o1''), (''tenant_id'', JStr ''tenant-a'')]"

section \<open>Properties\<close>

text \<open>
  C4. A call of the server sends at most one request. What it sends names the tenant of the call's own
  arguments, one of the three, carries the caller's credential, and the caller's verified tenant, if
  there is one, is that tenant.
\<close>

theorem mcp_calls_tenant_scoped:
  assumes "serve_call hardened e n d (p, st) = (r, p', st')"
  shows "\<exists>new. sent_http st' = sent_http st @ new \<and> length new \<le> 1
    \<and> (\<forall>q \<in> set new. \<exists>t \<in> set TENANTS. str_field d ''tenant_id'' = Some t
        \<and> dict_get (req_headers q) ''X-Tenant'' = Some t
        \<and> dict_get (req_headers q) ''Authorization'' = Some (''Bearer '' @ bearer_token (te_ident e) (mcp_bearer_jwt (te_conf e)))
        \<and> (id_tenant (te_ident e) = [] \<or> id_tenant (te_ident e) = t))"
proof -
  have "st' = snd (run_tool hardened e n d st)"
    using serve_state [OF hardened_handler, of e n d "(p, st)"] assms by simp
  then show ?thesis using run_hardened_scoped [of e d st n] by (simp add: scoped_new_def scoped_def)
qed

definition demo_scoped_call :: "reply res \<times> pending \<times> call_state" where
  "demo_scoped_call = serve_call hardened (demo_env (set_request_identity ''jwt'' ''tenant-a'') (Inr (demo_reply 200 demo_order)))
     ''orders.get_order'' demo_get (None, demo_start)"

theorem mcp_calls_tenant_scoped_witness:
  "\<exists>q. sent_http (snd (snd demo_scoped_call)) = [q] \<and> dict_get (req_headers q) ''X-Tenant'' = Some ''tenant-a''"
proof -
  obtain r p' st' where c: "demo_scoped_call = (r, p', st')" by (cases demo_scoped_call)
  have l: "length (sent_http (snd (snd demo_scoped_call))) = 1" by code_simp
  have t: "str_field demo_get ''tenant_id'' = Some ''tenant-a''" by code_simp
  obtain new where "sent_http st' = sent_http demo_start @ new"
    "\<forall>q \<in> set new. \<exists>t \<in> set TENANTS. str_field demo_get ''tenant_id'' = Some t \<and> dict_get (req_headers q) ''X-Tenant'' = Some t"
    using mcp_calls_tenant_scoped [OF c [unfolded demo_scoped_call_def]] by blast
  then show ?thesis using l t unfolding c by (cases new) (auto simp: demo_start_def)
qed

text \<open>
  A caller whose verified tenant is not the one of the arguments gets no result from the server and
  causes no request; where the arguments are accepted the reply is the code 4030.
\<close>

theorem foreign_tenant_refused:
  assumes "serve_call hardened e n d (p, st) = (r, p', st')"
    and "id_tenant (te_ident e) \<noteq> []" and "str_field d ''tenant_id'' \<noteq> Some (id_tenant (te_ident e))"
  shows "sent_http st' = sent_http st \<and> (\<forall>v. r \<noteq> Inr (Result v))
    \<and> (n = ''orders.get_order'' \<and> set (dict_keys d) = {''order_id'', ''tenant_id''}
        \<and> str_field d ''tenant_id'' = Some t \<and> t \<in> set TENANTS \<and> str_field d ''order_id'' = Some oid \<and> str_between 1 64 oid
       \<longrightarrow> r = Inr (Coded 4030 ''bearer token is scoped to a different tenant than this call acts on''))"
proof (intro conjI allI impI)
  let ?run = "run_tool hardened e n d st"
  have st': "st' = snd ?run" using serve_state [OF hardened_handler, of e n d "(p, st)"] assms(1) by simp
  have r: "r = coded_reply n (fst ?run)" using structured_reply [OF hardened_handler, of e n d p st] assms(1) by simp
  show "sent_http st' = sent_http st" using run_hardened_foreign(1) [OF assms(2,3)] st' by simp
  show "r \<noteq> Inr (Result v)" for v using run_hardened_foreign(2) [OF assms(2,3)] r
    by (auto simp: coded_reply_def split: sum.splits exn.splits)
  assume a: "n = ''orders.get_order'' \<and> set (dict_keys d) = {''order_id'', ''tenant_id''}
    \<and> str_field d ''tenant_id'' = Some t \<and> t \<in> set TENANTS \<and> str_field d ''order_id'' = Some oid \<and> str_between 1 64 oid"
  then have "fst ?run = fst (get_order e \<lparr>go_order = oid, go_tenant = t\<rparr> st)"
    by (simp add: run_tool_def hardened_tools find_map_strict registered_def orders_get_order_def flat_str_def mk_get_order_args_def)
  also have "\<dots> = Inl (tenant_mismatch (id_tenant (te_ident e)) t)"
    unfolding get_order_def using assms(2,3) a by (subst observe_refuses [THEN conjunct1]) auto
  finally show "r = Inr (Coded 4030 ''bearer token is scoped to a different tenant than this call acts on'')"
    using r by (simp add: coded_reply_def tenant_mismatch_def)
qed

definition demo_foreign_call :: "reply res \<times> pending \<times> call_state" where
  "demo_foreign_call = serve_call hardened (demo_env (set_request_identity ''jwt'' ''tenant-b'') (Inr (demo_reply 200 demo_order)))
     ''orders.get_order'' demo_get (None, demo_start)"

theorem foreign_tenant_refused_witness:
  "sent_http (snd (snd demo_foreign_call)) = []
   \<and> fst demo_foreign_call = Inr (Coded 4030 ''bearer token is scoped to a different tenant than this call acts on'')"
proof -
  let ?e = "demo_env (set_request_identity ''jwt'' ''tenant-b'') (Inr (demo_reply 200 demo_order))"
  obtain r p' st' where c: "demo_foreign_call = (r, p', st')" by (cases demo_foreign_call)
  have i: "id_tenant (te_ident ?e) = ''tenant-b''" by (simp add: demo_env_def set_request_identity_def)
  have t: "str_field demo_get ''tenant_id'' = Some ''tenant-a''" "str_field demo_get ''order_id'' = Some ''o1''"
    "set (dict_keys demo_get) = {''order_id'', ''tenant_id''}" "str_between 1 64 ''o1''"
    by (simp_all add: demo_get_def str_field_def dict_keys_def str_between_def)
  show ?thesis
    using foreign_tenant_refused [OF c [unfolded demo_foreign_call_def], where t = "''tenant-a''" and oid = "''o1''"]
    unfolding c by (simp add: i t demo_start_def TENANTS_def str_between_def)
qed


text \<open>
  The strict envelope: a call with an argument the signature does not have is answered by
  \<open>INVALID_PARAMS\<close> and nothing runs, where the server as registered drops the key and calls the tool.
\<close>

theorem unknown_arguments_refused:
  assumes "t \<in> set registered" and "k \<in> set (dict_keys d)" and "k \<notin> set (ts_params t)"
  shows "serve_call hardened e (ts_name t) d (p, st)
      = (Inr (Coded INVALID_PARAMS ''Arguments''), Some (INVALID_PARAMS, ''Arguments''), st)
    \<and> run_tool mcp_server e (ts_name t) d st = ts_run t e d st"
proof
  have f: "find (\<lambda>u. ts_name u = ts_name t) registered = Some t"
    using registered_cases [OF assms(1)] by (elim disjE) (simp_all add: registered_def)
  then show "run_tool mcp_server e (ts_name t) d st = ts_run t e d st"
    using registered_cases [OF assms(1)] by (elim disjE) (simp_all add: run_tool_def mcp_server_def)
  have "run_tool hardened e (ts_name t) d st = bad_arguments st"
    using f assms by (auto simp: run_tool_def hardened_tools find_map_strict)
  then show "serve_call hardened e (ts_name t) d (p, st)
      = (Inr (Coded INVALID_PARAMS ''Arguments''), Some (INVALID_PARAMS, ''Arguments''), st)"
    by (simp add: serve_call_def hardened_handler call_tool_def bad_arguments_def)
qed

definition demo_loose_call :: "jdict \<Rightarrow> reply res \<times> pending \<times> call_state" where
  "demo_loose_call d = serve_call hardened (demo_env no_identity (Inr (demo_reply 200 demo_order))) ''orders.get_order'' d (None, demo_start)"

theorem unknown_arguments_refused_witness:
  "demo_loose_call ((''tenantId'', JStr ''tenant-a'') # demo_get)
    = (Inr (Coded INVALID_PARAMS ''Arguments''), Some (INVALID_PARAMS, ''Arguments''), demo_start)"
  using unknown_arguments_refused [of "registered ! 1" "''tenantId''" "(''tenantId'', JStr ''tenant-a'') # demo_get"
      "demo_env no_identity (Inr (demo_reply 200 demo_order))" None demo_start]
  by (simp add: demo_loose_call_def registered_def dict_keys_def)

text \<open>
  Every call of the server that is not cut off writes a \<open>start\<close> and an \<open>end\<close> line of one tool and
  one tenant, the \<open>end\<close> line with both cost fields, unless the call failed before its tool began; a
  cancelled call leaves its \<open>start\<close> line alone.
\<close>

theorem every_call_logged:
  assumes "serve_call hardened e n d (p, st) = (r, p', st')"
  shows "(log_lines st' = log_lines st \<and> (\<forall>v. r \<noteq> Inr (Result v)) \<and> r \<noteq> Inl Cancelled)
    \<or> (\<exists>t \<in> set TENANTS. \<exists>x. {''cost_usd_minor'', ''cost_source''} \<subseteq> set (dict_keys x)
        \<and> (\<exists>c y. log_lines st' = log_lines st @ [StartLine n t, EndLine n t c y x]))
    \<or> (r = Inl Cancelled \<and> (\<exists>t \<in> set TENANTS. log_lines st' = log_lines st @ [StartLine n t]))"
proof -
  let ?run = "run_tool hardened e n d st"
  have st': "st' = snd ?run" using serve_state [OF hardened_handler, of e n d "(p, st)"] assms(1) by simp
  have r: "r = coded_reply n (fst ?run)" using structured_reply [OF hardened_handler, of e n d p st] assms(1) by simp
  consider (early) "log_lines st' = log_lines st" "fst ?run \<noteq> Inl Cancelled" "\<exists>x. fst ?run = Inl x"
    | (run) t x where "t \<in> set TENANTS" "has_cost x" "log_lines st' = log_lines st @ StartLine n t # end_lines n t (fst ?run) x"
    using run_hardened_logged [of n e d st] unfolding logged_call_def st' by blast
  then show ?thesis
  proof cases
    case early
    then show ?thesis unfolding r by (auto simp: coded_reply_def split: sum.splits exn.splits)
  next
    case (run t x)
    then show ?thesis using end_lines_cases [of "fst ?run" n t x] unfolding r has_cost_def
      by (auto simp: coded_reply_def)
  qed
qed

theorem every_call_logged_witness:
  "\<exists>t x c y. log_lines (snd (snd (demo_loose_call demo_get))) = [StartLine ''orders.get_order'' t, EndLine ''orders.get_order'' t c y x]
    \<and> ''cost_usd_minor'' \<in> set (dict_keys x)"
proof -
  obtain r p' st' where c: "demo_loose_call demo_get = (r, p', st')" by (cases "demo_loose_call demo_get")
  have l: "fst (demo_loose_call demo_get) = Inr (Result demo_order)" by code_simp
  show ?thesis
    using every_call_logged [OF c [unfolded demo_loose_call_def]] l unfolding c by (auto simp: demo_start_def)
qed

section \<open>Money on the wire\<close>

lemma finite_positiveD:
  assumes "finite_positive d"
  obtains c x where "d = DFin False c x" "0 < c"
proof (cases d)
  case (DFin neg c x)
  have "\<not> scale10 x < 0" using scale10_pos [of x] by linarith
  then have "\<not> neg \<and> 0 < c" using assms DFin
    by (cases "c = 0") (auto simp: finite_positive_def mult_less_0_iff split: if_splits)
  then show ?thesis using that DFin by simp
qed (use assms in \<open>simp_all add: finite_positive_def\<close>)

text \<open>What passes the scale check: the amount is a whole number of minor units below a bound.\<close>

lemma enforce_money_scale_ok:
  assumes "enforce_money_scale (DFin False c x) = Inr d"
  shows "d = DFin False c x \<and> (\<exists>m. of_nat c * scale10 x * 100 = of_nat m \<and> m < 10 ^ 28)"
proof -
  obtain q where q: "dec_quantize (DFin False c x) (- 2) = Some q" "dec_value q = dec_value (DFin False c x)" "d = DFin False c x"
    using assms by (auto simp: enforce_money_scale_def MONEY_SCALE_def split: option.splits if_splits)
  from q(1) obtain m where m: "q = DFin False m (- 2)" "\<not> 28 < ndigits m" by (auto simp: Let_def split: if_splits)
  have "m < 10 ^ ndigits m" using nat_str_bounds [of m] by (simp add: ndigits_def)
  also have "\<dots> \<le> (10::nat) ^ 28" using m(2) by (intro power_increasing) auto
  finally have "m < 10 ^ 28" .
  moreover have "of_nat c * scale10 x * 100 = of_nat m" using q(2) by (simp add: m(1) scale10_def)
  ultimately show ?thesis using q(3) by blast
qed

lemma mk_create_refund_argsD:
  assumes "mk_create_refund_args e oid (MDec amount) reason tenant key = Inr a" and "finite_positive amount"
  obtains c x m where "amount = DFin False c x" "0 < c" "a = \<lparr>cr_order = oid, cr_amount = DFin False c x, cr_reason = reason, cr_tenant = tenant, cr_key = key\<rparr>"
    "of_nat c * scale10 x * 100 = (of_nat m :: rat)" "m < 10 ^ 28"
proof -
  obtain c x where cx: "amount = DFin False c x" "0 < c" using finite_positiveD [OF assms(2)] .
  obtain d where d: "enforce_money_scale amount = Inr d" "a = \<lparr>cr_order = oid, cr_amount = d, cr_reason = reason, cr_tenant = tenant, cr_key = key\<rparr>"
    using assms by (auto simp: mk_create_refund_args_def reject_inexact_binary_def is_inexact_binary_def money_decimal_def bind_res_def
        split: sum.splits if_splits)
  then show ?thesis using enforce_money_scale_ok [of c x d] cx that by blast
qed

lemma orders_create_refund_sentD:
  assumes "orders_create_refund e d st = (r, st')" and "sent_http st' = sent_http st @ [q]"
  obtains oid amount reason tenant key a where "Option.bind (dict_get d ''amount'') (te_dec e) = Some amount"
    "Option.bind (dict_get d ''idempotency_key'') (te_uuid e) = Some key" "finite_positive amount"
    "mk_create_refund_args e oid (MDec amount) reason tenant key = Inr a" "str_field d ''order_id'' = Some oid"
    "str_field d ''reason'' = Some reason" "q = refund_request e a"
proof -
  obtain oid amount reason tenant key where f: "flat_str d ''order_id'' (str_between 1 64) = Some oid"
    "Option.bind (dict_get d ''amount'') (te_dec e) = Some amount" "finite_positive amount"
    "flat_str d ''reason'' (str_between 4 200) = Some reason" "flat_str d ''tenant_id'' (\<lambda>t. t \<in> set TENANTS) = Some tenant"
    "Option.bind (dict_get d ''idempotency_key'') (te_uuid e) = Some key"
    using assms by (auto simp: orders_create_refund_def bad_arguments_def split: option.splits if_splits)
  obtain a where a: "mk_create_refund_args e oid (MDec amount) reason tenant key = Inr a" "create_refund e a st = (r, st')"
    using f assms by (auto simp: orders_create_refund_def split: sum.splits)
  have "q = refund_request e a"
  proof (cases "cross_tenant_claim (te_ident e) (cr_tenant a) = []")
    case True
    then have "sent_http (snd (create_refund e a st)) = sent_http st @ [refund_request e a]"
      by (auto simp: create_refund_def observe_def forward_def send_def Let_def split: sum.splits)
    then show ?thesis using a(2) assms(2) by simp
  next
    case False
    then have "sent_http (snd (create_refund e a st)) = sent_http st"
      by (auto simp: create_refund_def observe_def Let_def)
    then show ?thesis using a(2) assms(2) by simp
  qed
  then show ?thesis using that f a(1) flat_strD by blast
qed

text \<open>
  C5. A refund that is sent is a positive amount of whole minor units, and the text on the wire reads back
  as the very decimal the caller's argument denotes; one idempotency key travels in the body and in
  the header. What is relied on of the validation library is that its decimals are within the limits of
  the type.
\<close>

theorem refund_wire_exact:
  assumes "\<And>j neg c x. te_dec e j = Some (DFin neg c x) \<Longrightarrow> dec_limits c x"
    and "orders_create_refund e d st = (r, st')" and "sent_http st' = sent_http st @ [q]"
  shows "\<exists>c x key oid reason s. Option.bind (dict_get d ''amount'') (te_dec e) = Some (DFin False c x)
      \<and> (\<exists>m. of_nat c * scale10 x * 100 = (of_nat m :: rat) \<and> 0 < m \<and> m < 10 ^ 28)
      \<and> Option.bind (dict_get d ''idempotency_key'') (te_uuid e) = Some key
      \<and> str_field d ''order_id'' = Some oid \<and> str_field d ''reason'' = Some reason
      \<and> req_json q = Some (JObj [(''orderId'', JStr oid), (''amount'', JStr s), (''reason'', JStr reason), (''idempotencyKey'', JStr key)])
      \<and> dict_get (req_headers q) ''Idempotency-Key'' = Some key
      \<and> dec_parse s = Some (DFin False c x)"
proof -
  from orders_create_refund_sentD [OF assms(2,3)] obtain oid amount reason tenant key a where
    f: "Option.bind (dict_get d ''amount'') (te_dec e) = Some amount"
      "Option.bind (dict_get d ''idempotency_key'') (te_uuid e) = Some key" "finite_positive amount"
      "mk_create_refund_args e oid (MDec amount) reason tenant key = Inr a" "str_field d ''order_id'' = Some oid"
      "str_field d ''reason'' = Some reason" "q = refund_request e a" .
  from mk_create_refund_argsD [OF f(4,3)] obtain c x m where
    m: "amount = DFin False c x" "0 < c"
      "a = \<lparr>cr_order = oid, cr_amount = DFin False c x, cr_reason = reason, cr_tenant = tenant, cr_key = key\<rparr>"
      "of_nat c * scale10 x * 100 = (of_nat m :: rat)" "m < 10 ^ 28" .
  obtain j where "te_dec e j = Some (DFin False c x)" using f(1) m(1) by (auto simp: bind_eq_Some_conv)
  then have "dec_parse (dec_str (DFin False c x)) = Some (DFin False c x)" using assms(1) dec_parse_str by blast
  moreover have "0 < (of_nat c * scale10 x * 100 :: rat)" using m(2) by simp
  then have "0 < m" using m(4) by (metis of_nat_0_less_iff)
  ultimately show ?thesis using f m
    by (intro exI [of _ c] exI [of _ x] exI [of _ key] exI [of _ oid] exI [of _ reason] exI [of _ "dec_str (DFin False c x)"])
       (auto simp: refund_request_def refund_payload_def)
qed

definition demo_refund :: "json \<Rightarrow> jdict" where
  "demo_refund amount = [(''order_id'', JStr ''o1''), (''amount'', amount), (''reason'', JStr ''damaged''),
     (''tenant_id'', JStr ''tenant-a''), (''idempotency_key'', JStr ''k-1'')]"

definition demo_refund_call :: "json \<Rightarrow> json res \<times> call_state" where
  "demo_refund_call amount =
     orders_create_refund ((demo_env no_identity (Inr (demo_reply 500 JNull)))\<lparr>te_dec := \<lambda>j. Some (DFin False 750 (- 2))\<rparr>) (demo_refund amount) demo_start"

theorem refund_wire_exact_witness:
  "\<exists>q s. sent_http (snd (demo_refund_call (JStr ''7.50''))) = [q]
     \<and> req_json q = Some (JObj [(''orderId'', JStr ''o1''), (''amount'', JStr s), (''reason'', JStr ''damaged''), (''idempotencyKey'', JStr ''k-1'')])
     \<and> dec_parse s = Some (DFin False 750 (- 2))"
proof -
  let ?e = "(demo_env no_identity (Inr (demo_reply 500 JNull)))\<lparr>te_dec := \<lambda>j. Some (DFin False 750 (- 2))\<rparr>"
  obtain r st' where c: "demo_refund_call (JStr ''7.50'') = (r, st')" by (cases "demo_refund_call (JStr ''7.50'')")
  have "length (sent_http (snd (demo_refund_call (JStr ''7.50'')))) = 1" by code_simp
  then obtain q where q: "sent_http st' = sent_http demo_start @ [q]"
    unfolding c by (auto simp: demo_start_def length_Suc_conv)
  have lim: "dec_limits 750 (- 2)" by code_simp
  show ?thesis
    unfolding c using q lim refund_wire_exact [where e = ?e, OF _ c [unfolded demo_refund_call_def] q]
    by (auto simp: demo_start_def demo_refund_def str_field_def demo_env_def)
qed

text \<open>
  The verdict on an amount: a positive finite decimal is accepted exactly when it has at most two
  decimal places that are not zero and its value in minor units has at most 28 digits; more digits
  raise an arithmetic error, which is no verdict of the model.
\<close>

theorem refund_amount_verdict:
  assumes "0 < c" and "str_between 1 64 oid" and "str_between 4 200 reason" and "tenant \<in> set TENANTS"
  shows "mk_create_refund_args e oid (MDec (DFin False c x)) reason tenant key =
    (if 28 < ndigits (if - 2 \<le> x then c * 10 ^ nat (x + 2) else div_half_up c (10 ^ nat (- 2 - x)))
     then Inl (ArithmeticError ''InvalidOperation'')
     else if - 2 \<le> x \<or> 10 ^ nat (- 2 - x) dvd c
     then Inr \<lparr>cr_order = oid, cr_amount = DFin False c x, cr_reason = reason, cr_tenant = tenant, cr_key = key\<rparr>
     else Inl (ValidationError ''amount''))"
proof -
  have pos: "finite_positive (DFin False c x)" using assms(1) by (simp add: finite_positive_def)
  show ?thesis
  proof (cases "dec_quantize (DFin False c x) (- 2)")
    case None
    then show ?thesis using pos
      by (simp add: mk_create_refund_args_def reject_inexact_binary_def is_inexact_binary_def money_decimal_def
          bind_res_def enforce_money_scale_def MONEY_SCALE_def Let_def split: if_splits)
  next
    case (Some q)
    have eq: "dec_value (DFin False c x) = dec_value q \<longleftrightarrow> - 2 \<le> x \<or> 10 ^ nat (- 2 - x) dvd c"
      using quantize_value [OF Some] by metis
    have "\<not> 28 < ndigits (if - 2 \<le> x then c * 10 ^ nat (x + 2) else div_half_up c (10 ^ nat (- 2 - x)))"
      using Some by (simp add: Let_def split: if_splits)
    then show ?thesis using pos Some assms(2-4) eq
      by (simp add: mk_create_refund_args_def reject_inexact_binary_def is_inexact_binary_def money_decimal_def
          bind_res_def enforce_money_scale_def MONEY_SCALE_def del: dec_quantize.simps dec_value.simps)
  qed
qed

theorem refund_amount_verdict_witness:
  "mk_create_refund_args (demo_env no_identity (Inr (demo_reply 200 JNull))) ''o1'' (MDec (DFin False 5 (- 3))) ''damaged'' ''tenant-a'' ''k''
    = Inl (ValidationError ''amount'')"
proof -
  have h: "0 < (5::nat)" "str_between 1 64 ''o1''" "str_between 4 200 ''damaged''" "''tenant-a'' \<in> set TENANTS"
    by (simp_all add: str_between_def TENANTS_def)
  have a: "\<not> 28 < ndigits (if - 2 \<le> (- 3 :: int) then 5 * 10 ^ nat (- 3 + 2) else div_half_up 5 (10 ^ nat (- 2 - - 3)))"
    by code_simp
  have b: "\<not> (- 2 \<le> (- 3 :: int) \<or> 10 ^ nat (- 2 - - 3) dvd (5 :: nat))" by code_simp
  show ?thesis unfolding refund_amount_verdict [OF h] if_not_P [OF a] if_not_P [OF b] by (rule refl)
qed

text \<open>
  The guard against binary floats does not see a JSON number: the published signature has turned it
  into a decimal before. What the model refuses when it is built directly is sent by the tool.
\<close>

theorem json_number_reaches_refund:
  assumes "str_field d ''order_id'' = Some oid" and "str_between 1 64 oid" and "dict_get d ''amount'' = Some (JFloat r)"
    and "te_dec e (JFloat r) = Some amount" and "finite_positive amount"
    and "str_field d ''reason'' = Some reason" and "str_between 4 200 reason"
    and "str_field d ''tenant_id'' = Some tenant" and "tenant \<in> set TENANTS"
    and "Option.bind (dict_get d ''idempotency_key'') (te_uuid e) = Some key"
    and "enforce_money_scale amount = Inr amount" and "cross_tenant_claim (te_ident e) tenant = []"
  shows "mk_create_refund_args e oid (MJson (JFloat r)) reason tenant key = Inl (ValidationError ''amount'')
    \<and> (\<exists>q. sent_http (snd (orders_create_refund e d st)) = sent_http st @ [q]
        \<and> req_json q = Some (JObj [(''orderId'', JStr oid), (''amount'', JStr (dec_str amount)), (''reason'', JStr reason), (''idempotencyKey'', JStr key)]))"
proof
  show "mk_create_refund_args e oid (MJson (JFloat r)) reason tenant key = Inl (ValidationError ''amount'')"
    by (simp add: mk_create_refund_args_def reject_inexact_binary_def is_inexact_binary_def bind_res_def)
  let ?a = "\<lparr>cr_order = oid, cr_amount = amount, cr_reason = reason, cr_tenant = tenant, cr_key = key\<rparr>"
  have "mk_create_refund_args e oid (MDec amount) reason tenant key = Inr ?a"
    using assms(2,5,7,9,11)
    by (simp add: mk_create_refund_args_def reject_inexact_binary_def is_inexact_binary_def bind_res_def money_decimal_def)
  then have "orders_create_refund e d st = create_refund e ?a st"
    using assms by (simp add: orders_create_refund_def flat_str_def)
  moreover have "sent_http (snd (create_refund e ?a st)) = sent_http st @ [refund_request e ?a]"
    using assms(12) by (auto simp: create_refund_def observe_def forward_def send_def Let_def split: sum.splits)
  ultimately show "\<exists>q. sent_http (snd (orders_create_refund e d st)) = sent_http st @ [q]
        \<and> req_json q = Some (JObj [(''orderId'', JStr oid), (''amount'', JStr (dec_str amount)), (''reason'', JStr reason), (''idempotencyKey'', JStr key)])"
    by (intro exI [of _ "refund_request e ?a"]) (simp add: refund_request_def refund_payload_def)
qed

theorem json_number_reaches_refund_witness:
  "mk_create_refund_args (demo_env no_identity (Inr (demo_reply 500 JNull))\<lparr>te_dec := \<lambda>j. Some (DFin False 750 (- 2))\<rparr>)
      ''o1'' (MJson (JFloat (15 / 2))) ''damaged'' ''tenant-a'' ''k-1'' = Inl (ValidationError ''amount'')
    \<and> length (sent_http (snd (demo_refund_call (JFloat (15 / 2))))) = 1"
proof -
  have e: "enforce_money_scale (DFin False 750 (- 2)) = Inr (DFin False 750 (- 2))" by code_simp
  have p: "finite_positive (DFin False 750 (- 2))" by code_simp
  show ?thesis
    using json_number_reaches_refund [of "demo_refund (JFloat (15 / 2))" "''o1''" "15 / 2"
        "demo_env no_identity (Inr (demo_reply 500 JNull))\<lparr>te_dec := \<lambda>j. Some (DFin False 750 (- 2))\<rparr>"
        "DFin False 750 (- 2)" "''damaged''" "''tenant-a''" "''k-1''" demo_start]
    by (auto simp: e p demo_refund_def str_field_def demo_env_def str_between_def TENANTS_def cross_tenant_claim_def
        no_identity_def demo_refund_call_def demo_start_def)
qed

text \<open>
  An amount of at least ten to the twenty-sixth in whole units is no \<open>INVALID_PARAMS\<close>: the scale check
  itself raises, and the client gets an in-band text with no code. Nothing is sent.
\<close>

theorem oversized_refund_uncoded:
  assumes "set (dict_keys d) \<subseteq> {''order_id'', ''amount'', ''reason'', ''tenant_id'', ''idempotency_key''}"
    and "str_field d ''order_id'' = Some oid" and "str_between 1 64 oid"
    and "Option.bind (dict_get d ''amount'') (te_dec e) = Some (DFin False c 0)" and "10 ^ 26 \<le> c"
    and "str_field d ''reason'' = Some reason" and "str_between 4 200 reason"
    and "str_field d ''tenant_id'' = Some tenant" and "tenant \<in> set TENANTS"
    and "Option.bind (dict_get d ''idempotency_key'') (te_uuid e) = Some key"
  shows "fst (serve_call hardened e ''orders.create_refund'' d (p, st))
      = Inr (InBand ''Error executing tool orders.create_refund: InvalidOperation'')
    \<and> snd (run_tool hardened e ''orders.create_refund'' d st) = st"
proof -
  have "(10::nat) ^ 28 \<le> c * 10 ^ 2" using assms(5) by simp
  then have "28 < ndigits (c * 10 ^ 2)" by (rule ndigits_ge)
  then have q: "enforce_money_scale (DFin False c 0) = Inl (ArithmeticError ''InvalidOperation'')"
    by (simp add: enforce_money_scale_def MONEY_SCALE_def)
  have pos: "finite_positive (DFin False c 0)" using assms(5) by (simp add: finite_positive_def)
  have "mk_create_refund_args e oid (MDec (DFin False c 0)) reason tenant key = Inl (ArithmeticError ''InvalidOperation'')"
    using q pos by (simp add: mk_create_refund_args_def reject_inexact_binary_def is_inexact_binary_def bind_res_def money_decimal_def)
  then have "orders_create_refund e d st = (Inl (ArithmeticError ''InvalidOperation''), st)"
    using assms pos by (simp add: orders_create_refund_def flat_str_def)
  then have "run_tool hardened e ''orders.create_refund'' d st = (Inl (ArithmeticError ''InvalidOperation''), st)"
    using assms(1) by (simp add: run_tool_def hardened_tools find_map_strict registered_def)
  then show ?thesis by (simp add: structured_reply [OF hardened_handler] coded_reply_def)
qed

theorem oversized_refund_uncoded_witness:
  "fst (serve_call hardened (demo_env no_identity (Inr (demo_reply 500 JNull))\<lparr>te_dec := \<lambda>j. Some (DFin False (10 ^ 26) 0)\<rparr>)
      ''orders.create_refund'' (demo_refund (JStr ''1E26'')) (None, demo_start))
    = Inr (InBand ''Error executing tool orders.create_refund: InvalidOperation'')"
  by (rule oversized_refund_uncoded [THEN conjunct1, of _ "''o1''" _ "10 ^ 26" "''damaged''" "''tenant-a''" "''k-1''"])
     (simp_all add: demo_refund_def dict_keys_def str_field_def demo_env_def str_between_def TENANTS_def)

text \<open>
  Costs in minor units are truncated call by call: over a series of replies the sum that is logged is
  below the true sum by less than one minor unit a reply, and never above it.
\<close>

theorem logged_cost_bounds:
  assumes "\<forall>(s, c, x) \<in> set rs. s \<noteq> [] \<and> dec_parse s = Some (DFin False c x) \<and> c < 10 ^ 26 \<and> - 1000026 \<le> x \<and> x \<le> 999900"
  shows "of_int (\<Sum>(s, c, x) \<leftarrow> rs. as_minor_units (Some s)) \<le> 100 * (\<Sum>(s, c, x) \<leftarrow> rs. of_nat c * scale10 x)
    \<and> 100 * (\<Sum>(s, c, x) \<leftarrow> rs. of_nat c * scale10 x) \<le> of_int (\<Sum>(s, c, x) \<leftarrow> rs. as_minor_units (Some s)) + of_nat (length rs)"
  using assms
proof (induction rs)
  case (Cons r rs)
  obtain s c x where r: "r = (s, c, x)" by (cases r)
  have "of_int (as_minor_units (Some s)) \<le> of_nat c * scale10 x * 100
    \<and> of_nat c * scale10 x * 100 < of_int (as_minor_units (Some s)) + 1 \<and> 0 \<le> as_minor_units (Some s)"
    using Cons.prems r by (intro minor_units_exact) auto
  then show ?case using Cons r by (simp add: algebra_simps)
qed simp

theorem logged_cost_bounds_witness:
  "as_minor_units (Some ''0.129'') + as_minor_units (Some ''0.25'') = 37
    \<and> of_int 37 \<le> 100 * (of_nat 129 * scale10 (- 3) + of_nat 25 * scale10 (- 2))"
proof -
  have v: "dec_parse ''0.129'' = Some (DFin False 129 (- 3))" "dec_parse ''0.25'' = Some (DFin False 25 (- 2))" by code_simp+
  have "dec_mul_nat (DFin False 129 (- 3)) 100 = Some (DFin False 12900 (- 3))" by (subst dec_mul_nat_exact) simp_all
  moreover have "dec_mul_nat (DFin False 25 (- 2)) 100 = Some (DFin False 2500 (- 2))" by (subst dec_mul_nat_exact) simp_all
  ultimately have m: "as_minor_units (Some ''0.129'') = 12" "as_minor_units (Some ''0.25'') = 25"
    using v by (simp_all add: as_minor_units_def MINOR_UNITS_PER_MAJOR_def del: dec_mul_nat.simps)
  show ?thesis using logged_cost_bounds [of "[(''0.129'', 129, - 3), (''0.25'', 25, - 2)]"] v m by simp
qed

end
