(* ===== verification/McpEdge.thy ===== *)
theory McpEdge
  imports McpLaws
begin

text \<open>
  The edges of the tool server: the bearer gate in front of the HTTP transport, the lazily opened
  clients of the pipeline, and the retrieval tool over whatever the pipeline answers.
\<close>

section \<open>The gate\<close>

lemma partition_scheme: "partition_at '' '' (''Bearer '' @ tok) = Some (''Bearer'', tok)"
  by simp

lemma parse_bearer_sent: "parse_bearer (Some (''Bearer '' @ tok)) = strip tok"
proof -
  have "partition_at '' '' (''Bearer '' @ tok) = Some (''Bearer'', tok)" by (rule partition_scheme)
  moreover have "lower ''Bearer'' = ''bearer''" by code_simp
  ultimately show ?thesis unfolding parse_bearer_def by simp
qed

lemma gate_identity:
  assumes "bearer_middleware s decode rp ''http'' header = Inr (PassOn (Some i))"
  shows "id_jwt i = parse_bearer header \<and> id_jwt i \<noteq> []"
  using assms by (auto simp: bearer_middleware_def refuse_def set_request_identity_def Let_def split: if_splits sum.splits)

text \<open>
  C36. A request passes the gate only with a credential, and the identity it passes with is that
  credential; with a key set configured the token was verified and the tenant is its claim, without
  one the tenant is unknown. A refusal is 401 with the code of a forbidden call, for a missing
  credential or a failed verification; a connection that is not HTTP passes with no identity.
\<close>

theorem bearer_gate:
  assumes "bearer_middleware s decode rp scope header = Inr g"
  shows "case g of
      PassOn None \<Rightarrow> scope \<noteq> ''http''
    | PassOn (Some i) \<Rightarrow> scope = ''http'' \<and> id_jwt i = parse_bearer header \<and> id_jwt i \<noteq> []
        \<and> (if jwks_url s = [] then id_tenant i = []
           else \<exists>claims. decode (id_jwt i) = Inr claims \<and> id_tenant i = py_str rp (get_or claims ''tenant_id'' (JStr [])))
    | Refuse status body \<Rightarrow> scope = ''http'' \<and> status = 401 \<and> (\<exists>m. body = JObj [(''code'', JInt 4030), (''message'', JStr m)])
        \<and> (parse_bearer header = [] \<or> jwks_url s \<noteq> [] \<and> (\<exists>x. decode (parse_bearer header) = Inl x))"
proof (cases "scope = ''http'' \<and> parse_bearer header \<noteq> [] \<and> jwks_url s \<noteq> []")
  case True
  show ?thesis
  proof (cases "decode (parse_bearer header)")
    case (Inl x)
    then show ?thesis using assms True
      by (auto simp: bearer_middleware_def validate_bearer_def bind_res_def refuse_def UNAUTHORIZED_CODE_def split: if_splits)
  next
    case (Inr claims)
    then show ?thesis using assms True
      by (auto simp: bearer_middleware_def validate_bearer_def bind_res_def set_request_identity_def)
  qed
next
  case False
  then show ?thesis using assms
    by (auto simp: bearer_middleware_def refuse_def UNAUTHORIZED_CODE_def set_request_identity_def Let_def split: if_splits)
qed

theorem bearer_gate_witness:
  "bearer_middleware demo_conf (\<lambda>t. Inl (OtherError ''PyJWTError'' ''expired'')) (\<lambda>j. []) ''http'' (Some ''Bearer abc'')
      = Inr (Refuse 401 (JObj [(''code'', JInt 4030), (''message'', JStr ''bearer token rejected'')]))
    \<and> parse_bearer (Some ''Bearer abc'') \<noteq> []
    \<and> (\<exists>x. (\<lambda>t. Inl (OtherError ''PyJWTError'' ''expired'')) (parse_bearer (Some ''Bearer abc'')) = (Inl x :: jdict res))"
proof -
  have g: "bearer_middleware demo_conf (\<lambda>t. Inl (OtherError ''PyJWTError'' ''expired'')) (\<lambda>j. []) ''http'' (Some ''Bearer abc'')
      = Inr (Refuse 401 (JObj [(''code'', JInt 4030), (''message'', JStr ''bearer token rejected'')]))" by code_simp
  have "parse_bearer (Some ''Bearer abc'') \<noteq> []" by code_simp
  then show ?thesis using bearer_gate [OF g] g by simp
qed

section \<open>The clients of the pipeline\<close>

text \<open>
  The dictionary of clients is filled one by one and its being non-empty is what tells a later call
  that it is filled. A database that is down once therefore leaves every later call a \<open>KeyError\<close>,
  however healthy the database is by then.
\<close>

theorem rag_clients_poisoned:
  assumes "open_anthropic o1 = Inr ()" and "open_pg o1 = Inl x"
  shows "rag_clients o1 [] = (Inl x, [''anthropic''])
    \<and> (\<forall>o2. rag_clients o2 [''anthropic''] = (Inl (KeyError ''conn''), [''anthropic'']))"
  using assms by (simp add: rag_clients_def need_def bind_res_def)

theorem rag_clients_poisoned_witness:
  "fst (rag_clients \<lparr>open_anthropic = Inr (), open_pg = Inr (), open_redis = Inr ()\<rparr>
      (snd (rag_clients \<lparr>open_anthropic = Inr (), open_pg = Inl (OtherError ''OperationalError'' []), open_redis = Inr ()\<rparr> [])))
    = Inl (KeyError ''conn'')"
proof -
  let ?o = "\<lparr>open_anthropic = Inr (), open_pg = Inl (OtherError ''OperationalError'' []), open_redis = Inr ()\<rparr>"
  have "open_anthropic ?o = Inr ()" "open_pg ?o = Inl (OtherError ''OperationalError'' [])" by simp_all
  from rag_clients_poisoned [OF this] show ?thesis by simp
qed

section \<open>The retrieval tool\<close>

lemma rag_citations_shape:
  assumes "rag_citations e xs = Inr cs"
  shows "length cs \<le> length xs \<and> (\<forall>c \<in> set cs. \<exists>item sc. JObj item \<in> set xs
      \<and> c = rag_citation (py_str (te_repr e) (get_or item ''chunk_id'' (JStr []))) sc)"
  using assms
proof (induction e xs arbitrary: cs rule: rag_citations.induct)
  case (2 e item xs)
  obtain sc rest where r: "rag_citations e xs = Inr rest"
    "cs = rag_citation (py_str (te_repr e) (get_or item ''chunk_id'' (JStr []))) sc # rest"
    using 2(2) by (auto simp: bind_res_def split: sum.splits)
  obtain sc' where "to_score (te_fl e) (te_num e) (get_or item ''score'' JNull) 0 = Inr sc'"
    using 2(2) by (auto simp: bind_res_def split: sum.splits)
  from 2(1) [OF r(1)] have ih: "length rest \<le> length xs" "\<forall>c \<in> set rest. \<exists>item sc. JObj item \<in> set xs
      \<and> c = rag_citation (py_str (te_repr e) (get_or item ''chunk_id'' (JStr []))) sc" by blast+
  then show ?case unfolding r(2) by auto blast
qed auto

lemma rag_tool_inr:
  assumes "rag_tool e a st = (Inr v, st')"
  obtains result cs late cov where "wait_for (te_rag e (ra_question a) (ra_tenant a) (ra_top_k a)) = Inr result"
    "(case get_or result ''citations'' (JList []) of JList raw \<Rightarrow> rag_citations e (take (nat (ra_top_k a)) raw) | _ \<Rightarrow> Inr []) = Inr cs"
    "v = JObj [(''answer'', JStr (py_str (te_repr e) (get_or result ''text'' (JStr [])))),
       (''citations'', JList cs), (''coverage'', JFloat cov), (''rerank_timed_out'', JBool late)]"
proof -
  obtain result cs late out where w: "wait_for (te_rag e (ra_question a) (ra_tenant a) (ra_top_k a)) = Inr result"
    "rag_answer e (nat (ra_top_k a)) result = Inr (cs, late, out)" "v = out"
    using assms by (auto simp: rag_tool_def observe_def Let_def split: if_splits sum.splits exn.splits)
  from w(2) obtain cov where
    "(case get_or result ''citations'' (JList []) of JList raw \<Rightarrow> rag_citations e (take (nat (ra_top_k a)) raw) | _ \<Rightarrow> Inr []) = Inr cs"
    "out = JObj [(''answer'', JStr (py_str (te_repr e) (get_or result ''text'' (JStr [])))),
       (''citations'', JList cs), (''coverage'', JFloat cov), (''rerank_timed_out'', JBool late)]"
    unfolding rag_answer_def Let_def bind_res_def by (auto split: sum.splits)
  then show ?thesis using that w by blast
qed

text \<open>
  A pipeline that misses the tool's deadline is answered by the code 5040, whatever the caller asked,
  and the message names the deadline.
\<close>

theorem rag_deadline_coded:
  assumes "set (dict_keys d) \<subseteq> {''question'', ''tenant_id'', ''top_k''}"
    and "str_field d ''question'' = Some q" and "str_between 2 2000 q"
    and "str_field d ''tenant_id'' = Some t" and "t \<in> set TENANTS" and "dict_get d ''top_k'' = None"
    and "te_rag e q t 6 = CutOff" and "id_tenant (te_ident e) \<in> {[], t}"
  shows "fst (serve_call hardened e ''rag.retrieve_and_generate'' d (p, st))
    = Inr (Coded 5040 (take 200 (''rag timed out after '' @ te_seconds e (tool_timeout_rag_s (te_conf e)) @ ''s'')))"
proof -
  have "fst (run_tool hardened e ''rag.retrieve_and_generate'' d st)
      = fst (rag_tool e \<lparr>ra_question = q, ra_tenant = t, ra_top_k = 6\<rparr> st)"
    using assms(1-6) by (simp add: run_tool_def hardened_tools find_map_strict registered_def rag_retrieve_and_generate_def
        flat_str_def mk_rag_args_def)
  also have "\<dots> = Inl (rag_timeout (''rag timed out after '' @ te_seconds e (tool_timeout_rag_s (te_conf e)) @ ''s''))"
    using assms(7,8) by (auto simp: rag_tool_def observe_def cross_tenant_claim_def Let_def wait_for_def)
  finally show ?thesis
    by (simp add: structured_reply [OF hardened_handler] coded_reply_def rag_timeout_def RAG_TIMEOUT_CODE_def MAX_MESSAGE_CHARS_def)
qed

theorem rag_deadline_coded_witness:
  "fst (serve_call hardened (demo_env no_identity (Inr (demo_reply 200 JNull))) ''rag.retrieve_and_generate''
      [(''question'', JStr ''vat?''), (''tenant_id'', JStr ''tenant-a'')] (None, demo_start))
    = Inr (Coded 5040 ''rag timed out after 30s'')"
  by (subst rag_deadline_coded [of _ "''vat?''" "''tenant-a''"])
     (simp_all add: dict_keys_def str_field_def str_between_def TENANTS_def demo_env_def no_identity_def demo_conf_def)

section \<open>The catalogue\<close>

text \<open>
  The catalogue describes the server it is published by: its tools are the registered ones, every one
  of its tenants is a tenant a call may name, the sizes add up, the default number of citations is
  six, and the only tool marked as a write is the one that sends a payload with a key.
\<close>

theorem catalogue_describes_server:
  "set (map (\<lambda>t. dict_get t ''name'') catalogue_tools) = set (map (Some \<circ> JStr \<circ> ts_name) (sv_tools mcp_server))
   \<and> distinct (map ts_name (sv_tools mcp_server))
   \<and> dict_keys CORPUS_CHUNKS_PER_TENANT = TENANTS
   \<and> dict_get catalogue_corpus ''default_top_k'' = Some (JInt 6)
   \<and> (\<exists>size. dict_get catalogue_corpus ''size'' = Some (JObj size) \<and> dict_get size ''chunks'' = Some (JInt 100))
   \<and> map (\<lambda>t. dict_get t ''name'') (filter (\<lambda>t. dict_get t ''write'' = Some (JBool True)) catalogue_tools)
      = [Some (JStr ''orders.create_refund'')]"
  by (auto simp: catalogue_tools_def mcp_server_def registered_def CORPUS_CHUNKS_PER_TENANT_def TENANTS_def dict_keys_def
      catalogue_corpus_def)

end
