(* ===== verification/Services.thy ===== *)
theory Services
  imports McpEdge ApiNode RagHistory RetrievalNode Runtime
begin

text \<open>
  The services put together: a tool call of the agent's API node goes through the gate and the tool
  server to the order service, and an answer of the retrieval pipeline goes through the retrieval
  tool to a client.
\<close>

section \<open>From the agent to the order service\<close>

lemma api_call_tenant:
  assumes "open_session cfg = Inr (SessionV m)" and "list_tools m = Inr cat" and "api_body ae cfg s = (r, Some ast)"
    and "tc \<in> set (calls ast)" and "TENANT_ARG \<in> set (declared_properties (tools_for_claude cat) (called tc))"
  shows "dict_get (sent tc) TENANT_ARG = Some (JStr (tenant_id s))"
proof -
  from api_body_runs [OF assms(3)] obtain g where g: "guard_of cfg = Inr g" by blast
  from api_body_state(1) [OF assms(1,2) g assms(3)] assms(4) have "call_ok (api_ctx ae m cat s) tc"
    by (simp add: loop_inv_def)
  then obtain inp where eq: "tc = make_call (api_ctx ae m cat s) (called tc) inp"
    by (auto simp: call_ok_def)
  have "sent tc = inject_context (env_uuid5 ae) (env_fr ae) (proposed tc)
      (declared_properties (tools_for_claude cat) (called tc)) (tenant_id s) (thread_id s) (called tc)"
    using eq by (cases tc) (simp add: make_call_def api_ctx_def Let_def)
  then show ?thesis using assms(5) by (simp add: inject_tenant)
qed

text \<open>
  C3. Whatever tenant the model wrote into a tool call, a request that the tool server sends for that call
  names the tenant of the agent's request and carries the agent's own credential, which passed the
  gate as a bearer header; a credential verified for another tenant sends nothing.
\<close>

theorem agent_call_reaches_services:
  assumes "open_session cfg = Inr (SessionV m)" and "list_tools m = Inr cat" and "api_body ae cfg s = (r, Some ast)"
    and "tc \<in> set (calls ast)" and "TENANT_ARG \<in> set (declared_properties (tools_for_claude cat) (called tc))"
    and "auth_headers tok = Some [(''Authorization'', hv)]"
    and "bearer_middleware s' decode rp ''http'' (Some hv) = Inr (PassOn (Some (te_ident e)))"
    and "serve_call hardened e (called tc) (sent tc) (p, st) = (rr, p', st')"
  shows "\<exists>new. sent_http st' = sent_http st @ new \<and> length new \<le> 1
    \<and> (\<forall>q \<in> set new. dict_get (req_headers q) ''X-Tenant'' = Some (tenant_id s)
        \<and> dict_get (req_headers q) ''Authorization'' = Some (''Bearer '' @ strip tok)
        \<and> id_tenant (te_ident e) \<in> {[], tenant_id s})"
proof -
  have t: "str_field (sent tc) ''tenant_id'' = Some (tenant_id s)"
    using api_call_tenant [OF assms(1-5)] by (simp add: str_field_def TENANT_ARG_def)
  have "hv = ''Bearer '' @ tok" using assms(6) by (auto simp: auth_headers_def split: if_splits)
  then have h: "parse_bearer (Some hv) = strip tok" using parse_bearer_sent by simp
  have j: "id_jwt (te_ident e) = strip tok \<and> id_jwt (te_ident e) \<noteq> []"
    using gate_identity [OF assms(7)] h by metis
  have "st' = snd (run_tool hardened e (called tc) (sent tc) st)"
    using serve_state [OF hardened_handler, of e "called tc" "sent tc" "(p, st)"] assms(8) by simp
  then have "scoped_new e (sent tc) st st'" using run_hardened_scoped by simp
  then show ?thesis using j t by (auto simp: scoped_new_def scoped_def bearer_token_def)
qed

section \<open>From the corpus to the client\<close>

text \<open>
  Both readers of a chunk id, the tool's and the retrieval node's, recover the same document, the one
  the chunker made the id of.
\<close>

theorem document_ids_agree:
  "rag_doc_id_of = RetrievalNode.doc_id_of \<and> rag_doc_id_of (chunk_id_for d n) = d"
proof
  show e: "rag_doc_id_of = RetrievalNode.doc_id_of" by (rule ext) (simp add: rag_doc_id_of_def doc_id_of_def)
  have "contains (''chunk-'' @ d @ ''-p'' @ nat_str n) ''-p''"
    using contains_append [of "''chunk-'' @ d" "''-p''" "nat_str n"] by simp
  moreover have "chunk_id_for d n = ''chunk-'' @ (d @ ''-p'' @ nat_str n)"
    by (simp add: chunk_id_for_def)
  ultimately show "rag_doc_id_of (chunk_id_for d n) = d"
    using rsplit1_chunk [of d n]
    by (simp only: rag_doc_id_of_def Let_def removeprefix_append starts_with_append) simp
qed


definition demo_answering :: tool_env where
  "demo_answering = (McpLaws.demo_env no_identity (Inr (demo_reply 200 JNull)))\<lparr>te_rag :=
     \<lambda>q t k. Finished (rag_result (retrieve_and_generate demo_rag demo_flags [row_a] 0 [] ''q'' ''a'' None))\<rparr>"


text \<open>The agent of the API node's example calls the server; the gate verified its token.\<close>

definition demo_gate :: "string \<Rightarrow> jdict res" where
  "demo_gate token = Inr [(''tenant_id'', JStr ''tenant-a'')]"

definition demo_server_env :: tool_env where
  "demo_server_env = McpLaws.demo_env (set_request_identity ''svc'' ''tenant-a'') (Inr (demo_reply 200 demo_order))"

definition demo_agent_call :: "reply res \<times> pending \<times> call_state" where
  "demo_agent_call = serve_call hardened demo_server_env (called demo_call) (sent demo_call) (None, demo_start)"

theorem agent_call_reaches_services_witness:
  "\<exists>q. sent_http (snd (snd demo_agent_call)) = [q] \<and> dict_get (req_headers q) ''X-Tenant'' = Some ''tenant-a''
     \<and> dict_get (req_headers q) ''Authorization'' = Some ''Bearer svc''
     \<and> dict_get (proposed demo_call) ''tenant_id'' = Some (JStr ''tenant-b'')"
proof -
  obtain u ast where run: "api_body ApiNode.demo_env ApiNode.demo_cfg demo_request = (Inr u, Some ast)" and tc: "calls ast = [demo_call]"
    using ApiNode.demo_run by blast
  have cat: "list_tools demo_session = Inr demo_tools" by (simp add: demo_session_def)
  have D: "TENANT_ARG \<in> set (declared_properties (tools_for_claude demo_tools) (called demo_call))"
    by (simp add: tools_for_claude_def demo_tools_def demo_call_def TENANT_ARG_def)
  have hd: "auth_headers ''svc'' = Some [(''Authorization'', ''Bearer svc'')]" by (simp add: auth_headers_def)
  have gate: "bearer_middleware demo_conf demo_gate (\<lambda>j. []) ''http'' (Some ''Bearer svc'') = Inr (PassOn (Some (te_ident demo_server_env)))"
    by code_simp
  obtain r p' st' where c: "demo_agent_call = (r, p', st')" by (cases demo_agent_call)
  have l: "length (sent_http (snd (snd demo_agent_call))) = 1" by code_simp
  have t: "tenant_id demo_request = ''tenant-a''" "strip ''svc'' = ''svc''" by code_simp+
  have "demo_call \<in> set (calls ast)" using tc by simp
  from agent_call_reaches_services [OF ApiNode.demo_open(1) cat run this D hd gate c [unfolded demo_agent_call_def]] l t
  show ?thesis unfolding c by (auto simp: demo_start_def length_Suc_conv demo_call_def)
qed

section \<open>The agent's clients of the pipeline\<close>

(* src/taxcalc-agent-svc/src/taxcalc_agent_svc/retrievers.py:34-36 PG_DSN_ENV *)
definition PG_DSN_ENV :: string where "PG_DSN_ENV = ''TAXCALC_AI_PG_DSN''"

(* src/taxcalc-agent-svc/src/taxcalc_agent_svc/retrievers.py:37-37 REDIS_URL_ENV *)
definition REDIS_URL_ENV :: string where "REDIS_URL_ENV = ''TAXCALC_AI_REDIS_URL''"

text \<open>
  \<open>_CLIENTS\<close> is filled on the first use; \<open>env\<close> is the process environment of the call. The second
  result is the names the dictionary holds afterwards.
\<close>

(* src/taxcalc-agent-svc/src/taxcalc_agent_svc/retrievers.py:43-69 _clients *)
definition agent_clients :: "(string, string) dict \<Rightarrow> client_opening \<Rightarrow> string list \<Rightarrow> unit res \<times> string list" where
  "agent_clients env o' cs =
     (let (r, cs1) = (if cs \<noteq> [] then (Inr (), cs)
        else case open_anthropic o' of Inl x \<Rightarrow> (Inl x, cs)
          | Inr _ \<Rightarrow> (case dict_get env PG_DSN_ENV of None \<Rightarrow> (Inl (KeyError PG_DSN_ENV), [''anthropic''])
             | Some _ \<Rightarrow> (case open_pg o' of Inl x \<Rightarrow> (Inl x, [''anthropic''])
             | Inr _ \<Rightarrow> (case dict_get env REDIS_URL_ENV of None \<Rightarrow> (Inl (KeyError REDIS_URL_ENV), [''anthropic'', ''conn''])
             | Some _ \<Rightarrow> (case open_redis o' of Inl x \<Rightarrow> (Inl x, [''anthropic'', ''conn''])
                | Inr _ \<Rightarrow> (Inr (), [''anthropic'', ''conn'', ''redis'']))))))
      in (case r of Inl x \<Rightarrow> Inl x | Inr _ \<Rightarrow> bind_res (need ''conn'' cs1) (\<lambda>_. need ''redis'' cs1), cs1))"

text \<open>
  The clients are opened once, whatever happens later: after a success every call answers with them. A
  first call that fails after the model's client was made leaves a dictionary that is neither empty nor
  complete: every later call fails with the name of the client that is missing, also when the database,
  the cache and the environment are by then as they should be.
\<close>

theorem agent_clients_opened_once:
  assumes "agent_clients env o1 [] = (r, cs)" and "open_anthropic o1 = Inr ()"
  shows "agent_clients env2 o2 cs = (case r of Inr _ \<Rightarrow> Inr () | Inl _ \<Rightarrow> Inl (KeyError (if ''conn'' \<in> set cs then ''redis'' else ''conn'')), cs)"
  using assms by (auto simp: agent_clients_def need_def bind_res_def split: sum.splits option.splits)

end
