(* ===== verification/TaxModels.thy ===== *)
theory TaxModels
  imports Decimal
begin

text \<open>
  \<open>taxcalc_ai/models.py\<close>: the models at the boundary of the sidecar, from JSON to a validated record
  and back, and \<open>cli.py\<close>, which validates a file. The conversions of the validation library (an
  integer, a float, a decimal, a time of a JSON value, the trimming of a text) are arguments; the
  field bounds, the refusal of unknown keys, the wire names and the validators are written out.
\<close>

section \<open>Reading a model\<close>

text \<open>A point in time, with or without a zone: comparing one of each raises.\<close>

record instant =
  aware :: bool
  at_us :: int

definition before :: "instant \<Rightarrow> instant \<Rightarrow> bool res" where
  "before a b = (if aware a \<noteq> aware b then Inl (TypeError ''offset-naive and offset-aware'') else Inr (at_us a < at_us b))"

record wire_conv =
  cv_int :: "json \<Rightarrow> int option"
  cv_float :: "json \<Rightarrow> rat option"
  cv_dec :: "json \<Rightarrow> dec option"
  cv_time :: "json \<Rightarrow> instant option"
  cv_trim :: "string \<Rightarrow> string"

text \<open>
  A field is found under its wire name or else under its own; every other key of the object, the own
  name beside the wire name included, is an unknown one.
\<close>

definition field_key :: "jdict \<Rightarrow> string \<times> string \<Rightarrow> string" where
  "field_key d f = (if fst f \<in> set (dict_keys d) then fst f else snd f)"

definition wire_get :: "jdict \<Rightarrow> string \<times> string \<Rightarrow> json option" where
  "wire_get d f = dict_get d (field_key d f)"

definition only_fields :: "jdict \<Rightarrow> (string \<times> string) list \<Rightarrow> bool" where
  "only_fields d fs \<longleftrightarrow> set (dict_keys d) \<subseteq> set (map (field_key d) fs)"

definition text_of :: "(string \<Rightarrow> string) \<Rightarrow> nat \<Rightarrow> nat option \<Rightarrow> json \<Rightarrow> string option" where
  "text_of trim lo hi v = (case v of
     JStr s \<Rightarrow> (let t = trim s in if lo \<le> length t \<and> (case hi of None \<Rightarrow> True | Some h \<Rightarrow> length t \<le> h) then Some t else None)
   | _ \<Rightarrow> None)"

definition in_range :: "'a :: linorder \<Rightarrow> 'a option \<Rightarrow> 'a \<Rightarrow> 'a option" where
  "in_range lo hi x = (if lo \<le> x \<and> (case hi of None \<Rightarrow> True | Some h \<Rightarrow> x \<le> h) then Some x else None)"

text \<open>\<open>ge=0, max_digits=14, decimal_places=2\<close>, trailing zeros not counted.\<close>

definition money_ok :: "dec \<Rightarrow> bool" where
  "money_ok d \<longleftrightarrow> (case dec_value d of None \<Rightarrow> False
     | Some v \<Rightarrow> 0 \<le> v \<and> v < 10 ^ 12 \<and> of_int \<lfloor>v * 100\<rfloor> = v * 100)"

definition money_of :: "wire_conv \<Rightarrow> json \<Rightarrow> dec option" where
  "money_of cv v = (case cv_dec cv v of Some d \<Rightarrow> if money_ok d then Some d else None | None \<Rightarrow> None)"

definition wire_field :: "jdict \<Rightarrow> string \<times> string \<Rightarrow> (json \<Rightarrow> 'a option) \<Rightarrow> 'a option" where
  "wire_field d f conv = Option.bind (wire_get d f) conv"

definition wire_default :: "jdict \<Rightarrow> string \<times> string \<Rightarrow> 'a \<Rightarrow> (json \<Rightarrow> 'a option) \<Rightarrow> 'a option" where
  "wire_default d f dflt conv = (case wire_get d f of None \<Rightarrow> Some dflt | Some v \<Rightarrow> conv v)"

definition invalid :: "string \<Rightarrow> 'a res" where
  "invalid m = Inl (ValidationError m)"

definition required :: "'a option \<Rightarrow> 'a res" where
  "required x = (case x of None \<Rightarrow> invalid ''field'' | Some y \<Rightarrow> Inr y)"

lemma required_eq [simp]: "required x = Inr y \<longleftrightarrow> x = Some y" "required (Some y) = Inr y"
  by (auto simp: required_def invalid_def split: option.splits)

definition opt_list :: "('a \<Rightarrow> 'b option) \<Rightarrow> 'a list \<Rightarrow> 'b list option" where
  "opt_list f xs = (if list_all (\<lambda>x. f x \<noteq> None) xs then Some (map (\<lambda>x. the (f x)) xs) else None)"

section \<open>A taxpayer\<close>

(* src/taxcalc-ai/src/taxcalc_ai/models.py:40-44 FILING_STATUSES *)
definition FILING_STATUSES :: "string list" where
  "FILING_STATUSES = [''SINGLE'', ''MARRIED_JOINT'', ''MARRIED_SEPARATE'', ''HEAD_OF_HOUSEHOLD'']"

(* src/taxcalc-ai/src/taxcalc_ai/models.py:46-47 DEFAULT_MODEL_ID *)
definition DEFAULT_MODEL_ID :: string where "DEFAULT_MODEL_ID = ''claude-haiku-4-5''"

(* src/taxcalc-ai/src/taxcalc_ai/models.py:49-51 TENANT_ID_PREFIX *)
definition TENANT_ID_PREFIX :: string where "TENANT_ID_PREFIX = ''tenant-''"

(* src/taxcalc-ai/src/taxcalc_ai/models.py:53-54 HIGH_CONFIDENCE *)
definition HIGH_CONFIDENCE :: rat where "HIGH_CONFIDENCE = 9 / 10"

(* src/taxcalc-ai/src/taxcalc_ai/models.py:56-57 MIN_RATIONALE_CHARS *)
definition MIN_RATIONALE_CHARS :: nat where "MIN_RATIONALE_CHARS = 16"

record liability =
  tax_year :: int
  bracket_id :: string
  taxable_amount :: dec
  liability_amount :: dec
  computed_at :: instant

definition liability_fields :: "(string \<times> string) list" where
  "liability_fields = [(''taxYear'', ''tax_year''), (''bracketId'', ''bracket_id''), (''taxableAmount'', ''taxable_amount''),
     (''liabilityAmount'', ''liability_amount''), (''computedAt'', ''computed_at'')]"

(* src/taxcalc-ai/src/taxcalc_ai/models.py:86-99 Liability._liability_cannot_exceed_taxable_amount *)
definition liability_cannot_exceed :: "liability \<Rightarrow> liability res" where
  "liability_cannot_exceed l =
     (case (dec_value (liability_amount l), dec_value (taxable_amount l)) of
        (Some a, Some b) \<Rightarrow> if b < a then invalid ''liability_amount'' else Inr l
      | _ \<Rightarrow> Inr l)"

(* src/taxcalc-ai/src/taxcalc_ai/models.py:60-99 Liability *)
definition parse_liability :: "wire_conv \<Rightarrow> json \<Rightarrow> liability res" where
  "parse_liability cv v = (case v of
     JObj d \<Rightarrow>
       (case (wire_field d (''taxYear'', ''tax_year'') (\<lambda>x. Option.bind (cv_int cv x) (in_range 1913 (Some 2999))),
              wire_field d (''bracketId'', ''bracket_id'') (text_of (cv_trim cv) 1 (Some 64)),
              wire_field d (''taxableAmount'', ''taxable_amount'') (money_of cv),
              wire_field d (''liabilityAmount'', ''liability_amount'') (money_of cv),
              wire_field d (''computedAt'', ''computed_at'') (cv_time cv)) of
          (Some y, Some b, Some t, Some a, Some c) \<Rightarrow>
            (if only_fields d liability_fields
             then liability_cannot_exceed \<lparr>tax_year = y, bracket_id = b, taxable_amount = t, liability_amount = a, computed_at = c\<rparr>
             else invalid ''Liability'')
        | _ \<Rightarrow> invalid ''Liability'')
   | _ \<Rightarrow> invalid ''Liability'')"

record taxpayer =
  tp_id :: string
  tp_tenant :: string
  display_name :: string
  filing_status :: string
  home_jurisdiction :: string
  created_at :: instant
  liabilities :: "liability list"
  tags :: "string list"

definition taxpayer_fields :: "(string \<times> string) list" where
  "taxpayer_fields = [(''id'', ''id''), (''tenantId'', ''tenant_id''), (''displayName'', ''display_name''),
     (''filingStatus'', ''filing_status''), (''homeJurisdiction'', ''home_jurisdiction''), (''createdAt'', ''created_at''),
     (''liabilities'', ''liabilities''), (''tags'', ''tags'')]"

(* src/taxcalc-ai/src/taxcalc_ai/models.py:126-138 Taxpayer._tenant_id_shape *)
definition tenant_id_shape :: "string \<Rightarrow> string option" where
  "tenant_id_shape v = (if starts_with v TENANT_ID_PREFIX then Some v else None)"

(* src/taxcalc-ai/src/taxcalc_ai/models.py:140-151 Taxpayer._filing_status_is_known *)
definition filing_status_is_known :: "string \<Rightarrow> string option" where
  "filing_status_is_known v = (if v \<in> set FILING_STATUSES then Some v else None)"

(* src/taxcalc-ai/src/taxcalc_ai/models.py:153-168 Taxpayer._liabilities_are_not_computed_before_the_taxpayer_existed *)
fun not_computed_before :: "instant \<Rightarrow> liability list \<Rightarrow> unit res" where
  "not_computed_before created [] = Inr ()"
| "not_computed_before created (l # ls) =
     bind_res (before (computed_at l) created) (\<lambda>b. if b then invalid ''computed_at'' else not_computed_before created ls)"

definition parse_liabilities :: "wire_conv \<Rightarrow> json option \<Rightarrow> liability list res" where
  "parse_liabilities cv v = (case v of
     None \<Rightarrow> Inr []
   | Some (JList xs) \<Rightarrow> map_res (parse_liability cv) xs
   | _ \<Rightarrow> invalid ''liabilities'')"

definition tags_of :: "(string \<Rightarrow> string) \<Rightarrow> json \<Rightarrow> string list option" where
  "tags_of trim v = (case v of JList xs \<Rightarrow> opt_list (text_of trim 0 None) xs | _ \<Rightarrow> None)"

(* src/taxcalc-ai/src/taxcalc_ai/models.py:102-168 Taxpayer *)
definition parse_taxpayer :: "wire_conv \<Rightarrow> json \<Rightarrow> taxpayer res" where
  "parse_taxpayer cv v = (case v of
     JObj d \<Rightarrow>
       bind_res (parse_liabilities cv (wire_get d (''liabilities'', ''liabilities''))) (\<lambda>ls.
       bind_res (required (wire_field d (''id'', ''id'') (text_of (cv_trim cv) 1 (Some 64)))) (\<lambda>i.
       bind_res (required (wire_field d (''tenantId'', ''tenant_id'')
         (\<lambda>x. Option.bind (text_of (cv_trim cv) 1 (Some 64) x) tenant_id_shape))) (\<lambda>t.
       bind_res (required (wire_field d (''displayName'', ''display_name'') (text_of (cv_trim cv) 1 (Some 255)))) (\<lambda>n.
       bind_res (required (wire_field d (''filingStatus'', ''filing_status'')
         (\<lambda>x. Option.bind (text_of (cv_trim cv) 1 None x) filing_status_is_known))) (\<lambda>f.
       bind_res (required (wire_field d (''homeJurisdiction'', ''home_jurisdiction'') (text_of (cv_trim cv) 1 (Some 64)))) (\<lambda>h.
       bind_res (required (wire_field d (''createdAt'', ''created_at'') (cv_time cv))) (\<lambda>c.
       bind_res (required (wire_default d (''tags'', ''tags'') [] (tags_of (cv_trim cv)))) (\<lambda>g.
         if only_fields d taxpayer_fields
         then bind_res (not_computed_before c ls) (\<lambda>_.
           Inr \<lparr>tp_id = i, tp_tenant = t, display_name = n, filing_status = f, home_jurisdiction = h,
                created_at = c, liabilities = ls, tags = g\<rparr>)
         else invalid ''Taxpayer''))))))))
   | _ \<Rightarrow> invalid ''Taxpayer'')"

section \<open>Writing it back\<close>

text \<open>\<open>model_dump(mode="json", by_alias=True)\<close>: money and times as text; \<open>wt\<close> writes a time.\<close>

definition dump_liability :: "(instant \<Rightarrow> string) \<Rightarrow> liability \<Rightarrow> json" where
  "dump_liability wt l = JObj [(''taxYear'', JInt (tax_year l)), (''bracketId'', JStr (bracket_id l)),
     (''taxableAmount'', JStr (dec_str (taxable_amount l))), (''liabilityAmount'', JStr (dec_str (liability_amount l))),
     (''computedAt'', JStr (wt (computed_at l)))]"

definition dump_taxpayer :: "(instant \<Rightarrow> string) \<Rightarrow> taxpayer \<Rightarrow> json" where
  "dump_taxpayer wt t = JObj [(''id'', JStr (tp_id t)), (''tenantId'', JStr (tp_tenant t)), (''displayName'', JStr (display_name t)),
     (''filingStatus'', JStr (filing_status t)), (''homeJurisdiction'', JStr (home_jurisdiction t)),
     (''createdAt'', JStr (wt (created_at t))), (''liabilities'', JList (map (dump_liability wt) (liabilities t))),
     (''tags'', JList (map JStr (tags t)))]"

section \<open>The envelopes\<close>

record estimate_request =
  rq_correlation :: string
  rq_taxpayer :: taxpayer
  rq_model :: string
  rq_feature :: string

(* src/taxcalc-ai/src/taxcalc_ai/models.py:190-200 LiabilityEstimateRequest._correlation_id_shape *)
definition correlation_id_shape :: "string \<Rightarrow> string option" where
  "correlation_id_shape v = (if starts_with v ''corr-'' then Some v else None)"

definition plain_text :: "nat option \<Rightarrow> json \<Rightarrow> string option" where
  "plain_text hi = text_of (\<lambda>s. s) 1 hi"

(* src/taxcalc-ai/src/taxcalc_ai/models.py:171-200 LiabilityEstimateRequest *)
definition parse_request :: "wire_conv \<Rightarrow> json \<Rightarrow> estimate_request res" where
  "parse_request cv v = (case v of
     JObj d \<Rightarrow>
       (case wire_get d (''taxpayer'', ''taxpayer'') of
          None \<Rightarrow> invalid ''LiabilityEstimateRequest''
        | Some tv \<Rightarrow> bind_res (parse_taxpayer cv tv) (\<lambda>t.
          bind_res (required (wire_field d (''correlationId'', ''correlation_id'')
            (\<lambda>x. Option.bind (plain_text (Some 128) x) correlation_id_shape))) (\<lambda>c.
          bind_res (required (wire_default d (''modelId'', ''model_id'') DEFAULT_MODEL_ID (plain_text (Some 128)))) (\<lambda>m.
          bind_res (required (wire_default d (''feature'', ''feature'') ''liability-estimate'' (plain_text (Some 64)))) (\<lambda>f.
            if only_fields d [(''correlationId'', ''correlation_id''), (''taxpayer'', ''taxpayer''), (''modelId'', ''model_id''), (''feature'', ''feature'')]
            then Inr \<lparr>rq_correlation = c, rq_taxpayer = t, rq_model = m, rq_feature = f\<rparr>
            else invalid ''LiabilityEstimateRequest'')))))
   | _ \<Rightarrow> invalid ''LiabilityEstimateRequest'')"

definition dump_request :: "(instant \<Rightarrow> string) \<Rightarrow> estimate_request \<Rightarrow> json" where
  "dump_request wt r = JObj [(''correlationId'', JStr (rq_correlation r)), (''taxpayer'', dump_taxpayer wt (rq_taxpayer r)),
     (''modelId'', JStr (rq_model r)), (''feature'', JStr (rq_feature r))]"

record estimate_result =
  rs_correlation :: string
  rs_taxpayer :: string
  rs_label :: string
  rs_confidence :: rat
  rs_rationale :: string
  rs_estimate :: dec
  rs_model :: string

definition result_fields_ok :: "estimate_result \<Rightarrow> bool" where
  "result_fields_ok r \<longleftrightarrow> 1 \<le> length (rs_correlation r) \<and> length (rs_correlation r) \<le> 128
     \<and> 1 \<le> length (rs_taxpayer r) \<and> length (rs_taxpayer r) \<le> 64 \<and> 1 \<le> length (rs_label r) \<and> length (rs_label r) \<le> 64
     \<and> 0 \<le> rs_confidence r \<and> rs_confidence r \<le> 1 \<and> 1 \<le> length (rs_rationale r) \<and> length (rs_rationale r) \<le> 1024
     \<and> money_ok (rs_estimate r) \<and> 1 \<le> length (rs_model r) \<and> length (rs_model r) \<le> 128"

(* src/taxcalc-ai/src/taxcalc_ai/models.py:222-234 LiabilityEstimateResult._high_confidence_requires_rationale *)
definition high_confidence_requires_rationale :: "estimate_result \<Rightarrow> estimate_result res" where
  "high_confidence_requires_rationale r =
     (if HIGH_CONFIDENCE \<le> rs_confidence r \<and> length (rs_rationale r) < MIN_RATIONALE_CHARS then invalid ''rationale'' else Inr r)"

(* src/taxcalc-ai/src/taxcalc_ai/models.py:203-234 LiabilityEstimateResult *)
definition mk_estimate_result :: "estimate_result \<Rightarrow> estimate_result res" where
  "mk_estimate_result r = (if result_fields_ok r then high_confidence_requires_rationale r else invalid ''LiabilityEstimateResult'')"

record completion_request =
  cq_prompt :: string
  cq_model :: string
  cq_feature :: string

(* src/taxcalc-ai/src/taxcalc_ai/models.py:237-250 ProxyCompletionRequest *)
definition mk_completion_request :: "string \<Rightarrow> string \<Rightarrow> string \<Rightarrow> completion_request res" where
  "mk_completion_request p m f =
     (if 1 \<le> length p \<and> 1 \<le> length m \<and> length m \<le> 128 \<and> 1 \<le> length f \<and> length f \<le> 64
      then Inr \<lparr>cq_prompt = p, cq_model = m, cq_feature = f\<rparr> else invalid ''ProxyCompletionRequest'')"

record completion_response =
  cp_model :: string
  cp_resolved :: string
  cp_feature :: string
  cp_input :: int
  cp_output :: int
  cp_text :: string

(* src/taxcalc-ai/src/taxcalc_ai/models.py:253-273 ProxyCompletionResponse *)
definition parse_completion_response :: "wire_conv \<Rightarrow> json \<Rightarrow> completion_response res" where
  "parse_completion_response cv v = (case v of
     JObj d \<Rightarrow>
       (case (wire_field d (''model'', ''model'') (plain_text (Some 128)), wire_field d (''resolvedModel'', ''resolved_model'') (plain_text (Some 128)),
              wire_field d (''feature'', ''feature'') (plain_text (Some 64)),
              wire_field d (''inputTokens'', ''input_tokens'') (\<lambda>x. Option.bind (cv_int cv x) (in_range 0 None)),
              wire_field d (''outputTokens'', ''output_tokens'') (\<lambda>x. Option.bind (cv_int cv x) (in_range 0 None)),
              wire_field d (''text'', ''text'') (plain_text None)) of
          (Some m, Some r, Some f, Some i, Some k, Some t) \<Rightarrow>
            (if only_fields d [(''model'', ''model''), (''resolvedModel'', ''resolved_model''), (''feature'', ''feature''),
                (''inputTokens'', ''input_tokens''), (''outputTokens'', ''output_tokens''), (''text'', ''text'')]
             then Inr \<lparr>cp_model = m, cp_resolved = r, cp_feature = f, cp_input = i, cp_output = k, cp_text = t\<rparr>
             else invalid ''ProxyCompletionResponse'')
        | _ \<Rightarrow> invalid ''ProxyCompletionResponse'')
   | _ \<Rightarrow> invalid ''ProxyCompletionResponse'')"

record estimate_completion =
  ec_label :: string
  ec_confidence :: rat
  ec_rationale :: string
  ec_estimate :: dec

(* src/taxcalc-ai/src/taxcalc_ai/models.py:276-292 EstimateCompletion *)
definition parse_estimate_completion :: "wire_conv \<Rightarrow> json \<Rightarrow> estimate_completion res" where
  "parse_estimate_completion cv v = (case v of
     JObj d \<Rightarrow>
       (case (wire_field d (''label'', ''label'') (plain_text (Some 64)),
              wire_field d (''confidence'', ''confidence'') (\<lambda>x. Option.bind (cv_float cv x) (in_range 0 (Some 1))),
              wire_field d (''rationale'', ''rationale'') (plain_text (Some 1024)),
              wire_field d (''estimatedLiability'', ''estimated_liability'') (money_of cv)) of
          (Some l, Some c, Some r, Some e) \<Rightarrow>
            (if only_fields d [(''label'', ''label''), (''confidence'', ''confidence''), (''rationale'', ''rationale''),
                (''estimatedLiability'', ''estimated_liability'')]
             then Inr \<lparr>ec_label = l, ec_confidence = c, ec_rationale = r, ec_estimate = e\<rparr> else invalid ''EstimateCompletion'')
        | _ \<Rightarrow> invalid ''EstimateCompletion'')
   | _ \<Rightarrow> invalid ''EstimateCompletion'')"

section \<open>The command line\<close>

text \<open>
  \<open>main\<close> of \<open>cli.py\<close>: its exit code and what it prints to standard output. \<open>read\<close> is the file
  system, \<open>js\<close> the JSON reader of the validation library, \<open>show\<close> its indented writer.
\<close>

(* src/taxcalc-ai/src/taxcalc_ai/cli.py:32-59 main *)
definition cli_main ::
  "wire_conv \<Rightarrow> (instant \<Rightarrow> string) \<Rightarrow> (string \<Rightarrow> string option) \<Rightarrow> (string \<Rightarrow> json option) \<Rightarrow> (json \<Rightarrow> string)
     \<Rightarrow> string list \<Rightarrow> (int \<times> string list) res" where
  "cli_main cv wt read js show argv = (case argv of
     [] \<Rightarrow> Inl (OtherError ''IndexError'' ''list index out of range'')
   | [prog, path] \<Rightarrow>
       (case read path of
          None \<Rightarrow> Inr (1, [])
        | Some raw \<Rightarrow>
            (case (case js raw of None \<Rightarrow> invalid ''json'' | Some v \<Rightarrow> parse_request cv v) of
               Inl (ValidationError m) \<Rightarrow> Inr (1, [])
             | Inl x \<Rightarrow> Inl x
             | Inr r \<Rightarrow> Inr (0, [show (dump_request wt r)])))
   | _ \<Rightarrow> Inr (2, []))"

section \<open>What a validated record is\<close>

definition liability_wf :: "liability \<Rightarrow> bool" where
  "liability_wf l \<longleftrightarrow> 1913 \<le> tax_year l \<and> tax_year l \<le> 2999 \<and> 1 \<le> length (bracket_id l) \<and> length (bracket_id l) \<le> 64
     \<and> (\<exists>t a. dec_value (taxable_amount l) = Some t \<and> dec_value (liability_amount l) = Some a
          \<and> 0 \<le> a \<and> a \<le> t \<and> t < 10 ^ 12 \<and> of_int \<lfloor>t * 100\<rfloor> = t * 100 \<and> of_int \<lfloor>a * 100\<rfloor> = a * 100)"

definition taxpayer_wf :: "taxpayer \<Rightarrow> bool" where
  "taxpayer_wf t \<longleftrightarrow> 1 \<le> length (tp_id t) \<and> length (tp_id t) \<le> 64 \<and> starts_with (tp_tenant t) TENANT_ID_PREFIX \<and> length (tp_tenant t) \<le> 64
     \<and> 1 \<le> length (display_name t) \<and> length (display_name t) \<le> 255 \<and> filing_status t \<in> set FILING_STATUSES
     \<and> 1 \<le> length (home_jurisdiction t) \<and> length (home_jurisdiction t) \<le> 64
     \<and> (\<forall>l \<in> set (liabilities t). liability_wf l \<and> aware (computed_at l) = aware (created_at t) \<and> at_us (created_at t) \<le> at_us (computed_at l))"

lemma wire_field_eq: "wire_field d f conv = Some x \<longleftrightarrow> (\<exists>v. wire_get d f = Some v \<and> conv v = Some x)"
  by (simp add: wire_field_def bind_eq_Some_conv)

lemma text_of_eq: "text_of trim lo hi v = Some t \<longleftrightarrow>
    (\<exists>s. v = JStr s \<and> t = trim s \<and> lo \<le> length t \<and> (\<forall>h. hi = Some h \<longrightarrow> length t \<le> h))"
  by (cases v) (auto simp: text_of_def Let_def split: option.splits)

lemma in_range_eq: "in_range lo hi x = Some y \<longleftrightarrow> y = x \<and> lo \<le> x \<and> (\<forall>h. hi = Some h \<longrightarrow> x \<le> h)"
  by (auto simp: in_range_def split: option.splits)

lemma money_of_eq: "money_of cv v = Some d \<longleftrightarrow> cv_dec cv v = Some d \<and> money_ok d"
  by (auto simp: money_of_def split: option.splits if_splits)

lemmas wire_eqs = wire_field_eq text_of_eq in_range_eq money_of_eq bind_eq_Some_conv

text \<open>What a model parses to, field by field.\<close>

lemma parse_liabilityE:
  assumes "parse_liability cv v = Inr l"
  obtains d y b t a c where "v = JObj d" "only_fields d liability_fields"
    "wire_field d (''taxYear'', ''tax_year'') (\<lambda>x. Option.bind (cv_int cv x) (in_range 1913 (Some 2999))) = Some y"
    "wire_field d (''bracketId'', ''bracket_id'') (text_of (cv_trim cv) 1 (Some 64)) = Some b"
    "wire_field d (''taxableAmount'', ''taxable_amount'') (money_of cv) = Some t"
    "wire_field d (''liabilityAmount'', ''liability_amount'') (money_of cv) = Some a"
    "wire_field d (''computedAt'', ''computed_at'') (cv_time cv) = Some c"
    "liability_cannot_exceed \<lparr>tax_year = y, bracket_id = b, taxable_amount = t, liability_amount = a, computed_at = c\<rparr> = Inr l"
  using assms by (auto simp: parse_liability_def invalid_def split: json.splits option.splits if_splits)

lemma money_okE: "money_ok d \<Longrightarrow> \<exists>v. dec_value d = Some v \<and> 0 \<le> v \<and> v < 10 ^ 12 \<and> of_int \<lfloor>v * 100\<rfloor> = v * 100"
  by (auto simp: money_ok_def split: option.splits)

lemma parse_liability_wf:
  assumes "parse_liability cv v = Inr l"
  shows "liability_wf l"
proof -
  from parse_liabilityE [OF assms] obtain d y b t a c where p: "v = JObj d" "only_fields d liability_fields"
    "wire_field d (''taxYear'', ''tax_year'') (\<lambda>x. Option.bind (cv_int cv x) (in_range 1913 (Some 2999))) = Some y"
    "wire_field d (''bracketId'', ''bracket_id'') (text_of (cv_trim cv) 1 (Some 64)) = Some b"
    "wire_field d (''taxableAmount'', ''taxable_amount'') (money_of cv) = Some t"
    "wire_field d (''liabilityAmount'', ''liability_amount'') (money_of cv) = Some a"
    "wire_field d (''computedAt'', ''computed_at'') (cv_time cv) = Some c"
    "liability_cannot_exceed \<lparr>tax_year = y, bracket_id = b, taxable_amount = t, liability_amount = a, computed_at = c\<rparr> = Inr l" .
  have m: "money_ok t" "money_ok a" using p(5,6) by (auto simp: wire_eqs)
  obtain tv av where v: "dec_value t = Some tv" "dec_value a = Some av" "tv < 10 ^ 12" "0 \<le> av"
    "of_int \<lfloor>tv * 100\<rfloor> = tv * 100" "of_int \<lfloor>av * 100\<rfloor> = av * 100"
    using money_okE [OF m(1)] money_okE [OF m(2)] by blast
  have l: "l = \<lparr>tax_year = y, bracket_id = b, taxable_amount = t, liability_amount = a, computed_at = c\<rparr> \<and> av \<le> tv"
    using p(8) v by (auto simp: liability_cannot_exceed_def invalid_def split: if_splits)
  have "1913 \<le> y \<and> y \<le> 2999 \<and> 1 \<le> length b \<and> length b \<le> 64" using p(3,4) by (auto simp: wire_eqs)
  then show ?thesis unfolding liability_wf_def using l v by auto
qed

lemma map_res_set: "map_res f xs = Inr ys \<Longrightarrow> y \<in> set ys \<Longrightarrow> \<exists>x \<in> set xs. f x = Inr y"
  by (induction xs arbitrary: ys) (auto split: sum.splits)

lemma not_computed_before_ok:
  "not_computed_before c ls = Inr () \<Longrightarrow> l \<in> set ls \<Longrightarrow> aware (computed_at l) = aware c \<and> at_us c \<le> at_us (computed_at l)"
  by (induction ls) (auto simp: bind_res_eq_Inr before_def invalid_def split: if_splits)

lemma parse_taxpayerE:
  assumes "parse_taxpayer cv v = Inr t"
  obtains d ls i tn n f h c g where "v = JObj d" "only_fields d taxpayer_fields"
    "parse_liabilities cv (wire_get d (''liabilities'', ''liabilities'')) = Inr ls"
    "wire_field d (''id'', ''id'') (text_of (cv_trim cv) 1 (Some 64)) = Some i"
    "wire_field d (''tenantId'', ''tenant_id'') (\<lambda>x. Option.bind (text_of (cv_trim cv) 1 (Some 64) x) tenant_id_shape) = Some tn"
    "wire_field d (''displayName'', ''display_name'') (text_of (cv_trim cv) 1 (Some 255)) = Some n"
    "wire_field d (''filingStatus'', ''filing_status'') (\<lambda>x. Option.bind (text_of (cv_trim cv) 1 None x) filing_status_is_known) = Some f"
    "wire_field d (''homeJurisdiction'', ''home_jurisdiction'') (text_of (cv_trim cv) 1 (Some 64)) = Some h"
    "wire_field d (''createdAt'', ''created_at'') (cv_time cv) = Some c"
    "wire_default d (''tags'', ''tags'') [] (tags_of (cv_trim cv)) = Some g"
    "not_computed_before c ls = Inr ()"
    "t = \<lparr>tp_id = i, tp_tenant = tn, display_name = n, filing_status = f, home_jurisdiction = h, created_at = c, liabilities = ls, tags = g\<rparr>"
  using assms
  by (auto simp: parse_taxpayer_def invalid_def bind_res_eq_Inr split: json.splits if_splits)

lemma parse_liabilities_each:
  assumes "parse_liabilities cv v = Inr ls" and "l \<in> set ls"
  shows "\<exists>x. parse_liability cv x = Inr l"
  using assms by (auto simp: parse_liabilities_def invalid_def split: option.splits json.splits dest: map_res_set)

text \<open>
  C39. What passes the boundary is well formed: the texts are within their bounds, the tenant has its prefix,
  the filing status is one of four, every liability is an amount of whole cents below a trillion that
  does not exceed what it was computed from, and none is stamped before the taxpayer was created.
\<close>

theorem taxpayer_boundary:
  assumes "parse_taxpayer cv v = Inr t"
  shows "taxpayer_wf t"
proof -
  from parse_taxpayerE [OF assms] obtain d ls i tn n f h c g where p: "v = JObj d" "only_fields d taxpayer_fields"
    "parse_liabilities cv (wire_get d (''liabilities'', ''liabilities'')) = Inr ls"
    "wire_field d (''id'', ''id'') (text_of (cv_trim cv) 1 (Some 64)) = Some i"
    "wire_field d (''tenantId'', ''tenant_id'') (\<lambda>x. Option.bind (text_of (cv_trim cv) 1 (Some 64) x) tenant_id_shape) = Some tn"
    "wire_field d (''displayName'', ''display_name'') (text_of (cv_trim cv) 1 (Some 255)) = Some n"
    "wire_field d (''filingStatus'', ''filing_status'') (\<lambda>x. Option.bind (text_of (cv_trim cv) 1 None x) filing_status_is_known) = Some f"
    "wire_field d (''homeJurisdiction'', ''home_jurisdiction'') (text_of (cv_trim cv) 1 (Some 64)) = Some h"
    "wire_field d (''createdAt'', ''created_at'') (cv_time cv) = Some c"
    "wire_default d (''tags'', ''tags'') [] (tags_of (cv_trim cv)) = Some g"
    "not_computed_before c ls = Inr ()"
    "t = \<lparr>tp_id = i, tp_tenant = tn, display_name = n, filing_status = f, home_jurisdiction = h, created_at = c, liabilities = ls, tags = g\<rparr>" .
  have texts: "1 \<le> length i \<and> length i \<le> 64" "starts_with tn TENANT_ID_PREFIX \<and> length tn \<le> 64" "1 \<le> length n \<and> length n \<le> 255"
    "f \<in> set FILING_STATUSES" "1 \<le> length h \<and> length h \<le> 64"
    using p(4-8) by (auto simp: wire_eqs tenant_id_shape_def filing_status_is_known_def split: if_splits)
  have "liability_wf l \<and> aware (computed_at l) = aware c \<and> at_us c \<le> at_us (computed_at l)" if "l \<in> set ls" for l
    using parse_liabilities_each [OF p(3) that] parse_liability_wf not_computed_before_ok [OF p(11) that] by blast
  then show ?thesis unfolding taxpayer_wf_def p(12) using texts by simp
qed

section \<open>A concrete boundary\<close>

definition demo_time :: "json \<Rightarrow> instant option" where
  "demo_time v = (case v of JStr (c # s) \<Rightarrow> map_option (\<lambda>n. \<lparr>aware = (c = CHR ''z''), at_us = n\<rparr>)
      (if s \<noteq> [] \<and> list_all is_digit s then Some (int (digits_val 0 s)) else None) | _ \<Rightarrow> None)"

definition demo_cv :: wire_conv where
  "demo_cv = \<lparr>cv_int = (\<lambda>v. case v of JInt i \<Rightarrow> Some i | _ \<Rightarrow> None), cv_float = (\<lambda>v. case v of JFloat r \<Rightarrow> Some r | _ \<Rightarrow> None),
     cv_dec = (\<lambda>v. case v of JStr s \<Rightarrow> dec_parse s | JInt i \<Rightarrow> dec_parse (int_str i) | _ \<Rightarrow> None), cv_time = demo_time, cv_trim = strip\<rparr>"

definition demo_liability :: "string \<Rightarrow> json" where
  "demo_liability stamp = JObj [(''taxYear'', JInt 2025), (''bracketId'', JStr ''b1''), (''taxableAmount'', JStr ''2.00''),
     (''liabilityAmount'', JStr ''0.50''), (''computedAt'', JStr stamp)]"

definition demo_taxpayer :: "string \<Rightarrow> json" where
  "demo_taxpayer stamp = JObj [(''id'', JStr '' t1 ''), (''tenantId'', JStr ''tenant-a''), (''displayName'', JStr ''Ann''), (''filingStatus'', JStr ''SINGLE''),
     (''homeJurisdiction'', JStr ''CA''), (''createdAt'', JStr ''z5''), (''liabilities'', JList [demo_liability stamp])]"

theorem taxpayer_boundary_witness:
  "\<exists>t. parse_taxpayer demo_cv (demo_taxpayer ''z7'') = Inr t \<and> tp_id t = ''t1'' \<and> length (liabilities t) = 1 \<and> taxpayer_wf t"
proof -
  have "case parse_taxpayer demo_cv (demo_taxpayer ''z7'') of Inl x \<Rightarrow> False | Inr t \<Rightarrow> tp_id t = ''t1'' \<and> length (liabilities t) = 1" by code_simp
  then obtain t where "parse_taxpayer demo_cv (demo_taxpayer ''z7'') = Inr t" "tp_id t = ''t1''" "length (liabilities t) = 1"
    by (cases "parse_taxpayer demo_cv (demo_taxpayer ''z7'')") auto
  then show ?thesis using taxpayer_boundary by blast
qed

section \<open>Writing and reading back\<close>

text \<open>
  What is relied on of the validation library: an integer is itself, a decimal is read from its text
  as Python does and is within the limits of the type, trimming twice is trimming once, and a time
  that was read is read back from how it is written.
\<close>

definition conv_ok :: "wire_conv \<Rightarrow> (instant \<Rightarrow> string) \<Rightarrow> bool" where
  "conv_ok cv wt \<longleftrightarrow> (\<forall>i. cv_int cv (JInt i) = Some i) \<and> (\<forall>s. cv_dec cv (JStr s) = dec_parse s)
     \<and> (\<forall>j neg c e. cv_dec cv j = Some (DFin neg c e) \<longrightarrow> dec_limits c e)
     \<and> (\<forall>s. cv_trim cv (cv_trim cv s) = cv_trim cv s)
     \<and> (\<forall>j i. cv_time cv j = Some i \<longrightarrow> cv_time cv (JStr (wt i)) = Some i)"

lemma money_back:
  assumes "conv_ok cv wt" and "money_of cv v = Some d"
  shows "money_of cv (JStr (dec_str d)) = Some d"
proof -
  have d: "cv_dec cv v = Some d" "money_ok d" using assms(2) by (auto simp: money_of_eq)
  then obtain neg c e where f: "d = DFin neg c e" by (cases d) (auto simp: money_ok_def)
  then have "dec_limits c e" using assms(1) d(1) by (auto simp: conv_ok_def)
  then have "cv_dec cv (JStr (dec_str d)) = Some d" using assms(1) dec_parse_str f by (simp add: conv_ok_def)
  then show ?thesis using d(2) by (simp add: money_of_eq)
qed

lemma text_back:
  assumes "conv_ok cv wt" and "text_of (cv_trim cv) lo hi v = Some t"
  shows "text_of (cv_trim cv) lo hi (JStr t) = Some t"
  using assms by (auto simp: text_of_eq conv_ok_def)

lemma dump_liability_back:
  assumes "conv_ok cv wt" and "parse_liability cv v = Inr l"
  shows "parse_liability cv (dump_liability wt l) = Inr l"
proof -
  from parse_liabilityE [OF assms(2)] obtain d y b t a c where p: "v = JObj d" "only_fields d liability_fields"
    "wire_field d (''taxYear'', ''tax_year'') (\<lambda>x. Option.bind (cv_int cv x) (in_range 1913 (Some 2999))) = Some y"
    "wire_field d (''bracketId'', ''bracket_id'') (text_of (cv_trim cv) 1 (Some 64)) = Some b"
    "wire_field d (''taxableAmount'', ''taxable_amount'') (money_of cv) = Some t"
    "wire_field d (''liabilityAmount'', ''liability_amount'') (money_of cv) = Some a"
    "wire_field d (''computedAt'', ''computed_at'') (cv_time cv) = Some c"
    "liability_cannot_exceed \<lparr>tax_year = y, bracket_id = b, taxable_amount = t, liability_amount = a, computed_at = c\<rparr> = Inr l" .
  have l: "l = \<lparr>tax_year = y, bracket_id = b, taxable_amount = t, liability_amount = a, computed_at = c\<rparr>"
    using p(8) by (auto simp: liability_cannot_exceed_def invalid_def split: option.splits if_splits)
  have again: "text_of (cv_trim cv) 1 (Some 64) (JStr b) = Some b" "money_of cv (JStr (dec_str t)) = Some t"
    "money_of cv (JStr (dec_str a)) = Some a" "cv_time cv (JStr (wt c)) = Some c" "cv_int cv (JInt y) = Some y"
    "in_range 1913 (Some 2999) y = Some y"
    using p(3-7) text_back [OF assms(1)] money_back [OF assms(1)] assms(1)
    by (auto simp: wire_field_eq conv_ok_def bind_eq_Some_conv in_range_eq)
  show ?thesis
    using p(8) again unfolding l
    by (simp add: parse_liability_def dump_liability_def wire_field_def wire_get_def field_key_def dict_keys_def
        only_fields_def liability_fields_def)
qed

lemma map_res_back:
  assumes "\<And>l. l \<in> set ls \<Longrightarrow> f (g l) = Inr l"
  shows "map_res f (map g ls) = Inr ls"
  using assms by (induction ls) auto

lemma tags_back:
  assumes "conv_ok cv wt" and "tags_of (cv_trim cv) v = Some g"
  shows "tags_of (cv_trim cv) (JList (map JStr g)) = Some g"
proof -
  have "text_of (cv_trim cv) 0 None (JStr x) = Some x" if mem: "x \<in> set g" for x
  proof -
    obtain y where "text_of (cv_trim cv) 0 None y = Some x"
      using assms(2) mem by (auto simp: tags_of_def opt_list_def list_all_iff split: json.splits if_splits)
    then show ?thesis by (rule text_back [OF assms(1)])
  qed
  then show ?thesis by (auto simp: tags_of_def opt_list_def list_all_iff intro: map_idI)
qed

lemma taxpayer_back:
  assumes "conv_ok cv wt" and "parse_taxpayer cv v = Inr t"
  shows "parse_taxpayer cv (dump_taxpayer wt t) = Inr t"
proof -
  from parse_taxpayerE [OF assms(2)] obtain d ls i tn n f h c g where p: "v = JObj d" "only_fields d taxpayer_fields"
    "parse_liabilities cv (wire_get d (''liabilities'', ''liabilities'')) = Inr ls"
    "wire_field d (''id'', ''id'') (text_of (cv_trim cv) 1 (Some 64)) = Some i"
    "wire_field d (''tenantId'', ''tenant_id'') (\<lambda>x. Option.bind (text_of (cv_trim cv) 1 (Some 64) x) tenant_id_shape) = Some tn"
    "wire_field d (''displayName'', ''display_name'') (text_of (cv_trim cv) 1 (Some 255)) = Some n"
    "wire_field d (''filingStatus'', ''filing_status'') (\<lambda>x. Option.bind (text_of (cv_trim cv) 1 None x) filing_status_is_known) = Some f"
    "wire_field d (''homeJurisdiction'', ''home_jurisdiction'') (text_of (cv_trim cv) 1 (Some 64)) = Some h"
    "wire_field d (''createdAt'', ''created_at'') (cv_time cv) = Some c"
    "wire_default d (''tags'', ''tags'') [] (tags_of (cv_trim cv)) = Some g"
    "not_computed_before c ls = Inr ()"
    "t = \<lparr>tp_id = i, tp_tenant = tn, display_name = n, filing_status = f, home_jurisdiction = h, created_at = c, liabilities = ls, tags = g\<rparr>" .
  have shapes: "tenant_id_shape tn = Some tn" "filing_status_is_known f = Some f"
    using p(5,7) by (auto simp: wire_field_eq bind_eq_Some_conv tenant_id_shape_def filing_status_is_known_def split: if_splits)
  have texts: "text_of (cv_trim cv) 1 (Some 64) (JStr i) = Some i" "text_of (cv_trim cv) 1 (Some 64) (JStr tn) = Some tn"
    "text_of (cv_trim cv) 1 (Some 255) (JStr n) = Some n" "text_of (cv_trim cv) 1 None (JStr f) = Some f"
    "text_of (cv_trim cv) 1 (Some 64) (JStr h) = Some h"
    using p(4-8) text_back [OF assms(1)]
    by (auto simp: wire_field_eq bind_eq_Some_conv tenant_id_shape_def filing_status_is_known_def split: if_splits)
  have time: "cv_time cv (JStr (wt c)) = Some c" using p(9) assms(1) by (auto simp: wire_field_eq conv_ok_def)
  have lists: "map_res (parse_liability cv) (map (dump_liability wt) ls) = Inr ls"
    using parse_liabilities_each [OF p(3)] dump_liability_back [OF assms(1)] by (intro map_res_back) blast
  have tags: "tags_of (cv_trim cv) (JList (map JStr g)) = Some g"
  proof (cases "wire_get d (''tags'', ''tags'')")
    case None
    then have "g = []" using p(10) by (simp add: wire_default_def)
    then show ?thesis by (simp add: tags_of_def opt_list_def)
  next
    case (Some x)
    then show ?thesis using p(10) tags_back [OF assms(1)] by (simp add: wire_default_def)
  qed
  show ?thesis unfolding p(12)
    using shapes texts time lists tags p(11)
    by (simp add: parse_taxpayer_def dump_taxpayer_def wire_field_def wire_default_def wire_get_def field_key_def dict_keys_def
        only_fields_def taxpayer_fields_def parse_liabilities_def)
qed

lemma parse_requestE:
  assumes "parse_request cv v = Inr r"
  obtains d tv t c m f where "v = JObj d" "parse_taxpayer cv tv = Inr t"
    "wire_field d (''correlationId'', ''correlation_id'') (\<lambda>x. Option.bind (plain_text (Some 128) x) correlation_id_shape) = Some c"
    "wire_default d (''modelId'', ''model_id'') DEFAULT_MODEL_ID (plain_text (Some 128)) = Some m"
    "wire_default d (''feature'', ''feature'') ''liability-estimate'' (plain_text (Some 64)) = Some f"
    "r = \<lparr>rq_correlation = c, rq_taxpayer = t, rq_model = m, rq_feature = f\<rparr>"
  using assms
  by (cases v; cases "wire_get (case v of JObj d \<Rightarrow> d) (''taxpayer'', ''taxpayer'')")
     (auto simp: parse_request_def invalid_def bind_res_eq_Inr split: if_splits)

lemma plain_text_eq: "plain_text hi v = Some t \<longleftrightarrow> v = JStr t \<and> 1 \<le> length t \<and> (\<forall>h. hi = Some h \<longrightarrow> length t \<le> h)"
  by (auto simp: plain_text_def text_of_eq)

lemma wire_default_plain:
  assumes "wire_default d f dflt (plain_text hi) = Some m" and "plain_text hi (JStr dflt) = Some dflt"
  shows "plain_text hi (JStr m) = Some m"
  using assms by (auto simp: wire_default_def plain_text_eq split: option.splits)

lemma request_back:
  assumes "conv_ok cv wt" and "parse_request cv v = Inr r"
  shows "parse_request cv (dump_request wt r) = Inr r"
proof -
  from parse_requestE [OF assms(2)] obtain d tv t c m f where p: "v = JObj d" "parse_taxpayer cv tv = Inr t"
    "wire_field d (''correlationId'', ''correlation_id'') (\<lambda>x. Option.bind (plain_text (Some 128) x) correlation_id_shape) = Some c"
    "wire_default d (''modelId'', ''model_id'') DEFAULT_MODEL_ID (plain_text (Some 128)) = Some m"
    "wire_default d (''feature'', ''feature'') ''liability-estimate'' (plain_text (Some 64)) = Some f"
    "r = \<lparr>rq_correlation = c, rq_taxpayer = t, rq_model = m, rq_feature = f\<rparr>" .
  have c: "plain_text (Some 128) (JStr c) = Some c" "correlation_id_shape c = Some c"
    using p(3) by (auto simp: wire_field_eq bind_eq_Some_conv correlation_id_shape_def plain_text_eq split: if_splits)
  have "plain_text (Some 128) (JStr m) = Some m" "plain_text (Some 64) (JStr f) = Some f"
    by (rule wire_default_plain [OF p(4)], simp add: plain_text_eq DEFAULT_MODEL_ID_def,
        rule wire_default_plain [OF p(5)], simp add: plain_text_eq)
  then show ?thesis unfolding p(6)
    using c taxpayer_back [OF assms(1) p(2)]
    by (simp add: parse_request_def dump_request_def wire_field_def wire_default_def wire_get_def field_key_def dict_keys_def only_fields_def)
qed

lemma request_wf:
  assumes "parse_request cv v = Inr r"
  shows "starts_with (rq_correlation r) ''corr-'' \<and> length (rq_correlation r) \<le> 128
    \<and> 1 \<le> length (rq_model r) \<and> length (rq_model r) \<le> 128 \<and> 1 \<le> length (rq_feature r) \<and> length (rq_feature r) \<le> 64
    \<and> (\<exists>tv. parse_taxpayer cv tv = Inr (rq_taxpayer r))"
proof -
  from parse_requestE [OF assms] obtain d tv t c m f where p: "v = JObj d" "parse_taxpayer cv tv = Inr t"
    "wire_field d (''correlationId'', ''correlation_id'') (\<lambda>x. Option.bind (plain_text (Some 128) x) correlation_id_shape) = Some c"
    "wire_default d (''modelId'', ''model_id'') DEFAULT_MODEL_ID (plain_text (Some 128)) = Some m"
    "wire_default d (''feature'', ''feature'') ''liability-estimate'' (plain_text (Some 64)) = Some f"
    "r = \<lparr>rq_correlation = c, rq_taxpayer = t, rq_model = m, rq_feature = f\<rparr>" .
  have "plain_text (Some 128) (JStr m) = Some m" "plain_text (Some 64) (JStr f) = Some f"
    by (rule wire_default_plain [OF p(4)], simp add: plain_text_eq DEFAULT_MODEL_ID_def,
        rule wire_default_plain [OF p(5)], simp add: plain_text_eq)
  then show ?thesis using p(2,3) unfolding p(6)
    by (auto simp: plain_text_eq wire_field_eq bind_eq_Some_conv correlation_id_shape_def split: if_splits)
qed

text \<open>
  The command line accepts a file exactly when it prints it, prints one document, and that document is
  a fixed point: validated again it is the same request, so running the command on its own output
  gives the same output.
\<close>

theorem cli_prints_valid_request:
  assumes "conv_ok cv wt" and "cli_main cv wt read js show [prog, path] = Inr (code, out)" and "out \<noteq> []"
    and "\<And>r. js (show (dump_request wt r)) = Some (dump_request wt r)" and "read' path' = Some (hd out)"
  shows "code = 0 \<and> (\<exists>raw v r. read path = Some raw \<and> js raw = Some v \<and> parse_request cv v = Inr r \<and> out = [show (dump_request wt r)])
    \<and> cli_main cv wt read' js show [prog, path'] = Inr (0, out)"
proof -
  obtain raw where raw: "read path = Some raw" using assms(2,3) by (cases "read path") (auto simp: cli_main_def)
  obtain v where v: "js raw = Some v" using assms(2,3) raw by (cases "js raw") (auto simp: cli_main_def invalid_def)
  obtain r where r: "parse_request cv v = Inr r" "code = 0" "out = [show (dump_request wt r)]"
    using assms(2,3) raw v by (auto simp: cli_main_def split: sum.splits exn.splits)
  have "cli_main cv wt read' js show [prog, path'] = Inr (0, out)"
    using assms(4,5) r(3) request_back [OF assms(1) r(1)] by (simp add: cli_main_def)
  then show ?thesis using raw v r by blast
qed

lemma strip_idem: "strip (strip s) = strip s"
proof (cases "strip s = []")
  case False
  define u where "u = dropWhile is_space s"
  define v where "v = dropWhile is_space (rev u)"
  have r: "strip s = rev v" by (simp add: strip_def u_def v_def)
  then have v: "v \<noteq> []" using False by simp
  have last: "\<not> is_space (hd v)" using v unfolding v_def by (rule hd_dropWhile)
  have "rev u = takeWhile is_space (rev u) @ v" by (simp add: v_def)
  then have u: "u = rev v @ rev (takeWhile is_space (rev u))" by (metis rev_append rev_rev_ident)
  then have "u \<noteq> []" "hd u = hd (rev v)" using v by (metis Nil_is_append_conv rev_is_Nil_conv, metis hd_append2 rev_is_Nil_conv)
  then have first: "\<not> is_space (hd (rev v))" using hd_dropWhile [of is_space s] unfolding u_def by metis
  have "dropWhile is_space (rev v) = rev v" "dropWhile is_space v = v"
    using first last v by (cases "rev v", simp_all, cases v, simp_all)
  then show ?thesis unfolding r by (simp add: strip_def)
next
  case True
  have "strip [] = []" by (simp add: strip_def)
  then show ?thesis using True by metis
qed

lemma dec_parse_limits: "dec_parse s = Some (DFin neg c e) \<Longrightarrow> dec_limits c e"
  by (auto simp: dec_parse_def dec_number_def dec_special_def Let_def split: prod.splits option.splits list.splits if_splits)

lemma demo_conv_ok: "conv_ok demo_cv (\<lambda>i. (if aware i then CHR ''z'' else CHR ''n'') # nat_str (nat (at_us i)))"
proof -
  have "demo_time (JStr ((if aware i then CHR ''z'' else CHR ''n'') # nat_str (nat (at_us i)))) = Some i"
    if "demo_time j = Some i" for j and i :: instant
  proof -
    have "0 \<le> at_us i" using that by (auto simp: demo_time_def split: json.splits list.splits if_splits)
    moreover have "list_all is_digit (nat_str (nat (at_us i)))" "nat_str (nat (at_us i)) \<noteq> []" by (rule nat_str_digits, rule nat_str_nonempty)
    ultimately show ?thesis by (cases i) (simp add: demo_time_def digits_val_nat_str)
  qed
  moreover have "(case j of JStr s \<Rightarrow> dec_parse s | JInt i \<Rightarrow> dec_parse (int_str i) | _ \<Rightarrow> None) = Some (DFin neg c e) \<Longrightarrow> dec_limits c e"
    for j neg c e by (cases j) (auto dest: dec_parse_limits)
  ultimately show ?thesis by (simp add: conv_ok_def demo_cv_def strip_idem)
qed

definition demo_document :: json where
  "demo_document = JObj [(''correlation_id'', JStr ''corr-1''), (''taxpayer'', demo_taxpayer ''z7'')]"

definition demo_write :: "instant \<Rightarrow> string" where
  "demo_write i = (if aware i then CHR ''z'' else CHR ''n'') # nat_str (nat (at_us i))"

definition demo_js :: "string \<Rightarrow> json option" where
  "demo_js s = (if s = [] then Some demo_document else case loads (\<lambda>r. r) s of Inr v \<Rightarrow> Some v | Inl x \<Rightarrow> None)"

lemma demo_js_reads: "demo_js (dumps (\<lambda>r. []) (dump_request demo_write r)) = Some (dump_request demo_write r)"
proof -
  have ls: "json_ok_elems (\<lambda>r. []) (\<lambda>r. r) (map (dump_liability demo_write) ls)" for ls
    by (induction ls) (auto simp: dump_liability_def dict_ok_def)
  have ts: "json_ok_elems (\<lambda>r. []) (\<lambda>r. r) (map JStr ts)" for ts by (induction ts) auto
  have "json_ok (\<lambda>r. []) (\<lambda>r. r) (dump_request demo_write r)" by (simp add: dump_request_def dump_taxpayer_def ls ts dict_ok_def)
  from loads_dumps [OF this] show ?thesis
    by (simp add: demo_js_def) (simp add: dump_request_def)
qed

theorem cli_prints_valid_request_witness:
  "\<exists>out. cli_main demo_cv demo_write (\<lambda>p. Some []) demo_js (dumps (\<lambda>r. [])) [''cli'', ''a''] = Inr (0, [out])
     \<and> cli_main demo_cv demo_write (\<lambda>p. Some out) demo_js (dumps (\<lambda>r. [])) [''cli'', ''b''] = Inr (0, [out])"
proof -
  have "case parse_request demo_cv demo_document of Inl x \<Rightarrow> False | Inr r \<Rightarrow> True" by code_simp
  then obtain r where r: "parse_request demo_cv demo_document = Inr r" by (auto split: sum.splits)
  then have c: "cli_main demo_cv demo_write (\<lambda>p. Some []) demo_js (dumps (\<lambda>r. [])) [''cli'', ''a''] = Inr (0, [dumps (\<lambda>r. []) (dump_request demo_write r)])"
    by (simp add: cli_main_def demo_js_def)
  have ok: "conv_ok demo_cv demo_write" using demo_conv_ok by (simp add: demo_write_def [abs_def])
  from cli_prints_valid_request [OF ok c, of "\<lambda>p. Some (dumps (\<lambda>r. []) (dump_request demo_write r))" "''b''"]
  show ?thesis using c demo_js_reads by auto
qed

text \<open>
  A time without a zone beside one with a zone is accepted field by field, and comparing the two raises
  what is no validation error: it leaves the command line as an exception.
\<close>

lemma mixed_zones_escape:
  "parse_taxpayer demo_cv (demo_taxpayer ''n7'') = Inl (TypeError ''offset-naive and offset-aware'')
   \<and> cli_main demo_cv demo_write (\<lambda>p. Some []) (\<lambda>s. Some (JObj [(''correlation_id'', JStr ''corr-1''), (''taxpayer'', demo_taxpayer ''n7'')]))
        (\<lambda>v. []) [''cli'', ''a''] = Inl (TypeError ''offset-naive and offset-aware'')"
  by code_simp

end
