(* ===== verification/LlmClient.thy ===== *)
theory LlmClient
  imports TaxModels
begin

text \<open>
  \<open>taxcalc_ai/client.py\<close> with \<open>value_types.py\<close>, \<open>settings.py\<close> and \<open>metrics.py\<close>: one estimate is a
  prompt, a POST that is repeated while it fails transiently, the checks of the reply, and the
  envelope. The network is a function of the number of the attempt; the JSON reader and writer, the
  hash and the text of an exception are arguments. Waiting between attempts is left out.
\<close>

section \<open>Settings and values\<close>

(* src/taxcalc-ai/src/taxcalc_ai/settings.py:37-85 TaxcalcAiSettings *)
record ai_settings =
  proxy_api_key :: string
  proxy_timeout_seconds :: rat
  proxy_max_retries :: int
  ai_model_id :: string
  ai_tenant :: string
  ai_log_level :: string
  ai_langsmith_project :: string
  ai_pg_dsn :: "string option"

(* src/taxcalc-ai/src/taxcalc_ai/settings.py:53-59 field bounds of TaxcalcAiSettings *)
definition ai_settings_ok :: "ai_settings \<Rightarrow> bool" where
  "ai_settings_ok s \<longleftrightarrow> 1 \<le> proxy_timeout_seconds s \<and> proxy_timeout_seconds s \<le> 300
     \<and> 0 \<le> proxy_max_retries s \<and> proxy_max_retries s \<le> 10
     \<and> 1 \<le> length (ai_model_id s) \<and> length (ai_model_id s) \<le> 128 \<and> 1 \<le> length (ai_tenant s) \<and> length (ai_tenant s) \<le> 64
     \<and> ai_log_level s \<in> {''DEBUG'', ''INFO'', ''WARN'', ''ERROR''}
     \<and> 1 \<le> length (ai_langsmith_project s) \<and> length (ai_langsmith_project s) \<le> 128 \<and> ai_pg_dsn s \<noteq> Some []"

(* src/taxcalc-ai/src/taxcalc_ai/value_types.py:24-41 ProxyCallKey *)
record call_key =
  ck_correlation :: string
  ck_model :: string
  ck_hash :: string

(* src/taxcalc-ai/src/taxcalc_ai/value_types.py:37-41 ProxyCallKey.__post_init__ *)
definition mk_call_key :: "string \<Rightarrow> string \<Rightarrow> string \<Rightarrow> call_key res" where
  "mk_call_key c m h = (if c = [] \<or> m = [] \<or> h = [] then Inl (ValueError ''must not be empty'')
     else Inr \<lparr>ck_correlation = c, ck_model = m, ck_hash = h\<rparr>)"

(* src/taxcalc-ai/src/taxcalc_ai/value_types.py:44-72 CorrelationContext *)
record call_context =
  cc_correlation :: string
  cc_tenant :: string
  cc_started :: instant
  cc_tags :: "string list"

(* src/taxcalc-ai/src/taxcalc_ai/value_types.py:59-72 CorrelationContext.as_log_fields *)
definition as_log_fields :: "(instant \<Rightarrow> string) \<Rightarrow> call_context \<Rightarrow> jdict" where
  "as_log_fields isof c =
     (let fields = [(''correlation_id'', JStr (cc_correlation c)), (''tenant_id'', JStr (cc_tenant c)), (''started_at'', JStr (isof (cc_started c)))]
      in if cc_tags c \<noteq> [] then dict_set ''tags'' (JStr (join '','' (cc_tags c))) fields else fields)"

section \<open>Metrics\<close>

record rerank_counters =
  rerank_timeouts :: nat
  rerank_requests :: nat

(* src/taxcalc-ai/src/taxcalc_ai/metrics.py:77-88 record_rerank *)
definition record_rerank :: "bool \<Rightarrow> rerank_counters \<Rightarrow> rerank_counters" where
  "record_rerank timed_out c =
     (let c1 = c\<lparr>rerank_requests := rerank_requests c + 1\<rparr>
      in if timed_out then c1\<lparr>rerank_timeouts := rerank_timeouts c1 + 1\<rparr> else c1)"

section \<open>One attempt\<close>

(* src/taxcalc-ai/src/taxcalc_ai/client.py:56-57 COMPLETIONS_PATH *)
definition COMPLETIONS_PATH :: string where "COMPLETIONS_PATH = ''/v1/completions''"

(* src/taxcalc-ai/src/taxcalc_ai/client.py:59-61 CORRELATION_HEADER *)
definition CORRELATION_HEADER :: string where "CORRELATION_HEADER = ''x-correlation-id''"

(* src/taxcalc-ai/src/taxcalc_ai/client.py:63-64 COST_HEADER *)
definition COST_HEADER :: string where "COST_HEADER = ''x-cost-usd''"

(* src/taxcalc-ai/src/taxcalc_ai/client.py:66-66 _HTTP_SERVER_ERROR *)
definition HTTP_SERVER_ERROR :: int where "HTTP_SERVER_ERROR = 500"

record proxy_reply =
  pr_status :: int
  pr_headers :: "(string, string) dict"
  pr_body :: string

text \<open>The exceptions of one attempt, by the classes the retry predicate tells apart.\<close>

datatype proxy_error = TimeoutException | NetworkError | HTTPStatusError int | OtherProxyError string

record proxy_post =
  pp_url :: string
  pp_json :: json
  pp_headers :: "(string, string) dict"

(* src/taxcalc-ai/src/taxcalc_ai/client.py:166-177 _is_transient *)
definition is_transient :: "proxy_error \<Rightarrow> bool" where
  "is_transient e = (case e of
     TimeoutException \<Rightarrow> True
   | NetworkError \<Rightarrow> True
   | HTTPStatusError code \<Rightarrow> HTTP_SERVER_ERROR \<le> code
   | OtherProxyError m \<Rightarrow> False)"

text \<open>\<open>raise_for_status\<close> lets a 2xx pass.\<close>

definition raise_for_status :: "proxy_reply \<Rightarrow> proxy_error + proxy_reply" where
  "raise_for_status r = (if 200 \<le> pr_status r \<and> pr_status r \<le> 299 then Inr r else Inl (HTTPStatusError (pr_status r)))"

definition wire_body :: "completion_request \<Rightarrow> json" where
  "wire_body w = JObj [(''prompt'', JStr (cq_prompt w)), (''model'', JStr (cq_model w)), (''feature'', JStr (cq_feature w))]"

(* src/taxcalc-ai/src/taxcalc_ai/client.py:297-319 body of LlmProxyClient._post *)
definition post_request :: "ai_settings \<Rightarrow> completion_request \<Rightarrow> call_context \<Rightarrow> proxy_post" where
  "post_request s w c = \<lparr>pp_url = COMPLETIONS_PATH, pp_json = wire_body w,
     pp_headers = [(CORRELATION_HEADER, cc_correlation c), (''authorization'', ''Bearer '' @ proxy_api_key s)]\<rparr>"

(* src/taxcalc-ai/src/taxcalc_ai/client.py:144-163 _log_retry *)
definition log_retry :: "(instant \<Rightarrow> string) \<Rightarrow> (proxy_error \<Rightarrow> string) \<Rightarrow> call_context \<Rightarrow> nat \<Rightarrow> proxy_error \<Rightarrow> jdict" where
  "log_retry isof rp c attempt e = dict_merge
     [(''event'', JStr ''proxy.call.retry''), (''attempt'', JInt (int attempt)), (''reason'', JStr (rp e))] (as_log_fields isof c)"

text \<open>
  The retry policy: the first attempt is always made; a failure that is not transient, or the attempt
  with the number of the limit or above it, is raised as it is; otherwise a line is logged and the next
  attempt follows. \<open>k\<close> is the number of the attempt.
\<close>

record retry_trace =
  rt_attempts :: nat
  rt_lines :: "jdict list"

(* src/taxcalc-ai/src/taxcalc_ai/client.py:290-296 retry policy of LlmProxyClient._post *)
function post_attempts ::
  "(nat \<Rightarrow> proxy_error \<Rightarrow> jdict) \<Rightarrow> (nat \<Rightarrow> proxy_error + proxy_reply) \<Rightarrow> int \<Rightarrow> nat \<Rightarrow> (proxy_error + proxy_reply) \<times> retry_trace" where
  "post_attempts line net limit k =
     (case net k of
        Inr r \<Rightarrow> (Inr r, \<lparr>rt_attempts = k, rt_lines = []\<rparr>)
      | Inl e \<Rightarrow>
          (if \<not> is_transient e \<or> limit \<le> int k then (Inl e, \<lparr>rt_attempts = k, rt_lines = []\<rparr>)
           else let (r, t) = post_attempts line net limit (k + 1)
                in (r, t\<lparr>rt_lines := line k e # rt_lines t\<rparr>)))"
  by pat_completeness auto

termination by (relation "measure (\<lambda>(line, net, limit, k). nat (limit - int k))") auto

declare post_attempts.simps [simp del]

section \<open>The log\<close>

(* src/taxcalc-ai/src/taxcalc_ai/client.py:68-96 _STANDARD_RECORD_FIELDS *)
definition STANDARD_RECORD_FIELDS :: "string list" where
  "STANDARD_RECORD_FIELDS = [''args'', ''asctime'', ''created'', ''exc_info'', ''exc_text'', ''filename'', ''funcName'', ''levelname'',
     ''levelno'', ''lineno'', ''message'', ''module'', ''msecs'', ''msg'', ''name'', ''pathname'', ''process'', ''processName'',
     ''relativeCreated'', ''stack_info'', ''taskName'', ''thread'', ''threadName'']"

record log_record =
  lr_time :: string
  lr_level :: string
  lr_logger :: string
  lr_message :: string
  lr_extra :: jdict
  lr_exception :: "string option"

(* src/taxcalc-ai/src/taxcalc_ai/client.py:107-120 JsonLogFormatter.format *)
definition format_payload :: "log_record \<Rightarrow> jdict" where
  "format_payload r =
     (let payload = [(''timestamp'', JStr (lr_time r)), (''level'', JStr (lr_level r)), (''logger'', JStr (lr_logger r)), (''message'', JStr (lr_message r))];
          payload = fold (\<lambda>(k, v) p. if k \<notin> set STANDARD_RECORD_FIELDS \<and> \<not> starts_with k ''_'' then dict_set k v p else p) (lr_extra r) payload
      in (case lr_exception r of None \<Rightarrow> payload | Some x \<Rightarrow> dict_set ''exception'' (JStr x) payload))"

section \<open>An estimate\<close>

record estimate_env =
  ee_settings :: ai_settings
  ee_cv :: wire_conv
  ee_js :: "string \<Rightarrow> json option"
  ee_write :: "json \<Rightarrow> string"
  ee_time :: "instant \<Rightarrow> string"
  ee_iso :: "instant \<Rightarrow> string"
  ee_now :: instant
  ee_sha :: "string \<Rightarrow> string"
  ee_repr :: "proxy_error \<Rightarrow> string"
  ee_net :: "nat \<Rightarrow> proxy_post \<Rightarrow> proxy_error + proxy_reply"

(* src/taxcalc-ai/src/taxcalc_ai/client.py:349-365 _build_prompt *)
definition build_estimate_prompt :: "estimate_env \<Rightarrow> taxpayer \<Rightarrow> string" where
  "build_estimate_prompt e t =
     ''You are a tax liability estimator. Given the taxpayer record below, respond with a ''
     @ ''single JSON object and nothing else, with exactly these keys: ''
     @ [CHR 0x22] @ ''label'' @ [CHR 0x22] @ '' (short category string), '' @ [CHR 0x22] @ ''confidence'' @ [CHR 0x22] @ '' (number between 0 and 1), ''
     @ [CHR 0x22] @ ''rationale'' @ [CHR 0x22] @ '' (one or two sentences), '' @ [CHR 0x22] @ ''estimatedLiability'' @ [CHR 0x22] @ '' (decimal string, 2 places). ''
     @ ''Taxpayer record: '' @ ee_write e (dump_taxpayer (ee_time e) t)"

text \<open>\<open>model_validate_json\<close>: text that is no JSON is a validation error too.\<close>

definition validate_json :: "estimate_env \<Rightarrow> (wire_conv \<Rightarrow> json \<Rightarrow> 'a res) \<Rightarrow> string \<Rightarrow> 'a res" where
  "validate_json e parse s = (case ee_js e s of None \<Rightarrow> invalid ''json'' | Some v \<Rightarrow> parse (ee_cv e) v)"

(* src/taxcalc-ai/src/taxcalc_ai/client.py:321-346 LlmProxyClient._read_completion *)
definition read_completion :: "estimate_env \<Rightarrow> proxy_reply \<Rightarrow> call_context \<Rightarrow> completion_response res \<times> jdict list" where
  "read_completion e r c = (case dict_get (pr_headers r) CORRELATION_HEADER of
     Some echoed \<Rightarrow>
       (if echoed \<noteq> cc_correlation c
        then (Inl (ValueError ''proxy echoed correlation id''),
              [dict_merge [(''event'', JStr ''proxy.call.correlation_mismatch''), (''echoed_correlation_id'', JStr echoed)] (as_log_fields (ee_iso e) c)])
        else (validate_json e parse_completion_response (pr_body r), []))
   | None \<Rightarrow> (validate_json e parse_completion_response (pr_body r), []))"

definition proxy_exn :: "proxy_error \<Rightarrow> exn" where
  "proxy_exn x = (case x of TimeoutException \<Rightarrow> OtherError ''TimeoutException'' [] | NetworkError \<Rightarrow> OtherError ''NetworkError'' []
     | HTTPStatusError code \<Rightarrow> OtherError ''HTTPStatusError'' (int_str code) | OtherProxyError m \<Rightarrow> OtherError m [])"

record estimate_trace =
  et_posts :: "proxy_post list"
  et_lines :: "jdict list"

text \<open>What happens once to the reply: the checks, the line, the envelope.\<close>

(* src/taxcalc-ai/src/taxcalc_ai/client.py:263-288 reply of LlmProxyClient.estimate *)
definition settle :: "estimate_env \<Rightarrow> estimate_request \<Rightarrow> call_context \<Rightarrow> proxy_reply \<Rightarrow> estimate_result res \<times> jdict list" where
  "settle e rq c resp = (case read_completion e resp c of
     (Inl x, ls) \<Rightarrow> (Inl x, ls)
   | (Inr cp, ls) \<Rightarrow>
      (case validate_json e parse_estimate_completion (cp_text cp) of
         Inl x \<Rightarrow> (Inl x, ls)
       | Inr ec \<Rightarrow>
          (let ok = dict_merge [(''event'', JStr ''proxy.call.ok''), (''resolved_model'', JStr (cp_resolved cp)),
                       (''input_tokens'', JInt (cp_input cp)), (''output_tokens'', JInt (cp_output cp)),
                       (''cost_usd'', case dict_get (pr_headers resp) COST_HEADER of None \<Rightarrow> JNull | Some h \<Rightarrow> JStr h),
                       (''label'', JStr (ec_label ec)), (''confidence'', JFloat (ec_confidence ec))] (as_log_fields (ee_iso e) c)
           in (mk_estimate_result \<lparr>rs_correlation = rq_correlation rq, rs_taxpayer = tp_id (rq_taxpayer rq), rs_label = ec_label ec,
                 rs_confidence = ec_confidence ec, rs_rationale = ec_rationale ec, rs_estimate = ec_estimate ec,
                 rs_model = cp_resolved cp\<rparr>, ls @ [ok]))))"

(* src/taxcalc-ai/src/taxcalc_ai/client.py:214-288 LlmProxyClient.estimate *)
definition estimate :: "estimate_env \<Rightarrow> estimate_request \<Rightarrow> estimate_result res \<times> estimate_trace" where
  "estimate e rq =
     (let s = ee_settings e;
          c = \<lparr>cc_correlation = rq_correlation rq, cc_tenant = ai_tenant s, cc_started = ee_now e, cc_tags = [rq_feature rq]\<rparr>;
          prompt = build_estimate_prompt e (rq_taxpayer rq)
      in case bind_res (mk_call_key (rq_correlation rq) (rq_model rq) (take 16 (ee_sha e prompt))) (\<lambda>key.
              bind_res (mk_completion_request prompt (rq_model rq) (rq_feature rq)) (\<lambda>w. Inr (key, w))) of
        Inl x \<Rightarrow> (Inl x, \<lparr>et_posts = [], et_lines = []\<rparr>)
      | Inr (key, w) \<Rightarrow>
         (let start = dict_merge [(''event'', JStr ''proxy.call.start''), (''model_id'', JStr (ck_model key)), (''prompt_hash'', JStr (ck_hash key))]
                        (as_log_fields (ee_iso e) c);
              post = post_request s w c;
              (r, t) = post_attempts (log_retry (ee_iso e) (ee_repr e) c) (\<lambda>k. case ee_net e k post of Inl x \<Rightarrow> Inl x | Inr y \<Rightarrow> raise_for_status y)
                         (proxy_max_retries s) 1;
              (q, ls) = (case r of Inl x \<Rightarrow> (Inl (proxy_exn x), []) | Inr resp \<Rightarrow> settle e rq c resp)
          in (q, \<lparr>et_posts = replicate (rt_attempts t) post, et_lines = start # rt_lines t @ ls\<rparr>)))"

section \<open>The retry policy\<close>

text \<open>An attempt ends the loop when it succeeds or fails for good.\<close>

definition final :: "(proxy_error + proxy_reply) \<Rightarrow> bool" where
  "final r = (case r of Inl e \<Rightarrow> \<not> is_transient e | Inr y \<Rightarrow> True)"

lemma post_attempts_step:
  "post_attempts line net limit k =
     (if final (net k) \<or> limit \<le> int k then (net k, \<lparr>rt_attempts = k, rt_lines = []\<rparr>)
      else (fst (post_attempts line net limit (k + 1)),
            (snd (post_attempts line net limit (k + 1)))\<lparr>rt_lines := line k (projl (net k)) # rt_lines (snd (post_attempts line net limit (k + 1)))\<rparr>))"
  by (subst post_attempts.simps) (auto simp: final_def Let_def split: sum.split prod.split)

lemma post_attempts_spec:
  "k \<le> rt_attempts (snd (post_attempts line net limit k)) \<and> int (rt_attempts (snd (post_attempts line net limit k))) \<le> max (int k) limit
   \<and> fst (post_attempts line net limit k) = net (rt_attempts (snd (post_attempts line net limit k)))
   \<and> (\<forall>i. k \<le> i \<and> i < rt_attempts (snd (post_attempts line net limit k)) \<longrightarrow> \<not> final (net i))
   \<and> (final (net (rt_attempts (snd (post_attempts line net limit k)))) \<or> limit \<le> int (rt_attempts (snd (post_attempts line net limit k))))
   \<and> rt_lines (snd (post_attempts line net limit k)) = map (\<lambda>i. line i (projl (net i))) [k ..< rt_attempts (snd (post_attempts line net limit k))]"
proof (induction line net limit k rule: post_attempts.induct)
  case (1 line net limit k)
  show ?case
  proof (cases "final (net k) \<or> limit \<le> int k")
    case True
    then have step: "post_attempts line net limit k = (net k, \<lparr>rt_attempts = k, rt_lines = []\<rparr>)"
      using post_attempts_step [of line net limit k] by simp
    show ?thesis unfolding step using True by auto
  next
    case False
    then obtain e where e: "net k = Inl e" "is_transient e" by (auto simp: final_def split: sum.splits)
    let ?r = "post_attempts line net limit (k + 1)"
    have ih: "k + 1 \<le> rt_attempts (snd ?r)" "int (rt_attempts (snd ?r)) \<le> max (int (k + 1)) limit"
      "fst ?r = net (rt_attempts (snd ?r))" "\<forall>i. k + 1 \<le> i \<and> i < rt_attempts (snd ?r) \<longrightarrow> \<not> final (net i)"
      "final (net (rt_attempts (snd ?r))) \<or> limit \<le> int (rt_attempts (snd ?r))"
      "rt_lines (snd ?r) = map (\<lambda>i. line i (projl (net i))) [k + 1 ..< rt_attempts (snd ?r)]"
      using 1 [OF e(1)] e(2) False by auto
    have step: "post_attempts line net limit k = (fst ?r, (snd ?r)\<lparr>rt_lines := line k (projl (net k)) # rt_lines (snd ?r)\<rparr>)"
      using post_attempts_step [of line net limit k] False by simp
    have "\<not> final (net i)" if "k \<le> i" "i < rt_attempts (snd ?r)" for i
      using that ih(4) False by (cases "i = k") auto
    moreover have "[k ..< rt_attempts (snd ?r)] = k # [k + 1 ..< rt_attempts (snd ?r)]"
      using ih(1) by (simp add: upt_conv_Cons)
    ultimately show ?thesis unfolding step using ih False by simp
  qed
qed

lemma filter_upt_first:
  assumes "k \<le> m" and "m < n" and "p m" and "\<And>i. k \<le> i \<Longrightarrow> i < m \<Longrightarrow> \<not> p i"
  shows "\<exists>xs. filter p [k ..< n] = m # xs"
proof -
  have "[k ..< n] = [k ..< m] @ m # [Suc m ..< n]"
    using assms(1,2) by (metis le_add_diff_inverse less_imp_le_nat upt_add_eq_append upt_conv_Cons)
  moreover have "filter p [k ..< m] = []" using assms(4) by (auto simp: filter_empty_conv)
  ultimately show ?thesis using assms(3) by simp
qed

text \<open>
  The retry loop ends for every network and every limit. It makes the first attempt always and stops at
  the first one that succeeds or fails for good, or at the limit; what it returns is what that attempt
  returned, and each attempt before it failed transiently and left one line. A limit of zero is the
  limit of one: the setting counts attempts.
\<close>

theorem retry_stops_at_first_final:
  "post_attempts line net limit 1 =
     (let n = nat (max 1 limit);
          m = (case filter (\<lambda>i. final (net i)) [1 ..< n + 1] of [] \<Rightarrow> n | i # _ \<Rightarrow> i)
      in (net m, \<lparr>rt_attempts = m, rt_lines = map (\<lambda>i. line i (projl (net i))) [1 ..< m]\<rparr>))"
proof -
  let ?r = "post_attempts line net limit 1"
  let ?m = "rt_attempts (snd ?r)"
  let ?n = "nat (max 1 limit)"
  from post_attempts_spec [of 1 line net limit] have sp: "1 \<le> ?m" "int ?m \<le> max 1 limit" "fst ?r = net ?m"
    "\<forall>i. 1 \<le> i \<and> i < ?m \<longrightarrow> \<not> final (net i)" "final (net ?m) \<or> limit \<le> int ?m"
    "rt_lines (snd ?r) = map (\<lambda>i. line i (projl (net i))) [1 ..< ?m]" by auto
  have m: "?m = (case filter (\<lambda>i. final (net i)) [1 ..< ?n + 1] of [] \<Rightarrow> ?n | i # _ \<Rightarrow> i)"
  proof (cases "final (net ?m)")
    case True
    have "\<exists>xs. filter (\<lambda>i. final (net i)) [1 ..< ?n + 1] = ?m # xs"
      using sp True by (intro filter_upt_first) auto
    then show ?thesis by auto
  next
    case False
    then have "?m = ?n" using sp by auto
    moreover have "filter (\<lambda>i. final (net i)) [1 ..< ?n + 1] = []"
      using sp(4) False calculation by (auto simp: filter_empty_conv less_Suc_eq)
    ultimately show ?thesis by simp
  qed
  have "?r = (net ?m, \<lparr>rt_attempts = ?m, rt_lines = map (\<lambda>i. line i (projl (net i))) [1 ..< ?m]\<rparr>)"
    using sp(3,6) by (intro prod_eqI retry_trace.equality) simp_all
  then show ?thesis unfolding Let_def m [symmetric] .
qed

section \<open>What an estimate is\<close>

text \<open>A line of a call: fields of its own, then those of the context.\<close>

definition line_of :: "(instant \<Rightarrow> string) \<Rightarrow> call_context \<Rightarrow> jdict \<Rightarrow> bool" where
  "line_of w c l \<longleftrightarrow> dict_get l ''correlation_id'' = Some (JStr (cc_correlation c)) \<and> dict_get l ''tenant_id'' = Some (JStr (cc_tenant c))
     \<and> dict_get l ''event'' \<noteq> None \<and> dict_ok l \<and> {''timestamp'', ''exception''} \<inter> set (dict_keys l) = {}"

lemma line_of_start: "line_of w c (dict_merge [(''event'', a), (''model_id'', b), (''prompt_hash'', d)] (as_log_fields w c))"
  by (cases "cc_tags c = []") (simp_all add: line_of_def dict_merge_def as_log_fields_def dict_set_simps dict_ok_def dict_keys_def)

lemma line_of_retry: "line_of w c (log_retry w rp c k x)"
  by (cases "cc_tags c = []") (simp_all add: log_retry_def line_of_def dict_merge_def as_log_fields_def dict_set_simps dict_ok_def dict_keys_def)

lemma line_of_mismatch: "line_of w c (dict_merge [(''event'', a), (''echoed_correlation_id'', b)] (as_log_fields w c))"
  by (cases "cc_tags c = []") (simp_all add: line_of_def dict_merge_def as_log_fields_def dict_set_simps dict_ok_def dict_keys_def)

lemma line_of_done: "line_of w c (dict_merge [(''event'', a), (''resolved_model'', b), (''input_tokens'', d), (''output_tokens'', f),
    (''cost_usd'', g), (''label'', h), (''confidence'', i)] (as_log_fields w c))"
  by (cases "cc_tags c = []") (simp_all add: line_of_def dict_merge_def as_log_fields_def dict_set_simps dict_ok_def dict_keys_def)

lemma read_completion_lines: "l \<in> set (snd (read_completion e resp c)) \<Longrightarrow> line_of (ee_iso e) c l"
  using line_of_mismatch by (auto simp: read_completion_def split: option.splits if_splits)

lemma settle_lines: "l \<in> set (snd (settle e rq c resp)) \<Longrightarrow> line_of (ee_iso e) c l"
  using read_completion_lines [of l e resp c] line_of_done
  by (auto simp: settle_def Let_def split: prod.splits sum.splits)

lemma settle_result:
  assumes "fst (settle e rq c resp) = Inr a"
  shows "dict_get (pr_headers resp) CORRELATION_HEADER \<in> {None, Some (cc_correlation c)}
    \<and> rs_correlation a = rq_correlation rq \<and> rs_taxpayer a = tp_id (rq_taxpayer rq) \<and> result_fields_ok a
    \<and> (HIGH_CONFIDENCE \<le> rs_confidence a \<longrightarrow> MIN_RATIONALE_CHARS \<le> length (rs_rationale a))
    \<and> (\<exists>cp ec. validate_json e parse_completion_response (pr_body resp) = Inr cp
         \<and> validate_json e parse_estimate_completion (cp_text cp) = Inr ec \<and> rs_estimate a = ec_estimate ec \<and> rs_model a = cp_resolved cp)"
proof -
  obtain cp ls where cp: "read_completion e resp c = (Inr cp, ls)"
    using assms by (cases "read_completion e resp c"; cases "fst (read_completion e resp c)") (auto simp: settle_def)
  obtain ec where ec: "validate_json e parse_estimate_completion (cp_text cp) = Inr ec"
    using assms cp by (cases "validate_json e parse_estimate_completion (cp_text cp)") (auto simp: settle_def)
  have "mk_estimate_result \<lparr>rs_correlation = rq_correlation rq, rs_taxpayer = tp_id (rq_taxpayer rq), rs_label = ec_label ec,
      rs_confidence = ec_confidence ec, rs_rationale = ec_rationale ec, rs_estimate = ec_estimate ec, rs_model = cp_resolved cp\<rparr> = Inr a"
    using assms cp ec by (simp add: settle_def Let_def)
  then have a: "a = \<lparr>rs_correlation = rq_correlation rq, rs_taxpayer = tp_id (rq_taxpayer rq), rs_label = ec_label ec,
      rs_confidence = ec_confidence ec, rs_rationale = ec_rationale ec, rs_estimate = ec_estimate ec, rs_model = cp_resolved cp\<rparr>"
    "result_fields_ok a" "HIGH_CONFIDENCE \<le> rs_confidence a \<longrightarrow> MIN_RATIONALE_CHARS \<le> length (rs_rationale a)"
    by (auto simp: mk_estimate_result_def high_confidence_requires_rationale_def invalid_def split: if_splits)
  have "dict_get (pr_headers resp) CORRELATION_HEADER \<in> {None, Some (cc_correlation c)}"
    "validate_json e parse_completion_response (pr_body resp) = Inr cp"
    using cp by (auto simp: read_completion_def split: option.splits if_splits)
  then show ?thesis using a ec by auto
qed

definition context_of :: "estimate_env \<Rightarrow> estimate_request \<Rightarrow> call_context" where
  "context_of e rq = \<lparr>cc_correlation = rq_correlation rq, cc_tenant = ai_tenant (ee_settings e), cc_started = ee_now e, cc_tags = [rq_feature rq]\<rparr>"

lemma estimateE:
  assumes "estimate e rq = (r, tr)"
  obtains (early) x where "r = Inl x" "tr = \<lparr>et_posts = [], et_lines = []\<rparr>"
  | (run) w start t x where "fst (post_attempts (log_retry (ee_iso e) (ee_repr e) (context_of e rq))
          (\<lambda>k. case ee_net e k (post_request (ee_settings e) w (context_of e rq)) of Inl x \<Rightarrow> Inl x | Inr y \<Rightarrow> raise_for_status y)
          (proxy_max_retries (ee_settings e)) 1) = Inl x" "snd (post_attempts (log_retry (ee_iso e) (ee_repr e) (context_of e rq))
          (\<lambda>k. case ee_net e k (post_request (ee_settings e) w (context_of e rq)) of Inl x \<Rightarrow> Inl x | Inr y \<Rightarrow> raise_for_status y)
          (proxy_max_retries (ee_settings e)) 1) = t" "line_of (ee_iso e) (context_of e rq) start"
      "r = Inl (proxy_exn x)" "tr = \<lparr>et_posts = replicate (rt_attempts t) (post_request (ee_settings e) w (context_of e rq)), et_lines = start # rt_lines t\<rparr>"
  | (reply) w start t resp where "fst (post_attempts (log_retry (ee_iso e) (ee_repr e) (context_of e rq))
          (\<lambda>k. case ee_net e k (post_request (ee_settings e) w (context_of e rq)) of Inl x \<Rightarrow> Inl x | Inr y \<Rightarrow> raise_for_status y)
          (proxy_max_retries (ee_settings e)) 1) = Inr resp" "snd (post_attempts (log_retry (ee_iso e) (ee_repr e) (context_of e rq))
          (\<lambda>k. case ee_net e k (post_request (ee_settings e) w (context_of e rq)) of Inl x \<Rightarrow> Inl x | Inr y \<Rightarrow> raise_for_status y)
          (proxy_max_retries (ee_settings e)) 1) = t" "line_of (ee_iso e) (context_of e rq) start"
      "r = fst (settle e rq (context_of e rq) resp)"
      "tr = \<lparr>et_posts = replicate (rt_attempts t) (post_request (ee_settings e) w (context_of e rq)),
        et_lines = start # rt_lines t @ snd (settle e rq (context_of e rq) resp)\<rparr>"
proof -
  let ?s = "ee_settings e" let ?c = "context_of e rq"
  let ?prompt = "build_estimate_prompt e (rq_taxpayer rq)"
  let ?pre = "bind_res (mk_call_key (rq_correlation rq) (rq_model rq) (take 16 (ee_sha e ?prompt))) (\<lambda>key.
              bind_res (mk_completion_request ?prompt (rq_model rq) (rq_feature rq)) (\<lambda>w. Inr (key, w)))"
  show thesis
  proof (cases ?pre)
    case (Inl x)
    then have "r = Inl x" "tr = \<lparr>et_posts = [], et_lines = []\<rparr>" using assms by (auto simp: estimate_def Let_def)
    then show thesis by (rule early)
  next
    case (Inr p)
    obtain key w where p: "p = (key, w)" by (cases p)
    let ?start = "dict_merge [(''event'', JStr ''proxy.call.start''), (''model_id'', JStr (ck_model key)), (''prompt_hash'', JStr (ck_hash key))]
                        (as_log_fields (ee_iso e) ?c)"
    let ?run = "post_attempts (log_retry (ee_iso e) (ee_repr e) ?c)
          (\<lambda>k. case ee_net e k (post_request ?s w ?c) of Inl x \<Rightarrow> Inl x | Inr y \<Rightarrow> raise_for_status y) (proxy_max_retries ?s) 1"
    have st: "line_of (ee_iso e) ?c ?start" by (rule line_of_start)
    show thesis
    proof (cases "fst ?run")
      case (Inl x)
      then have "r = Inl (proxy_exn x)" "tr = \<lparr>et_posts = replicate (rt_attempts (snd ?run)) (post_request ?s w ?c), et_lines = ?start # rt_lines (snd ?run)\<rparr>"
        using assms Inr p by (auto simp: estimate_def Let_def context_of_def split: prod.splits)
      then show thesis using run [OF Inl refl st] by blast
    next
      case (Inr resp)
      then have "r = fst (settle e rq ?c resp)" "tr = \<lparr>et_posts = replicate (rt_attempts (snd ?run)) (post_request ?s w ?c),
          et_lines = ?start # rt_lines (snd ?run) @ snd (settle e rq ?c resp)\<rparr>"
        using assms \<open>?pre = Inr p\<close> p by (auto simp: estimate_def Let_def context_of_def split: prod.splits)
      then show thesis using reply [OF Inr refl st] by blast
    qed
  qed
qed


section \<open>A concrete estimate\<close>

definition demo_ai :: ai_settings where
  "demo_ai = \<lparr>proxy_api_key = ''key'', proxy_timeout_seconds = 30, proxy_max_retries = 3, ai_model_id = DEFAULT_MODEL_ID, ai_tenant = ''shared'',
     ai_log_level = ''INFO'', ai_langsmith_project = ''p'', ai_pg_dsn = None\<rparr>"

definition demo_estimate_js :: "string \<Rightarrow> json option" where
  "demo_estimate_js s =
     (if s = ''R'' then Some (JObj [(''model'', JStr ''m''), (''resolvedModel'', JStr ''m-1''), (''feature'', JStr ''f''),
        (''inputTokens'', JInt 7), (''outputTokens'', JInt 2), (''text'', JStr ''C'')])
      else if s = ''C'' then Some (JObj [(''label'', JStr ''low''), (''confidence'', JFloat (1 / 2)), (''rationale'', JStr ''why''),
        (''estimatedLiability'', JStr ''1.50'')])
      else None)"

definition demo_estimate :: estimate_env where
  "demo_estimate = \<lparr>ee_settings = demo_ai, ee_cv = demo_cv, ee_js = demo_estimate_js, ee_write = (\<lambda>v. ''r''), ee_time = demo_write, ee_iso = demo_write,
     ee_now = \<lparr>aware = True, at_us = 9\<rparr>, ee_sha = (\<lambda>s. ''abc''), ee_repr = (\<lambda>x. ''err''),
     ee_net = (\<lambda>k q. Inr \<lparr>pr_status = (if k = 1 then 503 else 200), pr_headers = [(''x-correlation-id'', ''corr-1'')], pr_body = ''R''\<rparr>)\<rparr>"

definition demo_person :: taxpayer where
  "demo_person = \<lparr>tp_id = ''t1'', tp_tenant = ''tenant-a'', display_name = ''Ann'', filing_status = ''SINGLE'', home_jurisdiction = ''CA'',
     created_at = \<lparr>aware = True, at_us = 5\<rparr>, liabilities = [], tags = []\<rparr>"

definition demo_ask :: estimate_request where
  "demo_ask = \<lparr>rq_correlation = ''corr-1'', rq_taxpayer = demo_person, rq_model = ''m'', rq_feature = ''f''\<rparr>"

lemma demo_estimate_runs:
  "\<exists>a tr. estimate demo_estimate demo_ask = (Inr a, tr) \<and> length (et_posts tr) = 2 \<and> length (et_lines tr) = 3"
proof -
  have "case estimate demo_estimate demo_ask of (Inl x, tr) \<Rightarrow> False | (Inr a, tr) \<Rightarrow> length (et_posts tr) = 2 \<and> length (et_lines tr) = 3"
    by code_simp
  then show ?thesis by (auto split: prod.splits sum.splits)
qed


section \<open>What the log says of a call\<close>

lemma fold_extra_get:
  assumes "dict_ok ex" and "dict_get ex k = Some v" and "k \<notin> set STANDARD_RECORD_FIELDS" and "\<not> starts_with k ''_''"
  shows "dict_get (fold (\<lambda>(k, v) p. if k \<notin> set STANDARD_RECORD_FIELDS \<and> \<not> starts_with k ''_'' then dict_set k v p else p) ex p) k = Some v"
  using assms
proof (induction ex arbitrary: p)
  case (Cons kv ex)
  have other: "dict_get (fold (\<lambda>(k, v) p. if k \<notin> set STANDARD_RECORD_FIELDS \<and> \<not> starts_with k ''_'' then dict_set k v p else p) d p) k = dict_get p k"
    if "k \<notin> set (map fst d)" for d p
    using that by (induction d arbitrary: p) (auto simp: dict_get_set)
  show ?case
  proof (cases "fst kv = k")
    case True
    then show ?thesis using Cons.prems other [of ex] by (cases kv) (auto simp: dict_ok_def)
  next
    case False
    then show ?thesis using Cons by (cases kv) (auto simp: dict_ok_def)
  qed
qed simp

lemma format_payload_get:
  assumes "dict_ok (lr_extra r)" and "dict_get (lr_extra r) k = Some v" and "k \<notin> set STANDARD_RECORD_FIELDS" and "\<not> starts_with k ''_''" and "k \<noteq> ''exception''"
  shows "dict_get (format_payload r) k = Some v"
  using fold_extra_get [OF assms(1-4)] assms(5) by (auto simp: format_payload_def Let_def split: option.split)

text \<open>
  Every line an estimate writes, the one of each retry included, can be found by its request: formatted,
  it is an object with the correlation id of the request, the tenant of the settings and an event name,
  whether or not an exception is attached.
\<close>

theorem estimate_lines_traceable:
  assumes "estimate e rq = (r, tr)" and "lr_extra rec \<in> set (et_lines tr)"
  shows "dict_get (format_payload rec) ''correlation_id'' = Some (JStr (rq_correlation rq))
    \<and> dict_get (format_payload rec) ''tenant_id'' = Some (JStr (ai_tenant (ee_settings e)))
    \<and> dict_get (format_payload rec) ''event'' \<noteq> None"
proof -
  let ?c = "context_of e rq"
  have retry: "line_of (ee_iso e) ?c l" if "l \<in> set (rt_lines (snd (post_attempts (log_retry (ee_iso e) (ee_repr e) ?c) net k 1)))" for l net k
  proof -
    have "rt_lines (snd (post_attempts (log_retry (ee_iso e) (ee_repr e) ?c) net k 1))
        = map (\<lambda>i. log_retry (ee_iso e) (ee_repr e) ?c i (projl (net i))) [1 ..< rt_attempts (snd (post_attempts (log_retry (ee_iso e) (ee_repr e) ?c) net k 1))]"
      using post_attempts_spec [of 1 "log_retry (ee_iso e) (ee_repr e) ?c" net k] by blast
    then show ?thesis using that line_of_retry by auto
  qed
  have l: "line_of (ee_iso e) ?c (lr_extra rec)"
    using assms(1)
  proof (cases rule: estimateE)
    case early
    then show ?thesis using assms(2) by simp
  next
    case (run w start t x)
    then show ?thesis using assms(2) retry by auto
  next
    case (reply w start t resp)
    then show ?thesis using assms(2) retry settle_lines by auto
  qed
  then have d: "dict_ok (lr_extra rec)" "dict_get (lr_extra rec) ''correlation_id'' = Some (JStr (rq_correlation rq))"
    "dict_get (lr_extra rec) ''tenant_id'' = Some (JStr (ai_tenant (ee_settings e)))" "\<exists>v. dict_get (lr_extra rec) ''event'' = Some v"
    by (auto simp: line_of_def context_of_def)
  then obtain v where v: "dict_get (lr_extra rec) ''event'' = Some v" by blast
  show ?thesis
    using format_payload_get [OF d(1) d(2)] format_payload_get [OF d(1) d(3)] format_payload_get [OF d(1) v]
    by (simp add: STANDARD_RECORD_FIELDS_def)
qed

theorem estimate_lines_traceable_witness:
  "\<exists>tr. snd (estimate demo_estimate demo_ask) = tr
     \<and> (\<forall>l \<in> set (et_lines tr). dict_get (format_payload \<lparr>lr_time = ''t'', lr_level = ''WARNING'', lr_logger = ''taxcalc_ai.client'',
          lr_message = ''m'', lr_extra = l, lr_exception = Some ''trace''\<rparr>) ''correlation_id'' = Some (JStr ''corr-1'')) \<and> length (et_lines tr) = 3"
proof -
  obtain a tr where r: "estimate demo_estimate demo_ask = (Inr a, tr)" "length (et_lines tr) = 3" using demo_estimate_runs by blast
  then show ?thesis
    using estimate_lines_traceable [OF r(1)] by (auto simp: demo_ask_def)
qed

section \<open>Counters\<close>

text \<open>
  The counters of the reranker after any series of attempts: every attempt counts once and the breaches
  are those that timed out, so the ratio of the two never exceeds one.
\<close>

lemma rerank_counters_exact:
  "fold record_rerank bs \<lparr>rerank_timeouts = a, rerank_requests = b\<rparr>
    = \<lparr>rerank_timeouts = a + length (filter id bs), rerank_requests = b + length bs\<rparr>"
  by (induction bs arbitrary: a b) (auto simp: record_rerank_def Let_def)

end
