(* ===== verification/Trajectory.thy ===== *)
theory Trajectory
  imports AgentGraph "HOL-Library.Sublist"
begin

text \<open>
  \<open>evals/trajectory.py\<close> and \<open>scripts/eval.py\<close>: the suite of questions, the score of a run's path,
  the cost baseline, the summary of a suite and the gate over it. Arguments: the run of the graph on a
  request, the rows the corpus returns, the float rounding \<open>fl\<close>. A score is a number or not a number.
\<close>

section \<open>The suite\<close>

(* src/taxcalc-agent-svc/evals/trajectory.py:52-75 Scenario *)
record scenario =
  sc_qid :: string
  sc_question :: string
  sc_tenant :: string
  sc_expected :: "string list"
  sc_substring :: string

definition scenario :: "string \<Rightarrow> string \<Rightarrow> string \<Rightarrow> string list \<Rightarrow> string \<Rightarrow> scenario" where
  "scenario i q t ns a = \<lparr>sc_qid = i, sc_question = q, sc_tenant = t, sc_expected = ns, sc_substring = a\<rparr>"

(* src/taxcalc-agent-svc/evals/trajectory.py:94-142 SCENARIOS, the docs-only rows *)
definition DOCS_ONLY :: "scenario list" where
  "DOCS_ONLY =
     [scenario ''docs-only-01'' ''what is the policy on taxpayer returns'' ''tenant-a'' [''retrieval_agent'', ''synthesis_agent''] ''policy'',
      scenario ''docs-only-02'' ''how do i claim a home office deduction'' ''tenant-b'' [''retrieval_agent'', ''synthesis_agent''] ''deduction'',
      scenario ''docs-only-03'' ''what is the standard deduction for a sole trader'' ''tenant-c'' [''retrieval_agent'', ''synthesis_agent''] ''deduction'',
      scenario ''docs-only-04'' ''which rule governs late filing penalties'' ''tenant-a'' [''retrieval_agent'', ''synthesis_agent''] ''penalt'',
      scenario ''docs-only-05'' ''where in the docs is the mileage allowance defined'' ''tenant-b'' [''retrieval_agent'', ''synthesis_agent''] ''mileage'',
      scenario ''docs-only-06'' ''how do i register for VAT'' ''tenant-c'' [''retrieval_agent'', ''synthesis_agent''] ''register'',
      scenario ''docs-only-07'' ''what is the policy on amended returns'' ''tenant-a'' [''retrieval_agent'', ''synthesis_agent''] ''amend'']"

(* src/taxcalc-agent-svc/evals/trajectory.py:147-195 SCENARIOS, the api-only rows *)
definition API_ONLY :: "scenario list" where
  "API_ONLY =
     [scenario ''api-only-01'' ''what is the status of order ord-synth-9001'' ''tenant-b'' [''api_agent'', ''synthesis_agent''] ''ord-synth-9001'',
      scenario ''api-only-02'' ''show me order ord-synth-9002'' ''tenant-c'' [''api_agent'', ''synthesis_agent''] ''ord-synth-9002'',
      scenario ''api-only-03'' ''refund ord-synth-9003 for 10.00'' ''tenant-a'' [''api_agent'', ''synthesis_agent''] ''ord-synth-9003'',
      scenario ''api-only-04'' ''has order ord-synth-9004 shipped'' ''tenant-b'' [''api_agent'', ''synthesis_agent''] ''ord-synth-9004'',
      scenario ''api-only-05'' ''what is the status of my latest filing'' ''tenant-c'' [''api_agent'', ''synthesis_agent''] ''status'',
      scenario ''api-only-06'' ''issue a refund of 25.00 on ord-synth-9005'' ''tenant-a'' [''api_agent'', ''synthesis_agent''] ''ord-synth-9005'',
      scenario ''api-only-07'' ''list the line items on order ord-synth-9006'' ''tenant-b'' [''api_agent'', ''synthesis_agent''] ''ord-synth-9006'']"

(* src/taxcalc-agent-svc/evals/trajectory.py:201-242 SCENARIOS, the both rows *)
definition BOTH_LEGS :: "scenario list" where
  "BOTH_LEGS =
     [scenario ''both-01'' ''look up order ord-synth-9001 and tell me the refund policy'' ''tenant-c'' [''retrieval_agent'', ''api_agent'', ''synthesis_agent''] ''refund'',
      scenario ''both-02'' ''what is the status of ord-synth-9007 and which rule covers it'' ''tenant-a'' [''retrieval_agent'', ''api_agent'', ''synthesis_agent''] ''rule'',
      scenario ''both-03'' ''how do i refund order ord-synth-9008'' ''tenant-b'' [''retrieval_agent'', ''api_agent'', ''synthesis_agent''] ''refund'',
      scenario ''both-04'' ''check order ord-synth-9009 against the deduction policy'' ''tenant-c'' [''retrieval_agent'', ''api_agent'', ''synthesis_agent''] ''deduction'',
      scenario ''both-05'' ''what is the refund policy and the status of ord-synth-9010'' ''tenant-a'' [''retrieval_agent'', ''api_agent'', ''synthesis_agent''] ''refund'',
      scenario ''both-06'' ''show the docs for refunds and the status of order ord-synth-9011'' ''tenant-b'' [''retrieval_agent'', ''api_agent'', ''synthesis_agent''] ''refund'']"

(* src/taxcalc-agent-svc/evals/trajectory.py:246-255 load_scenarios *)
definition load_scenarios :: "scenario list" where
  "load_scenarios = DOCS_ONLY @ API_ONLY @ BOTH_LEGS"

section \<open>Scores\<close>

text \<open>
  \<open>all(node in remaining for node in expected)\<close> over one shared iterator: a membership test consumes
  the iterator up to the first hit, and all of it when there is none.
\<close>

definition take_until :: "string \<Rightarrow> string list \<Rightarrow> bool \<times> string list" where
  "take_until x xs = (case dropWhile (\<lambda>y. y \<noteq> x) xs of [] \<Rightarrow> (False, []) | _ # rest \<Rightarrow> (True, rest))"

fun all_in_order :: "string list \<Rightarrow> string list \<Rightarrow> bool" where
  "all_in_order remaining [] = True"
| "all_in_order remaining (x # xs) = (let (hit, rest) = take_until x remaining in if hit then all_in_order rest xs else False)"

(* src/taxcalc-agent-svc/evals/trajectory.py:260-292 trajectory_match *)
definition trajectory_match :: "string list \<Rightarrow> string list \<Rightarrow> rat" where
  "trajectory_match actual expected = (if all_in_order actual expected then 1 else 0)"

(* src/taxcalc-agent-svc/evals/trajectory.py:295-307 cost_regression *)
definition cost_regression :: "(rat \<Rightarrow> rat) \<Rightarrow> int \<Rightarrow> int \<Rightarrow> rat" where
  "cost_regression fl current baseline = (if baseline \<le> 0 then 0 else fl (of_int (current - baseline) / of_int baseline))"

text \<open>
  The baseline file: absent, unreadable, or a text. \<open>ps\<close> is \<open>int\<close> of a text; a document that is no
  object has no \<open>get\<close>, and \<open>int\<close> of a list or of null is no \<open>ValueError\<close>: both raise.
\<close>

datatype file_state = Absent | Unreadable | FileText string

(* src/taxcalc-agent-svc/evals/trajectory.py:310-321 load_baseline *)
definition load_baseline :: "(rat \<Rightarrow> rat) \<Rightarrow> (string \<Rightarrow> int option) \<Rightarrow> file_state \<Rightarrow> int res" where
  "load_baseline fl ps f = (case f of
     Absent \<Rightarrow> Inr 0
   | Unreadable \<Rightarrow> Inr 0
   | FileText s \<Rightarrow>
      (case loads fl s of
         Inl x \<Rightarrow> Inr 0
       | Inr (JObj d) \<Rightarrow> (case py_int ps (get_or d ''mean_cost_usd_e5'' (JInt 0)) of
            Inl (ValueError m) \<Rightarrow> Inr 0 | Inl x \<Rightarrow> Inl x | Inr n \<Rightarrow> Inr n)
       | Inr v \<Rightarrow> Inl (OtherError ''AttributeError'' ''get'')))"

(* src/taxcalc-agent-svc/evals/trajectory.py:474-486 _answer_text *)
definition answer_text :: "(rat \<Rightarrow> rat) \<Rightarrow> (json \<Rightarrow> string) \<Rightarrow> string option \<Rightarrow> string" where
  "answer_text fl rp raw = (case raw of
     None \<Rightarrow> []
   | Some s \<Rightarrow> (if s = [] then [] else
       (case loads fl s of
          Inl x \<Rightarrow> s
        | Inr (JObj d) \<Rightarrow> py_str rp (get_or d ''text'' (JStr []))
        | Inr v \<Rightarrow> s)))"

text \<open>
  The key of a document: its id and the ordinal in its chunk id. \<open>isdigit\<close> of a superscript is true
  although \<open>int\<close> refuses it.
\<close>

definition isdigit_char :: "char \<Rightarrow> bool" where
  "isdigit_char c \<longleftrightarrow> is_digit c \<or> c \<in> {CHR 0xB2, CHR 0xB3, CHR 0xB9}"

definition chunk_ordinal :: "string \<Rightarrow> int res" where
  "chunk_ordinal cid =
     (if starts_with cid ''chunk-'' \<and> contains cid ''-p''
      then (case rsplit1 ''-p'' cid of
              Some (a, tail) \<Rightarrow> (if tail \<noteq> [] \<and> list_all isdigit_char tail
                 then (if list_all is_digit tail then Inr (int (digits_val 0 tail)) else Inl (ValueError ''int'')) else Inr 0)
            | None \<Rightarrow> Inr 0)
      else Inr 0)"

fun context_keys :: "doc list \<Rightarrow> (string \<times> int) list res" where
  "context_keys [] = Inr []"
| "context_keys (d # ds) =
     bind_res (chunk_ordinal (chunk_id d)) (\<lambda>i.
       bind_res (context_keys ds) (\<lambda>ks. Inr (if doc_id d \<noteq> [] then (doc_id d, i) # ks else ks)))"

text \<open>\<open>fetch\<close> is the query: the rows found for the keys, or any failure of the database.\<close>

(* src/taxcalc-agent-svc/evals/trajectory.py:489-549 hydrate_contexts *)
definition hydrate_contexts ::
  "string option \<Rightarrow> ((string \<times> int) list \<Rightarrow> ((string \<times> int) \<times> string) list option) \<Rightarrow> doc list \<Rightarrow> string list res" where
  "hydrate_contexts dsn fetch ds =
     (if dsn \<in> {None, Some []} \<or> ds = [] then Inr []
      else bind_res (context_keys ds) (\<lambda>ks.
        if ks = [] then Inr []
        else case fetch ks of
          None \<Rightarrow> Inr []
        | Some rows \<Rightarrow> (let found = map_of (rev rows) in Inr (concat (map (\<lambda>k. case found k of None \<Rightarrow> [] | Some t \<Rightarrow> [t]) ks)))))"

(* src/taxcalc-agent-svc/evals/trajectory.py:678-684 _measured *)
definition measured :: "fval \<Rightarrow> rat option" where
  "measured v = (case v of NaN \<Rightarrow> None | Num r \<Rightarrow> Some r)"

text \<open>The shapes of a result of the judge: a frame with its mean, a list, a scalar, none of these.\<close>

datatype judge_result = FrameMean fval | ScoreList "fval list" | ScoreScalar fval | NoScore

definition mean_of :: "(rat \<Rightarrow> rat) \<Rightarrow> fval list \<Rightarrow> fval" where
  "mean_of fl vs =
     (if NaN \<in> set vs then NaN
      else Num (fl (fold (\<lambda>v s. fl (s + (case v of Num r \<Rightarrow> r | NaN \<Rightarrow> 0))) vs 0 / of_nat (length vs))))"

(* src/taxcalc-agent-svc/evals/trajectory.py:634-675 _mean_faithfulness *)
definition mean_faithfulness :: "(rat \<Rightarrow> rat) \<Rightarrow> judge_result \<Rightarrow> rat option" where
  "mean_faithfulness fl r = (case r of
     FrameMean v \<Rightarrow> measured v
   | ScoreList vs \<Rightarrow> (if vs = [] then None else measured (mean_of fl vs))
   | ScoreScalar v \<Rightarrow> measured v
   | NoScore \<Rightarrow> None)"

section \<open>A run of the suite\<close>

record eval_row =
  er_qid :: string
  er_match :: rat
  er_visited :: "string list"
  er_expected :: "string list"
  er_answer :: string
  er_hit :: bool
  er_cost :: int
  er_contexts :: "string list"
  er_question :: string
  er_error :: string

record eval_env =
  ev_invoke :: "string \<Rightarrow> scenario \<Rightarrow> agent_state res"
  ev_fl :: "rat \<Rightarrow> rat"
  ev_repr :: "json \<Rightarrow> string"
  ev_error :: "exn \<Rightarrow> string"
  ev_dsn :: "string option"
  ev_fetch :: "(string \<times> int) list \<Rightarrow> ((string \<times> int) \<times> string) list option"
  ev_ps :: "string \<Rightarrow> int option"

text \<open>A scenario that raises is a row with an empty state; only a cancellation ends the suite.\<close>

definition row_state :: "eval_env \<Rightarrow> string \<Rightarrow> scenario \<Rightarrow> (agent_state option \<times> string) res" where
  "row_state e ns sc = (case ev_invoke e (''eval-'' @ ns @ ''-'' @ sc_qid sc) sc of
     Inr s \<Rightarrow> Inr (Some s, [])
   | Inl x \<Rightarrow> (if is_exception x then Inr (None, ev_error e x) else Inl x))"

(* src/taxcalc-agent-svc/evals/trajectory.py:383-430 loop body of run_eval *)
definition eval_row_of :: "eval_env \<Rightarrow> string \<Rightarrow> scenario \<Rightarrow> eval_row res" where
  "eval_row_of e ns sc = bind_res (row_state e ns sc) (\<lambda>(s, err).
     let visited = (case s of None \<Rightarrow> [] | Some x \<Rightarrow> visited_nodes x);
         ans = answer_text (ev_fl e) (ev_repr e) (case s of None \<Rightarrow> None | Some x \<Rightarrow> answer x)
     in bind_res (hydrate_contexts (ev_dsn e) (ev_fetch e) (case s of None \<Rightarrow> [] | Some x \<Rightarrow> docs x)) (\<lambda>ctx.
          Inr \<lparr>er_qid = sc_qid sc, er_match = trajectory_match visited (sc_expected sc), er_visited = visited, er_expected = sc_expected sc,
               er_answer = ans, er_hit = contains (lower ans) (lower (sc_substring sc)),
               er_cost = (case s of None \<Rightarrow> 0 | Some x \<Rightarrow> cost_usd_e5 x), er_contexts = ctx, er_question = sc_question sc, er_error = err\<rparr>))"

record summary =
  sm_scenarios :: nat
  sm_match :: rat
  sm_substring_rate :: rat
  sm_faithfulness :: "fval option"
  sm_mean_cost :: int
  sm_baseline :: int
  sm_regression :: rat
  sm_rows :: "eval_row list"

(* src/taxcalc-agent-svc/evals/trajectory.py:590-597 rows score_with_ragas judges *)
definition scorable :: "eval_row list \<Rightarrow> eval_row list" where
  "scorable rows = filter (\<lambda>r. er_answer r \<noteq> [] \<and> er_contexts r \<noteq> []) rows"

text \<open>
  \<open>judge\<close> is the third-party evaluation: \<open>None\<close> when it cannot be imported or raises.
\<close>

(* src/taxcalc-agent-svc/evals/trajectory.py:552-631 score_with_ragas *)
definition score_with_ragas :: "(rat \<Rightarrow> rat) \<Rightarrow> (eval_row list \<Rightarrow> judge_result option) \<Rightarrow> eval_row list \<Rightarrow> rat option" where
  "score_with_ragas fl judge rows =
     (if scorable rows = [] then None else case judge (scorable rows) of None \<Rightarrow> None | Some r \<Rightarrow> mean_faithfulness fl r)"

definition ratio :: "(rat \<Rightarrow> rat) \<Rightarrow> nat \<Rightarrow> nat \<Rightarrow> rat" where
  "ratio fl k n = (if n = 0 then 0 else fl (of_nat k / of_nat n))"

(* src/taxcalc-agent-svc/evals/trajectory.py:324-471 run_eval *)
definition run_eval ::
  "eval_env \<Rightarrow> string \<Rightarrow> scenario list \<Rightarrow> (eval_row list \<Rightarrow> judge_result option) option \<Rightarrow> file_state \<Rightarrow> summary res" where
  "run_eval e ns suite judge prior =
     bind_res (map_res (eval_row_of e ns) suite) (\<lambda>rows.
       bind_res (load_baseline (ev_fl e) (ev_ps e) prior) (\<lambda>baseline.
         let mean = (if suite = [] then 0 else sum_list (map er_cost rows) div int (length suite))
         in Inr \<lparr>sm_scenarios = length suite, sm_match = ratio (ev_fl e) (length (filter (\<lambda>r. er_match r = 1) rows)) (length suite),
                 sm_substring_rate = ratio (ev_fl e) (length (filter er_hit rows)) (length suite),
                 sm_faithfulness = (case judge of None \<Rightarrow> None | Some j \<Rightarrow> map_option Num (score_with_ragas (ev_fl e) j rows)),
                 sm_mean_cost = mean, sm_baseline = baseline, sm_regression = cost_regression (ev_fl e) mean baseline, sm_rows = rows\<rparr>))"

text \<open>The document that is left in the run's file, and read back as the next baseline.\<close>

(* src/taxcalc-agent-svc/evals/trajectory.py:415-428 rows.append in run_eval *)
definition row_json :: "eval_row \<Rightarrow> json" where
  "row_json r = JObj
     [(''qid'', JStr (er_qid r)), (''match'', JFloat (er_match r)), (''visited'', JList (map JStr (er_visited r))),
      (''expected'', JList (map JStr (er_expected r))), (''answer'', JStr (er_answer r)), (''answer_substring_hit'', JBool (er_hit r)),
      (''cost_usd_e5'', JInt (er_cost r)), (''contexts'', JList (map JStr (er_contexts r))), (''question'', JStr (er_question r)),
      (''error'', JStr (er_error r))]"

(* src/taxcalc-agent-svc/evals/trajectory.py:458-468 summary in run_eval *)
definition summary_json :: "summary \<Rightarrow> json" where
  "summary_json s = JObj
     [(''scenarios'', JInt (int (sm_scenarios s))), (''trajectory_match'', JFloat (sm_match s)),
      (''answer_substring_rate'', JFloat (sm_substring_rate s)),
      (''faithfulness'', case sm_faithfulness s of Some (Num r) \<Rightarrow> JFloat r | _ \<Rightarrow> JNull),
      (''faithfulness_measured'', JBool (sm_faithfulness s \<noteq> None)), (''mean_cost_usd_e5'', JInt (sm_mean_cost s)),
      (''baseline_cost_usd_e5'', JInt (sm_baseline s)), (''cost_regression'', JFloat (sm_regression s)),
      (''rows'', JList (map row_json (sm_rows s)))]"

section \<open>The gate\<close>

(* src/taxcalc-agent-svc/evals/trajectory.py:45-47 TRAJECTORY_FLOOR *)
definition TRAJECTORY_FLOOR :: rat where "TRAJECTORY_FLOOR = 7 / 10"

(* src/taxcalc-agent-svc/evals/trajectory.py:48-48 FAITHFULNESS_FLOOR *)
definition FAITHFULNESS_FLOOR :: rat where "FAITHFULNESS_FLOOR = 85 / 100"

(* src/taxcalc-agent-svc/evals/trajectory.py:49-49 COST_REGRESSION_LIMIT *)
definition COST_REGRESSION_LIMIT :: rat where "COST_REGRESSION_LIMIT = 15 / 100"

text \<open>The failures by their kind and numbers; their wording is left out. A float literal is its rounding.\<close>

datatype gate_failure = TrajectoryLow rat | NotMeasured | FaithfulnessLow rat | CostRegressed rat int int

(* src/taxcalc-agent-svc/src/taxcalc_agent_svc/scripts/eval.py:125-166 verdict *)
definition verdict :: "(rat \<Rightarrow> rat) \<Rightarrow> summary \<Rightarrow> bool \<Rightarrow> bool \<times> gate_failure list" where
  "verdict fl s allow_unmeasured =
     (let f1 = (if sm_match s < fl TRAJECTORY_FLOOR then [TrajectoryLow (sm_match s)] else []);
          faith = (case sm_faithfulness s of Some (Num r) \<Rightarrow> Some r | _ \<Rightarrow> None);
          f2 = (case faith of None \<Rightarrow> if allow_unmeasured then [] else [NotMeasured]
                | Some r \<Rightarrow> if r < fl FAITHFULNESS_FLOOR then [FaithfulnessLow r] else []);
          f3 = (if fl COST_REGRESSION_LIMIT < sm_regression s
                then [CostRegressed (sm_regression s) (sm_baseline s) (sm_mean_cost s)] else []);
          failures = f1 @ f2 @ f3
      in (failures = [], failures))"

text \<open>The exit code: the report's, or zero when the run does not gate.\<close>

(* src/taxcalc-agent-svc/src/taxcalc_agent_svc/scripts/eval.py:225-247 _run *)
definition eval_exit :: "(rat \<Rightarrow> rat) \<Rightarrow> summary \<Rightarrow> bool \<Rightarrow> bool \<Rightarrow> bool \<Rightarrow> int" where
  "eval_exit fl s offline gate allow_unmeasured =
     (let code = (if fst (verdict fl s (allow_unmeasured \<or> offline)) then 0 else 1) in if gate then code else 0)"

text \<open>The stub bodies of the offline run; the graph around them is the real one.\<close>

(* src/taxcalc-agent-svc/src/taxcalc_agent_svc/scripts/eval.py:67-122 _install_offline_nodes *)
definition offline_body :: "(rat \<Rightarrow> string) \<Rightarrow> string \<Rightarrow> agent_state \<Rightarrow> partial_state body_run" where
  "offline_body fr t s = Finished (Inr (
     if t = RETRIEVAL_AGENT
     then empty_update\<lparr>p_docs := Some [\<lparr>chunk_id = ''chunk-doc-1-p0'', doc_id = ''doc-1'', score = 9 / 10\<rparr>],
            p_cost := Some 120, p_visited := Some [''retrieval_agent'']\<rparr>
     else if t = API_AGENT
     then empty_update\<lparr>p_tool_results := Some [(''orders.get_order'', JObj [(''id'', JStr ''ord-synth-9001'')])],
            p_cost := Some 200, p_visited := Some [''api_agent'']\<rparr>
     else empty_update\<lparr>p_answer := Some (dumps fr (JObj [(''text'', JStr (''offline: '' @ question s)), (''citations'', JList []),
              (''confidence'', JFloat (9 / 10))])),
            p_cost := Some 300, p_visited := Some [''synthesis_agent'']\<rparr>))"

section \<open>The path score\<close>

lemma take_until_subseq: "subseq (x # xs) rem \<longleftrightarrow> fst (take_until x rem) \<and> subseq xs (snd (take_until x rem))"
  by (induction rem) (auto simp: take_until_def)

lemma all_in_order_subseq: "all_in_order rem xs \<longleftrightarrow> subseq xs rem"
  by (induction rem xs rule: all_in_order.induct) (auto simp: take_until_subseq split: prod.splits simp del: subseq_Cons2_iff)

text \<open>
  The score of a path is one exactly when the golden nodes are a subsequence of the nodes that ran, and
  zero otherwise: the consumed iterator is the textbook relation. Doing more on the way never lowers it,
  and reordering two different golden nodes that each ran once loses it.
\<close>

theorem trajectory_match_subsequence:
  "trajectory_match actual expected = (if subseq expected actual then 1 else 0)
   \<and> (subseq actual longer \<longrightarrow> trajectory_match actual expected \<le> trajectory_match longer expected)
   \<and> (a \<noteq> b \<longrightarrow> trajectory_match [b, a] [a, b] = 0)"
  using subseq_order.trans [of expected actual longer]
  by (auto simp: trajectory_match_def all_in_order_subseq)

theorem trajectory_match_subsequence_witness:
  "trajectory_match [''synthesis_agent'', ''api_agent''] [''api_agent'', ''synthesis_agent''] = 0
   \<and> trajectory_match [''api_agent'', ''guardrail'', ''synthesis_agent''] [''api_agent'', ''synthesis_agent''] = 1"
  using trajectory_match_subsequence [where a = "''api_agent''" and b = "''synthesis_agent''" and actual = "[''api_agent'', ''guardrail'', ''synthesis_agent'']"
      and expected = "[''api_agent'', ''synthesis_agent'']"]
  by simp

section \<open>The suite and the router\<close>

lemma supervisor_question: "supervisor s = supervisor (entry_state (question s) [] [])"
  by (simp add: supervisor_def entry_state_def)

definition plan_of :: "scenario \<Rightarrow> string list" where
  "plan_of sc = supervisor (entry_state (sc_question sc) [] []) @ [SYNTHESIS_AGENT]"

lemma suite_plans: "list_all (\<lambda>sc. plan_of sc = sc_expected sc) DOCS_ONLY" "list_all (\<lambda>sc. plan_of sc = sc_expected sc) API_ONLY"
  "list_all (\<lambda>sc. plan_of sc = sc_expected sc) BOTH_LEGS"
  by (simp_all add: plan_of_def DOCS_ONLY_def API_ONLY_def BOTH_LEGS_def scenario_def supervisor_def entry_state_def mentions_def DOCS_KEYWORDS_def
      API_KEYWORDS_def lower_def lower_char_def Let_def RETRIEVAL_AGENT_def API_AGENT_def SYNTHESIS_AGENT_def)

lemma suite_plan: "sc \<in> set load_scenarios \<Longrightarrow> plan_of sc = sc_expected sc"
  using suite_plans by (auto simp: load_scenarios_def list_all_iff)

lemma suite_hits: "list_all (\<lambda>sc. contains (lower (''offline: '' @ sc_question sc)) (lower (sc_substring sc))) load_scenarios"
  by (simp add: load_scenarios_def DOCS_ONLY_def API_ONLY_def BOTH_LEGS_def scenario_def lower_def lower_char_def Let_def)

lemma suite_sizes: "map (\<lambda>sc. API_AGENT \<in> set (sc_expected sc)) load_scenarios = replicate 7 False @ replicate 13 True"
  "map (\<lambda>sc. RETRIEVAL_AGENT \<in> set (sc_expected sc)) load_scenarios = replicate 7 True @ replicate 7 False @ replicate 6 True"
  by (simp_all add: load_scenarios_def DOCS_ONLY_def API_ONLY_def BOTH_LEGS_def scenario_def RETRIEVAL_AGENT_def API_AGENT_def eval_nat_numeral)

section \<open>The offline run\<close>

definition offline_invoke ::
  "(json list \<Rightarrow> json list \<Rightarrow> json list) \<Rightarrow> (final_answer \<Rightarrow> string) \<Rightarrow> (rat \<Rightarrow> string) \<Rightarrow> nat \<Rightarrow> string \<Rightarrow> scenario \<Rightarrow> agent_state res" where
  "offline_invoke am dump fr steps thread sc =
     outcome (run_graph am (wrapped dump (offline_body fr)) steps (entry_state (sc_question sc) (sc_tenant sc) thread))"

definition offline_payload :: "string \<Rightarrow> json" where
  "offline_payload q = JObj [(''text'', JStr (''offline: '' @ q)), (''citations'', JList []), (''confidence'', JFloat (9 / 10))]"

lemma offline_state:
  assumes "2 \<le> steps"
  obtains s where "offline_invoke am dump fr steps thread sc = Inr s" "visited_nodes s = plan_of sc"
    "answer s = Some (dumps fr (offline_payload (sc_question sc)))"
    "cost_usd_e5 s = (if RETRIEVAL_AGENT \<in> set (plan_of sc) then 120 else 0) + (if API_AGENT \<in> set (plan_of sc) then 200 else 0) + 300"
    "\<forall>d \<in> set (docs s). d = \<lparr>chunk_id = ''chunk-doc-1-p0'', doc_id = ''doc-1'', score = 9 / 10\<rparr>"
proof -
  obtain n where n: "steps = Suc (Suc n)" using assms by (metis Suc_le_D numeral_2_eq_2 Suc_le_mono)
  let ?init = "entry_state (sc_question sc) (sc_tenant sc) thread"
  have plan: "plan_of sc = supervisor ?init @ [SYNTHESIS_AGENT]"
    using supervisor_question [of ?init] by (simp add: plan_of_def entry_state_def)
  define upd where "upd = (\<lambda>t s. case offline_body fr t s of Finished (Inr u) \<Rightarrow> u | _ \<Rightarrow> empty_update)"
  have w: "wrapped dump (offline_body fr) t s = Inr (upd t s)" for t s
    by (simp add: wrapped_def offline_body_def deadline_finished upd_def)
  let ?us = "map (\<lambda>t. upd t ?init) (supervisor ?init)"
  let ?fin = "fan_in am ?init (?us @ [upd SYNTHESIS_AGENT (fan_in am ?init ?us)])"
  have "map_res (\<lambda>t. wrapped dump (offline_body fr) t ?init) (supervisor ?init) = Inr ?us"
    by (rule map_res_Inr_map) (simp add: w)
  then have run: "offline_invoke am dump fr steps thread sc = Inr ?fin"
    by (simp add: offline_invoke_def n run_graph_two_steps w)
  have "visited_nodes ?fin = plan_of sc \<and> answer ?fin = Some (dumps fr (offline_payload (sc_question sc)))
    \<and> cost_usd_e5 ?fin = (if RETRIEVAL_AGENT \<in> set (plan_of sc) then 120 else 0) + (if API_AGENT \<in> set (plan_of sc) then 200 else 0) + 300
    \<and> (\<forall>d \<in> set (docs ?fin). d = \<lparr>chunk_id = ''chunk-doc-1-p0'', doc_id = ''doc-1'', score = 9 / 10\<rparr>)"
  proof (cases ?init rule: supervisor_cases)
    case 1
    then show ?thesis unfolding plan 1
      by (simp add: upd_def offline_body_def fan_in_def apply_update_def entry_state_def empty_update_def offline_payload_def
          RETRIEVAL_AGENT_def API_AGENT_def SYNTHESIS_AGENT_def)
  next
    case 2
    then show ?thesis unfolding plan 2
      by (simp add: upd_def offline_body_def fan_in_def apply_update_def entry_state_def empty_update_def offline_payload_def
          RETRIEVAL_AGENT_def API_AGENT_def SYNTHESIS_AGENT_def)
  next
    case 3
    then show ?thesis unfolding plan 3
      by (simp add: upd_def offline_body_def fan_in_def apply_update_def entry_state_def empty_update_def offline_payload_def
          RETRIEVAL_AGENT_def API_AGENT_def SYNTHESIS_AGENT_def)
  qed
  then show thesis using that run by blast
qed

lemma offline_row:
  assumes "2 \<le> steps" and "ev_invoke e = offline_invoke am dump fr steps" and "sc \<in> set load_scenarios"
    and "float_ok fr (ev_fl e) (9 / 10)"
  obtains r where "eval_row_of e ns sc = Inr r" "er_match r = 1" "er_hit r"
    "er_cost r = (if RETRIEVAL_AGENT \<in> set (sc_expected sc) then 120 else 0) + (if API_AGENT \<in> set (sc_expected sc) then 200 else 0) + 300"
proof -
  obtain s where s: "ev_invoke e (''eval-'' @ ns @ ''-'' @ sc_qid sc) sc = Inr s" "visited_nodes s = sc_expected sc"
    "answer s = Some (dumps fr (offline_payload (sc_question sc)))"
    "cost_usd_e5 s = (if RETRIEVAL_AGENT \<in> set (sc_expected sc) then 120 else 0) + (if API_AGENT \<in> set (sc_expected sc) then 200 else 0) + 300"
    "\<forall>d \<in> set (docs s). d = \<lparr>chunk_id = ''chunk-doc-1-p0'', doc_id = ''doc-1'', score = 9 / 10\<rparr>"
    using offline_state [OF assms(1)] suite_plan [OF assms(3)] unfolding assms(2) by metis
  have "json_ok fr (ev_fl e) (offline_payload (sc_question sc))" using assms(4) by (simp add: offline_payload_def dict_ok_def)
  then have "loads (ev_fl e) (dumps fr (offline_payload (sc_question sc))) = Inr (offline_payload (sc_question sc))" by (rule loads_dumps)
  moreover have "dumps fr (offline_payload (sc_question sc)) \<noteq> []" by (simp add: offline_payload_def)
  ultimately have ans: "answer_text (ev_fl e) (ev_repr e) (answer s) = ''offline: '' @ sc_question sc"
    by (simp add: s(3) answer_text_def offline_payload_def get_or_def py_str_def)
  have "context_keys ds = Inr (map (\<lambda>d. (''doc-1'', 0)) ds)"
    if "\<forall>d \<in> set ds. d = \<lparr>chunk_id = ''chunk-doc-1-p0'', doc_id = ''doc-1'', score = 9 / 10\<rparr>" for ds
  proof -
    have "chunk_ordinal ''chunk-doc-1-p0'' = Inr 0" by code_simp
    then show ?thesis using that by (induction ds) auto
  qed
  then obtain ctx where ctx: "hydrate_contexts (ev_dsn e) (ev_fetch e) (docs s) = Inr ctx"
    using s(5) by (cases "hydrate_contexts (ev_dsn e) (ev_fetch e) (docs s)") (auto simp: hydrate_contexts_def Let_def split: if_splits option.splits)
  have "contains (lower (''offline: '' @ sc_question sc)) (lower (sc_substring sc))"
    using suite_hits assms(3) by (auto simp: list_all_iff)
  then show thesis using that s ans ctx by (auto simp: eval_row_of_def row_state_def trajectory_match_def all_in_order_subseq Let_def)
qed

section \<open>The gate\<close>

lemma visits_of_run:
  assumes "map (\<lambda>t. node t x) ts = map Inr us" and "\<And>t s u. node t s = Inr u \<Longrightarrow> p_visited u = Some [t]"
  shows "concat (map (\<lambda>u. contrib (p_visited u)) us) = ts"
  using assms(1)
proof (induction ts arbitrary: us)
  case (Cons t ts)
  then obtain u vs where "us = u # vs" "node t x = Inr u" "map (\<lambda>t. node t x) ts = map Inr vs" by (cases us) auto
  then show ?case using Cons.IH assms(2) by (simp add: contrib_def)
qed simp

text \<open>
  The router meets the suite: on every committed question, whatever the nodes are made of as long as each
  reports its own visit, a run that ends visits exactly the golden nodes in the golden order.
\<close>

theorem suite_routes_golden:
  assumes "sc \<in> set load_scenarios" and "2 \<le> steps"
    and "\<And>t s u. node t s = Inr u \<Longrightarrow> p_visited u = Some [t]"
    and "outcome (run_graph am node steps (entry_state (sc_question sc) tenant thread)) = Inr s"
  shows "visited_nodes s = sc_expected sc \<and> trajectory_match (visited_nodes s) (sc_expected sc) = 1"
proof -
  let ?init = "entry_state (sc_question sc) tenant thread"
  obtain n where n: "steps = Suc (Suc n)" using assms(2) by (metis Suc_le_D numeral_2_eq_2 Suc_le_mono)
  have plan: "supervisor ?init @ [SYNTHESIS_AGENT] = sc_expected sc"
    using supervisor_question [of ?init] suite_plan [OF assms(1)] by (simp add: plan_of_def entry_state_def)
  obtain us u where us: "map_res (\<lambda>t. node t ?init) (supervisor ?init) = Inr us" "node SYNTHESIS_AGENT (fan_in am ?init us) = Inr u"
    "s = fan_in am ?init (us @ [u])"
    using assms(4) unfolding n run_graph_two_steps by (auto split: sum.splits)
  have "concat (map (\<lambda>u. contrib (p_visited u)) us) = supervisor ?init"
    by (rule visits_of_run [where node = node and x = ?init]) (rule map_res_map [OF us(1)], rule assms(3))
  then have "visited_nodes s = supervisor ?init @ [SYNTHESIS_AGENT]"
    using assms(3) [OF us(2)] unfolding us(3) by (simp add: fan_in_visited contrib_def entry_state_def)
  then show ?thesis using plan by (simp add: trajectory_match_def all_in_order_subseq)
qed

lemma eval_rows:
  assumes "run_eval e ns suite judge prior = Inr s"
  shows "map_res (eval_row_of e ns) suite = Inr (sm_rows s)" and "load_baseline (ev_fl e) (ev_ps e) prior = Inr (sm_baseline s)"
    and "sm_mean_cost s = (if suite = [] then 0 else sum_list (map er_cost (sm_rows s)) div int (length suite))"
    and "sm_regression s = cost_regression (ev_fl e) (sm_mean_cost s) (sm_baseline s)"
    and "sm_match s = ratio (ev_fl e) (length (filter (\<lambda>r. er_match r = 1) (sm_rows s))) (length suite)"
    and "judge = None \<Longrightarrow> sm_faithfulness s = None"
    and "judge = Some j \<Longrightarrow> sm_faithfulness s = map_option Num (score_with_ragas (ev_fl e) j (sm_rows s))"
proof -
  obtain rows baseline where rows: "map_res (eval_row_of e ns) suite = Inr rows" and b: "load_baseline (ev_fl e) (ev_ps e) prior = Inr baseline"
    using assms by (auto simp: run_eval_def bind_res_eq_Inr)
  then have s: "s = \<lparr>sm_scenarios = length suite, sm_match = ratio (ev_fl e) (length (filter (\<lambda>r. er_match r = 1) rows)) (length suite),
       sm_substring_rate = ratio (ev_fl e) (length (filter er_hit rows)) (length suite),
       sm_faithfulness = (case judge of None \<Rightarrow> None | Some j \<Rightarrow> map_option Num (score_with_ragas (ev_fl e) j rows)),
       sm_mean_cost = (if suite = [] then 0 else sum_list (map er_cost rows) div int (length suite)), sm_baseline = baseline,
       sm_regression = cost_regression (ev_fl e) (if suite = [] then 0 else sum_list (map er_cost rows) div int (length suite)) baseline, sm_rows = rows\<rparr>"
    using assms by (simp add: run_eval_def Let_def)
  show "map_res (eval_row_of e ns) suite = Inr (sm_rows s)" "load_baseline (ev_fl e) (ev_ps e) prior = Inr (sm_baseline s)"
    "sm_mean_cost s = (if suite = [] then 0 else sum_list (map er_cost (sm_rows s)) div int (length suite))"
    "sm_regression s = cost_regression (ev_fl e) (sm_mean_cost s) (sm_baseline s)"
    "sm_match s = ratio (ev_fl e) (length (filter (\<lambda>r. er_match r = 1) (sm_rows s))) (length suite)"
    "judge = None \<Longrightarrow> sm_faithfulness s = None"
    "judge = Some j \<Longrightarrow> sm_faithfulness s = map_option Num (score_with_ragas (ev_fl e) j (sm_rows s))"
    by (simp_all add: s rows b)
qed


lemma eval_row_facts:
  assumes "eval_row_of e ns sc = Inr r"
  shows "er_qid r = sc_qid sc \<and> (er_match r = 1 \<longleftrightarrow> subseq (sc_expected sc) (er_visited r)) \<and> (er_match r = 1 \<or> er_match r = 0)
    \<and> (\<forall>x. ev_invoke e (''eval-'' @ ns @ ''-'' @ sc_qid sc) sc = Inl x \<longrightarrow>
         er_error r = ev_error e x \<and> er_answer r = [] \<and> er_cost r = 0 \<and> er_visited r = [])"
  using assms
  by (auto simp: eval_row_of_def row_state_def Let_def bind_res_eq_Inr trajectory_match_def all_in_order_subseq answer_text_def
      split: sum.splits if_splits)

text \<open>
  One scenario's failure costs one row: every scenario has its row in order, a row scores one exactly
  when the golden nodes ran in order, and a scenario whose run raised is a row with no answer, no cost
  and, where anything was expected, no score.
\<close>

theorem failed_scenario_is_one_row:
  assumes "run_eval e ns suite judge prior = Inr s" and "i < length suite"
  shows "length (sm_rows s) = length suite \<and> er_qid (sm_rows s ! i) = sc_qid (suite ! i)
    \<and> (er_match (sm_rows s ! i) = 1 \<longleftrightarrow> subseq (sc_expected (suite ! i)) (er_visited (sm_rows s ! i)))
    \<and> (\<forall>x. ev_invoke e (''eval-'' @ ns @ ''-'' @ sc_qid (suite ! i)) (suite ! i) = Inl x \<longrightarrow>
         er_error (sm_rows s ! i) = ev_error e x \<and> er_answer (sm_rows s ! i) = [] \<and> er_cost (sm_rows s ! i) = 0
         \<and> (sc_expected (suite ! i) \<noteq> [] \<longrightarrow> er_match (sm_rows s ! i) = 0))"
proof -
  have rows: "map_res (eval_row_of e ns) suite = Inr (sm_rows s)" by (rule eval_rows(1) [OF assms(1)])
  have "eval_row_of e ns (suite ! i) = Inr (sm_rows s ! i)" by (rule map_res_nth [OF rows assms(2)])
  from eval_row_facts [OF this] show ?thesis using map_res_length [OF rows] by (auto simp: list_emb_Nil2)
qed

text \<open>
  The offline gate: on the committed suite, with stub bodies in the real graph, every path matches, every
  answer has its word, the mean cost is 508, and the exit code depends on the baseline alone. What is
  asked of the floats is that rounding is monotone and the confidence of the stub survives a round trip.
\<close>

theorem offline_gate_verdict:
  assumes "2 \<le> steps" and "ev_invoke e = offline_invoke am dump fr steps" and "float_ok fr (ev_fl e) (9 / 10)" and "mono (ev_fl e)"
    and "load_baseline (ev_fl e) (ev_ps e) prior = Inr baseline"
  shows "\<exists>s. run_eval e ns load_scenarios None prior = Inr s \<and> sm_match s = ev_fl e 1 \<and> sm_substring_rate s = ev_fl e 1 \<and> sm_mean_cost s = 508
    \<and> eval_exit (ev_fl e) s True True False = (if ev_fl e COST_REGRESSION_LIMIT < cost_regression (ev_fl e) 508 baseline then 1 else 0)"
proof -
  let ?cost = "\<lambda>sc. (if RETRIEVAL_AGENT \<in> set (sc_expected sc) then 120 else 0) + (if API_AGENT \<in> set (sc_expected sc) then 200 else 0) + (300 :: int)"
  define f where "f = (\<lambda>sc. SOME r. eval_row_of e ns sc = Inr r)"
  have f: "eval_row_of e ns sc = Inr (f sc)" "er_match (f sc) = 1" "er_hit (f sc)" "er_cost (f sc) = ?cost sc"
    if mem: "sc \<in> set load_scenarios" for sc
  proof -
    obtain r where r: "eval_row_of e ns sc = Inr r" "er_match r = 1" "er_hit r" "er_cost r = ?cost sc"
      by (rule offline_row [OF assms(1,2) mem assms(3)])
    then have "f sc = r" by (simp add: f_def)
    then show "eval_row_of e ns sc = Inr (f sc)" "er_match (f sc) = 1" "er_hit (f sc)" "er_cost (f sc) = ?cost sc" using r by auto
  qed
  let ?rows = "map f load_scenarios"
  have rows: "map_res (eval_row_of e ns) load_scenarios = Inr ?rows" by (rule map_res_Inr_map) (rule f(1))
  have len: "length load_scenarios = 20" by (simp add: load_scenarios_def DOCS_ONLY_def API_ONLY_def BOTH_LEGS_def)
  have all: "filter (\<lambda>r. er_match r = 1) ?rows = ?rows" "filter er_hit ?rows = ?rows" using f by (simp_all add: filter_id_conv)
  have "map er_cost ?rows = map ?cost load_scenarios" using f(4) by simp
  also have "\<dots> = map (\<lambda>(r, a). (if r then 120 else 0) + (if a then 200 else 0) + 300)
      (zip (map (\<lambda>sc. RETRIEVAL_AGENT \<in> set (sc_expected sc)) load_scenarios) (map (\<lambda>sc. API_AGENT \<in> set (sc_expected sc)) load_scenarios))"
    by (simp add: zip_map1 zip_map2 zip_same_conv_map)
  also have "sum_list \<dots> = 10160" unfolding suite_sizes by (simp add: eval_nat_numeral)
  finally have cost: "sum_list (map er_cost ?rows) = 10160" .
  have fl: "ev_fl e TRAJECTORY_FLOOR \<le> ev_fl e 1" using assms(4) by (simp add: mono_def TRAJECTORY_FLOOR_def)
  show ?thesis
    using rows assms(5) len all cost fl
    by (auto simp: run_eval_def ratio_def eval_exit_def verdict_def Let_def simp del: map_map length_0_conv)
qed

lemma summary_baseline: "loads fl txt = Inr (summary_json s) \<Longrightarrow> load_baseline fl ps (FileText txt) = Inr (sm_mean_cost s)"
  by (simp add: load_baseline_def summary_json_def get_or_def py_int_def)

text \<open>
  The cost gate compares with the run before, whatever its verdict: the summary is written before any
  verdict is taken, so a run that is followed by a run of the same cost leaves a baseline against which
  that cost has regressed by nothing. A gate that failed on cost passes on cost when it is repeated.
\<close>

theorem second_run_forgives:
  assumes "run_eval e ns suite judge prior = Inr s" and "loads (ev_fl e) txt = Inr (summary_json s)"
    and "run_eval e ns2 suite judge2 (FileText txt) = Inr s2" and "sm_mean_cost s2 = sm_mean_cost s"
    and "ev_fl e 0 = 0" and "0 \<le> ev_fl e COST_REGRESSION_LIMIT"
  shows "sm_baseline s2 = sm_mean_cost s \<and> sm_regression s2 = 0
    \<and> (\<forall>a r b c. CostRegressed r b c \<notin> set (snd (verdict (ev_fl e) s2 a)))"
proof -
  have b: "sm_baseline s2 = sm_mean_cost s"
    using eval_rows(2) [OF assms(3)] summary_baseline [OF assms(2)] by simp
  then have "sm_regression s2 = 0" using eval_rows(4) [OF assms(3)] assms(4,5) by (simp add: cost_regression_def)
  then show ?thesis using b assms(6) by (auto simp: verdict_def Let_def split: option.splits fval.splits if_splits)
qed

section \<open>Instances\<close>

text \<open>A node that reports its visit alone, and an evaluation whose runs are those of the stub bodies.\<close>

definition visiting :: "string \<Rightarrow> agent_state \<Rightarrow> partial_state res" where
  "visiting t s = Inr (empty_update\<lparr>p_visited := Some [t]\<rparr>)"

definition broken_env :: eval_env where
  "broken_env = \<lparr>ev_invoke = \<lambda>t sc. Inl (RuntimeError ''down''), ev_fl = \<lambda>r. r, ev_repr = \<lambda>j. [], ev_error = \<lambda>x. ''down'',
     ev_dsn = None, ev_fetch = \<lambda>ks. None, ev_ps = \<lambda>s. None\<rparr>"

definition answering_env :: eval_env where
  "answering_env = broken_env\<lparr>ev_invoke := \<lambda>t sc. Inr ((entry_state (sc_question sc) (sc_tenant sc) t)
      \<lparr>answer := Some ''the policy'', visited_nodes := sc_expected sc, docs := [\<lparr>chunk_id = ''chunk-d-p3'', doc_id = ''d'', score = 1\<rparr>], cost_usd_e5 := 500\<rparr>),
     ev_dsn := Some ''dsn'', ev_fetch := \<lambda>ks. Some (map (\<lambda>k. (k, ''a page'')) ks)\<rparr>"

definition stub_env :: eval_env where
  "stub_env = broken_env\<lparr>ev_invoke := offline_invoke (@) (\<lambda>a. []) (\<lambda>r. ''0.9'') 2\<rparr>"

lemma stub_env_fields [simp]: "ev_invoke stub_env = offline_invoke (@) (\<lambda>a. []) (\<lambda>r. ''0.9'') 2" "ev_fl stub_env = (\<lambda>r. r)"
  by (simp_all add: stub_env_def broken_env_def)

theorem suite_routes_golden_witness:
  "\<exists>s. outcome (run_graph (@) visiting 2 (entry_state (sc_question (hd API_ONLY)) ''tenant-b'' [])) = Inr s
     \<and> visited_nodes s = [''api_agent'', ''synthesis_agent'']"
proof -
  let ?init = "entry_state (sc_question (hd API_ONLY)) ''tenant-b'' []"
  have "map_res (\<lambda>t. visiting t ?init) (supervisor ?init) = Inr (map (\<lambda>t. empty_update\<lparr>p_visited := Some [t]\<rparr>) (supervisor ?init))"
    by (rule map_res_Inr_map) (simp add: visiting_def)
  then obtain s where s: "outcome (run_graph (@) visiting 2 ?init) = Inr s"
    using run_graph_two_steps [where n = 0] by (auto simp: visiting_def numeral_2_eq_2)
  have "hd API_ONLY \<in> set load_scenarios" by (simp add: load_scenarios_def API_ONLY_def)
  from suite_routes_golden [OF this _ _ s] s show ?thesis by (auto simp: visiting_def API_ONLY_def scenario_def)
qed


theorem failed_scenario_is_one_row_witness:
  "\<exists>s. run_eval broken_env ''x'' (take 2 DOCS_ONLY) None Absent = Inr s \<and> length (sm_rows s) = 2
     \<and> er_qid (sm_rows s ! 1) = ''docs-only-02'' \<and> er_error (sm_rows s ! 1) = ''down'' \<and> er_match (sm_rows s ! 1) = 0"
proof -
  obtain s where s: "run_eval broken_env ''x'' (take 2 DOCS_ONLY) None Absent = Inr s"
    by (simp add: run_eval_def broken_env_def eval_row_of_def row_state_def hydrate_contexts_def DOCS_ONLY_def load_baseline_def Let_def)
  from failed_scenario_is_one_row [OF s, of 1] s show ?thesis
    by (auto simp: DOCS_ONLY_def scenario_def broken_env_def)
qed

theorem offline_gate_verdict_witness:
  "\<exists>s. run_eval stub_env ''x'' load_scenarios None Absent = Inr s \<and> sm_match s = 1 \<and> eval_exit (\<lambda>r. r) s True True False = 0"
proof -
  have "parse_num (\<lambda>r. r) (''0.9'' @ s) = Some (JFloat (9 / 10), s)" if "stop_ok s" for s
    using that by (cases s) (auto simp: parse_num_def parse_int_part_def parse_frac_def parse_exp_def decimal_value_def
        stop_ok_def is_digit_def digit_val_def Let_def)
  then have "float_ok (\<lambda>r. ''0.9'') (\<lambda>r. r) (9 / 10)" by (simp add: float_ok_def is_digit_def digit_val_def)
  from offline_gate_verdict [OF _ _ this [folded stub_env_fields(2)], of 2 "(@)" "\<lambda>a. []" Absent 0 "''x''"] show ?thesis
    by (auto simp: mono_def load_baseline_def cost_regression_def COST_REGRESSION_LIMIT_def)
qed


definition answering_row :: eval_row where
  "answering_row = \<lparr>er_qid = ''docs-only-01'', er_match = 1, er_visited = [''retrieval_agent'', ''synthesis_agent''],
     er_expected = [''retrieval_agent'', ''synthesis_agent''], er_answer = ''the policy'', er_hit = True, er_cost = 500,
     er_contexts = [''a page''], er_question = ''what is the policy on taxpayer returns'', er_error = []\<rparr>"

definition answering_summary :: "int \<Rightarrow> summary" where
  "answering_summary b = \<lparr>sm_scenarios = 1, sm_match = 1, sm_substring_rate = 1, sm_faithfulness = None, sm_mean_cost = 500,
     sm_baseline = b, sm_regression = cost_regression (\<lambda>r. r) 500 b, sm_rows = [answering_row]\<rparr>"

lemma answering_run:
  assumes "load_baseline (\<lambda>r. r) (\<lambda>s. None) f = Inr b"
  shows "run_eval answering_env ns [hd DOCS_ONLY] None f = Inr (answering_summary b)"
proof -
  have "chunk_ordinal ''chunk-d-p3'' = Inr 3" "answer_text (\<lambda>r. r) (\<lambda>j. []) (Some ''the policy'') = ''the policy''"
    "contains (lower ''the policy'') (lower ''policy'')" by code_simp+
  then show ?thesis using assms
    by (simp add: run_eval_def answering_env_def broken_env_def eval_row_of_def row_state_def hydrate_contexts_def DOCS_ONLY_def scenario_def
        ratio_def trajectory_match_def all_in_order_subseq entry_state_def answering_summary_def answering_row_def Let_def)
qed

definition whole_fr :: "rat \<Rightarrow> string" where
  "whole_fr r = (if r = 1 then ''1.0'' else if r = 4 then ''4.0'' else ''0.0'')"

lemma whole_floats: "float_ok whole_fr (\<lambda>r. r) 1" "float_ok whole_fr (\<lambda>r. r) 4"
proof -
  have "parse_num (\<lambda>r. r) (''1.0'' @ s) = Some (JFloat 1, s)" "parse_num (\<lambda>r. r) (''4.0'' @ s) = Some (JFloat 4, s)" if "stop_ok s" for s
    using that by (cases s; auto simp: parse_num_def parse_int_part_def parse_frac_def parse_exp_def decimal_value_def
        stop_ok_def is_digit_def digit_val_def Let_def)+
  then show "float_ok whole_fr (\<lambda>r. r) 1" "float_ok whole_fr (\<lambda>r. r) 4"
    by (simp_all add: float_ok_def whole_fr_def is_digit_def digit_val_def)
qed

theorem second_run_forgives_witness:
  "\<exists>s s2 txt. run_eval answering_env ''x'' [hd DOCS_ONLY] None (FileText (dumps whole_fr (JObj [(''mean_cost_usd_e5'', JInt 100)]))) = Inr s
     \<and> CostRegressed 4 100 500 \<in> set (snd (verdict (\<lambda>r. r) s True))
     \<and> run_eval answering_env ''y'' [hd DOCS_ONLY] None (FileText txt) = Inr s2 \<and> sm_regression s2 = 0
     \<and> verdict (\<lambda>r. r) s2 True = (True, [])"
proof -
  let ?txt = "dumps whole_fr (summary_json (answering_summary 100))"
  have fl: "ev_fl answering_env = (\<lambda>r. r)" by (simp add: answering_env_def broken_env_def)
  have "loads (\<lambda>r. r) (dumps whole_fr (JObj [(''mean_cost_usd_e5'', JInt 100)])) = Inr (JObj [(''mean_cost_usd_e5'', JInt 100)])"
    by (rule loads_dumps) (simp add: dict_ok_def)
  then have "load_baseline (\<lambda>r. r) (\<lambda>s. None) (FileText (dumps whole_fr (JObj [(''mean_cost_usd_e5'', JInt 100)]))) = Inr 100"
    by (simp add: load_baseline_def get_or_def py_int_def)
  note one = answering_run [OF this, of "''x''"]
  have rd: "loads (\<lambda>r. r) ?txt = Inr (summary_json (answering_summary 100))"
    by (rule loads_dumps)
      (simp add: summary_json_def answering_summary_def row_json_def answering_row_def cost_regression_def dict_ok_def whole_floats)
  note two = answering_run [OF summary_baseline [OF rd], of "''y''"]
  have "verdict (\<lambda>r. r) (answering_summary 100) True = (False, [CostRegressed 4 100 500])"
    "sm_mean_cost (answering_summary (sm_mean_cost (answering_summary 100))) = sm_mean_cost (answering_summary 100)"
    "verdict (\<lambda>r. r) (answering_summary (sm_mean_cost (answering_summary 100))) True = (True, [])"
    by (simp_all add: verdict_def answering_summary_def cost_regression_def COST_REGRESSION_LIMIT_def TRAJECTORY_FLOOR_def Let_def)
  moreover from this have "sm_regression (answering_summary (sm_mean_cost (answering_summary 100))) = 0"
    using second_run_forgives [OF one rd [folded fl] two] by (simp add: fl COST_REGRESSION_LIMIT_def)
  ultimately show ?thesis using one two by auto
qed

end
