(* ===== verification/PolicyMatch.thy ===== *)
theory PolicyMatch
  imports Json
begin

text \<open>
  What the two policy simulations under \<open>scripts/\<close> share: wildcard patterns with \<open>*\<close> and \<open>?\<close>, matched
  as the regular expressions they are translated to, and the reading of a policy document, a JSON value
  whose members may be missing or of another type.
\<close>

section \<open>Wildcards\<close>

text \<open>
  A pattern is a list of pieces. \<open>same\<close> compares a character of the pattern with one of the text and
  \<open>wild\<close> says what a wildcard may stand for.
\<close>

datatype glob_piece = Star | AnyOne | Lit char

fun glob_match :: "(char \<Rightarrow> char \<Rightarrow> bool) \<Rightarrow> (char \<Rightarrow> bool) \<Rightarrow> glob_piece list \<Rightarrow> string \<Rightarrow> bool" where
  "glob_match same wild [] s = (s = [])"
| "glob_match same wild (Star # ps) s =
     (glob_match same wild ps s \<or> (case s of [] \<Rightarrow> False | c # r \<Rightarrow> wild c \<and> glob_match same wild (Star # ps) r))"
| "glob_match same wild (AnyOne # ps) s = (case s of [] \<Rightarrow> False | c # r \<Rightarrow> wild c \<and> glob_match same wild ps r)"
| "glob_match same wild (Lit a # ps) s = (case s of [] \<Rightarrow> False | c # r \<Rightarrow> same a c \<and> glob_match same wild ps r)"

text \<open>The texts of a piece, and of a pattern: one text per piece, put together.\<close>

inductive piece_text :: "(char \<Rightarrow> char \<Rightarrow> bool) \<Rightarrow> (char \<Rightarrow> bool) \<Rightarrow> glob_piece \<Rightarrow> string \<Rightarrow> bool" for same wild where
  star: "list_all wild s \<Longrightarrow> piece_text same wild Star s"
| any_one: "wild c \<Longrightarrow> piece_text same wild AnyOne [c]"
| lit: "same a c \<Longrightarrow> piece_text same wild (Lit a) [c]"

inductive_simps piece_text_simps:
  "piece_text same wild Star s" "piece_text same wild AnyOne s" "piece_text same wild (Lit a) s"

inductive glob_text :: "(char \<Rightarrow> char \<Rightarrow> bool) \<Rightarrow> (char \<Rightarrow> bool) \<Rightarrow> glob_piece list \<Rightarrow> string \<Rightarrow> bool" for same wild where
  nil: "glob_text same wild [] []"
| cons: "piece_text same wild p s \<Longrightarrow> glob_text same wild ps t \<Longrightarrow> glob_text same wild (p # ps) (s @ t)"

inductive_simps glob_text_simps: "glob_text same wild [] s" "glob_text same wild (p # ps) s"

lemma glob_text_match: "glob_text same wild ps s \<Longrightarrow> glob_match same wild ps s"
proof (induction rule: glob_text.induct)
  case (cons p s ps t)
  show ?case using cons.hyps(1)
  proof cases
    case star
    then show ?thesis using cons.IH by (induction s) auto
  qed (use cons.IH in auto)
qed simp

lemma glob_text_one: "piece_text same wild p [c] \<Longrightarrow> glob_text same wild ps t \<Longrightarrow> glob_text same wild (p # ps) (c # t)"
  using glob_text.cons [of same wild p "[c]" ps t] by simp

lemma glob_match_text: "glob_match same wild ps s \<Longrightarrow> glob_text same wild ps s"
proof (induction same wild ps s rule: glob_match.induct)
  case (2 same wild ps s)
  show ?case
  proof (cases "glob_match same wild ps s")
    case True
    then show ?thesis using glob_text.cons [of same wild Star "[]" ps s] "2.IH"(1) by (simp add: piece_text_simps)
  next
    case False
    then obtain c r where r: "s = c # r" "wild c" "glob_match same wild (Star # ps) r" using "2.prems" by (auto split: list.splits)
    then obtain u v where "r = u @ v" "piece_text same wild Star u" "glob_text same wild ps v"
      using "2.IH"(2) by (auto simp: glob_text_simps)
    then show ?thesis using r glob_text.cons [of same wild Star "c # u" ps v] by (simp add: piece_text_simps)
  qed
qed (auto simp: glob_text_simps(1) intro: glob_text_one piece_text.intros split: list.splits)

lemma glob_match_iff: "glob_match same wild ps s \<longleftrightarrow> glob_text same wild ps s"
  using glob_text_match glob_match_text by blast

text \<open>
  The matcher that backtracks is the relation that cuts the text into one part per piece of the pattern,
  for both comparisons the simulations use.
\<close>

theorem glob_match_sound_complete: "glob_match same wild ps s \<longleftrightarrow> glob_text same wild ps s"
  by (rule glob_match_iff)

lemma glob_match_Lits: "glob_match same wild (map Lit a @ ps) s \<longleftrightarrow> (\<exists>u v. s = u @ v \<and> list_all2 same a u \<and> glob_match same wild ps v)"
proof (induction a arbitrary: s)
  case (Cons x a)
  show ?case by (cases s) (auto simp: Cons.IH list_all2_Cons1 Cons_eq_append_conv)
qed simp

lemma glob_match_Star: "glob_match same wild (Star # ps) s \<longleftrightarrow> (\<exists>u v. s = u @ v \<and> list_all wild u \<and> glob_match same wild ps v)"
  unfolding glob_match_iff glob_text_simps piece_text_simps by blast

lemma glob_match_literal: "glob_match same wild (map Lit a) s \<longleftrightarrow> list_all2 same a s"
  using glob_match_Lits [of same wild a "[]" s] by simp

text \<open>The pieces of a pattern text.\<close>

definition piece_of :: "char \<Rightarrow> glob_piece" where
  "piece_of c = (if c = CHR ''*'' then Star else if c = CHR ''?'' then AnyOne else Lit c)"

definition literal :: "string \<Rightarrow> bool" where
  "literal s \<longleftrightarrow> CHR ''*'' \<notin> set s \<and> CHR ''?'' \<notin> set s"

lemma literal_pieces: "literal s \<Longrightarrow> map piece_of s = map Lit s"
  by (induction s) (auto simp: literal_def piece_of_def)

lemma star_piece: "map piece_of ''*'' = [Star]" by (simp add: piece_of_def)

section \<open>Reading a policy document\<close>

text \<open>\<open>v.get(k, default)\<close>, \<open>v[k]\<close>, \<open>for x in v\<close> and \<open>k in v\<close> on a value of any type.\<close>

definition json_get :: "json \<Rightarrow> string \<Rightarrow> json \<Rightarrow> json res" where
  "json_get v k dflt = (case v of JObj d \<Rightarrow> Inr (get_or d k dflt) | _ \<Rightarrow> Inl (OtherError ''AttributeError'' ''get''))"

definition json_item :: "json \<Rightarrow> string \<Rightarrow> json res" where
  "json_item v k = (case v of JObj d \<Rightarrow> (case dict_get d k of None \<Rightarrow> Inl (KeyError k) | Some x \<Rightarrow> Inr x) | _ \<Rightarrow> Inl (TypeError k))"

definition json_iter :: "json \<Rightarrow> json list res" where
  "json_iter v = (case v of JList xs \<Rightarrow> Inr xs | JObj d \<Rightarrow> Inr (map (JStr \<circ> fst) d) | JStr s \<Rightarrow> Inr (map (\<lambda>c. JStr [c]) s)
     | _ \<Rightarrow> Inl (TypeError ''iter''))"

definition json_in :: "string \<Rightarrow> json \<Rightarrow> bool res" where
  "json_in k v = (case v of JObj d \<Rightarrow> Inr (dict_get d k \<noteq> None) | JList xs \<Rightarrow> Inr (JStr k \<in> set xs) | JStr s \<Rightarrow> Inr (contains s k)
     | _ \<Rightarrow> Inl (TypeError ''in''))"

definition or_else :: "json \<Rightarrow> json \<Rightarrow> json" where
  "or_else v w = (if truthy v then v else w)"

text \<open>\<open>any\<close> over a generator: it stops at the first hit, and at the first exception.\<close>

fun any_res :: "('a \<Rightarrow> bool res) \<Rightarrow> 'a list \<Rightarrow> bool res" where
  "any_res f [] = Inr False"
| "any_res f (x # xs) = bind_res (f x) (\<lambda>b. if b then Inr True else any_res f xs)"

lemma any_res_True: "any_res f xs = Inr True \<Longrightarrow> \<exists>x \<in> set xs. f x = Inr True"
  by (induction xs) (auto simp: bind_res_eq_Inr split: if_splits)

lemma any_res_False: "any_res f xs = Inr False \<longleftrightarrow> (\<forall>x \<in> set xs. f x = Inr False)"
  by (induction xs) (auto simp: bind_res_eq_Inr)

lemma map_res_mem: "map_res f xs = Inr ys \<Longrightarrow> x \<in> set xs \<Longrightarrow> \<exists>y \<in> set ys. f x = Inr y"
  by (induction xs arbitrary: ys) (auto split: sum.splits)

lemma bind_res_InrE: "bind_res r f = Inr b \<Longrightarrow> (\<And>a. r = Inr a \<Longrightarrow> f a = Inr b \<Longrightarrow> P) \<Longrightarrow> P"
  by (cases r) auto

end
