(* ===== verification/BudgetDeny.thy ===== *)
theory BudgetDeny
  imports PolicyMatch
begin

text \<open>
  \<open>taxcalc-agent-svc/scripts/simulate_budget_deny.py\<close>: whether the policy a budget action attaches
  stops the spending, decided on the committed template. The template is the value the YAML reader gives
  for the file, with a reference \<open>!Ref X\<close> as the mapping from \<open>Ref\<close> to \<open>X\<close>; printing is left out.
\<close>

section \<open>Matching\<close>

text \<open>Case is ignored as \<open>re.IGNORECASE\<close> does on code points below 256; the dot stops at a line break.\<close>

definition fold_case :: "char \<Rightarrow> char" where
  "fold_case c =
     (let n = of_char c :: nat
      in if 65 \<le> n \<and> n \<le> 90 \<or> 192 \<le> n \<and> n \<le> 214 \<or> 216 \<le> n \<and> n \<le> 222 then char_of (n + 32) else c)"

definition same_fold :: "char \<Rightarrow> char \<Rightarrow> bool" where
  "same_fold a c \<longleftrightarrow> fold_case a = fold_case c"

definition no_break :: "char \<Rightarrow> bool" where
  "no_break c \<longleftrightarrow> c \<noteq> CHR 0x0A"

text \<open>A pattern is iterated: of a text the characters, of a list or a mapping the members, which must be texts.\<close>

definition pattern_pieces :: "json \<Rightarrow> glob_piece list res" where
  "pattern_pieces v = bind_res (json_iter v) (\<lambda>es. bind_res
     (map_res (\<lambda>e. case e of JStr s \<Rightarrow> Inr (if s = ''*'' then [Star] else if s = ''?'' then [AnyOne] else map Lit s)
               | _ \<Rightarrow> Inl (TypeError ''escape'')) es) (\<lambda>ps. Inr (concat ps)))"

(* src/taxcalc-agent-svc/scripts/simulate_budget_deny.py:118-135 _matches *)
definition matches :: "json \<Rightarrow> string \<Rightarrow> bool res" where
  "matches pat s = bind_res (pattern_pieces pat) (\<lambda>ps. Inr (glob_match same_fold no_break ps s))"

section \<open>The decision\<close>

text \<open>\<open>st.get(k) or []\<close>, a text standing for the list of it.\<close>

definition member_patterns :: "json \<Rightarrow> string \<Rightarrow> json res" where
  "member_patterns st k = bind_res (json_get st k JNull) (\<lambda>v. Inr (case or_else v (JList []) of JStr s \<Rightarrow> JList [JStr s] | w \<Rightarrow> w))"

(* src/taxcalc-agent-svc/scripts/simulate_budget_deny.py:151-161 statement of decide *)
definition statement_denies :: "json \<Rightarrow> string \<Rightarrow> string \<Rightarrow> bool res" where
  "statement_denies st action resource =
     bind_res (json_get st ''Effect'' JNull) (\<lambda>effect.
       if effect \<noteq> JStr ''Deny'' then Inr False
       else bind_res (member_patterns st ''Action'') (\<lambda>actions.
         bind_res (member_patterns st ''Resource'') (\<lambda>resources.
           bind_res (bind_res (json_iter actions) (any_res (\<lambda>p. matches p action))) (\<lambda>hit.
             if hit then bind_res (json_iter resources) (any_res (\<lambda>p. matches p resource)) else Inr False))))"

(* src/taxcalc-agent-svc/scripts/simulate_budget_deny.py:138-162 decide *)
fun decide :: "json list \<Rightarrow> string \<Rightarrow> string \<Rightarrow> string res" where
  "decide [] action resource = Inr ''NotDenied''"
| "decide (st # sts) action resource =
     bind_res (statement_denies st action resource) (\<lambda>hit. if hit then Inr ''Deny'' else decide sts action resource)"

section \<open>The template\<close>

text \<open>\<open>params.get(x, x)\<close>: a container is no key.\<close>

definition ref_value :: "jdict \<Rightarrow> json \<Rightarrow> json res" where
  "ref_value params x = (case x of JStr s \<Rightarrow> Inr (get_or params s x)
     | JList xs \<Rightarrow> Inl (TypeError ''unhashable'') | JObj d \<Rightarrow> Inl (TypeError ''unhashable'') | _ \<Rightarrow> Inr x)"

(* src/taxcalc-agent-svc/scripts/simulate_budget_deny.py:100-112 load_policy_statements.resolve *)
fun resolve :: "jdict \<Rightarrow> json \<Rightarrow> json res"
  and resolve_elems :: "jdict \<Rightarrow> json list \<Rightarrow> json list res"
  and resolve_fields :: "jdict \<Rightarrow> (string \<times> json) list \<Rightarrow> (string \<times> json) list res" where
  "resolve params (JObj d) =
     (case d of
        [(k, v)] \<Rightarrow> (if k = ''Ref'' then ref_value params v else bind_res (resolve_fields params d) (\<lambda>e. Inr (JObj e)))
      | _ \<Rightarrow> bind_res (resolve_fields params d) (\<lambda>e. Inr (JObj e)))"
| "resolve params (JList xs) = bind_res (resolve_elems params xs) (\<lambda>ys. Inr (JList ys))"
| "resolve params v = Inr v"
| "resolve_elems params [] = Inr []"
| "resolve_elems params (x # xs) = bind_res (resolve params x) (\<lambda>y. bind_res (resolve_elems params xs) (\<lambda>ys. Inr (y # ys)))"
| "resolve_fields params [] = Inr []"
| "resolve_fields params ((k, v) # d) = bind_res (resolve params v) (\<lambda>w. bind_res (resolve_fields params d) (\<lambda>e. Inr ((k, w) # e)))"

text \<open>\<open>(doc.get(k) or {}).items()\<close>, and \<open>.get\<close> below a member.\<close>

definition member_items :: "json \<Rightarrow> string \<Rightarrow> jdict res" where
  "member_items doc k = bind_res (json_get doc k JNull) (\<lambda>v. case or_else v (JObj []) of
     JObj d \<Rightarrow> Inr d | _ \<Rightarrow> Inl (OtherError ''AttributeError'' ''items''))"

definition member_get :: "json \<Rightarrow> string \<Rightarrow> string \<Rightarrow> json res" where
  "member_get doc k name = bind_res (json_get doc k JNull) (\<lambda>v. json_get (or_else v (JObj [])) name JNull)"

(* src/taxcalc-agent-svc/scripts/simulate_budget_deny.py:44-115 load_policy_statements *)
definition load_policy_statements :: "json \<Rightarrow> json list res" where
  "load_policy_statements doc =
     bind_res (member_items doc ''Parameters'') (\<lambda>ps.
       bind_res (map_res (\<lambda>(k, v). bind_res (json_get v ''Default'' JNull) (\<lambda>x. Inr (k, x))) ps) (\<lambda>params.
         bind_res (member_get doc ''Resources'' ''DenyLlmSpendPolicy'') (\<lambda>policy.
           if policy = JNull then Inl (OtherError ''SystemExit'' ''DenyLlmSpendPolicy is not in the template'')
           else bind_res (json_item policy ''Properties'') (\<lambda>props.
             bind_res (json_item props ''PolicyDocument'') (\<lambda>d.
               bind_res (json_item d ''Statement'') (\<lambda>sts.
                 bind_res (resolve params sts) json_iter))))))"

text \<open>The failures by what they quote; a number equals another whatever its type.\<close>

datatype cap_failure = NoHardStop | ThresholdValue json | ThresholdType json | Approval json | Notification json | ActionKind json | PolicyRef json

definition is_number :: "int \<Rightarrow> json \<Rightarrow> bool" where
  "is_number n v = (case v of JInt i \<Rightarrow> i = n | JFloat r \<Rightarrow> r = of_int n | JBool b \<Rightarrow> n = (if b then 1 else 0) | _ \<Rightarrow> False)"

definition fault_unless :: "bool \<Rightarrow> 'a \<Rightarrow> 'a list" where
  "fault_unless b x = (if b then [] else [x])"

(* src/taxcalc-agent-svc/scripts/simulate_budget_deny.py:199-227 checks of check_action_config *)
definition action_faults :: "json \<Rightarrow> cap_failure list res" where
  "action_faults props =
     bind_res (json_get props ''ActionThreshold'' JNull) (\<lambda>th.
       bind_res (json_get (or_else th (JObj [])) ''Value'' JNull) (\<lambda>v.
         bind_res (json_get (or_else th (JObj [])) ''Type'' JNull) (\<lambda>t.
           bind_res (json_get props ''ApprovalModel'' JNull) (\<lambda>ap.
             bind_res (json_get props ''NotificationType'' JNull) (\<lambda>nt.
               bind_res (json_get props ''ActionType'' JNull) (\<lambda>kd.
                 bind_res (json_get props ''Definition'' JNull) (\<lambda>df.
                   bind_res (json_get (or_else df (JObj [])) ''IamActionDefinition'' (JObj [])) (\<lambda>iam.
                     bind_res (json_get iam ''PolicyArn'' JNull) (\<lambda>arn.
                       Inr (fault_unless (is_number 100 v) (ThresholdValue v) @ fault_unless (t = JStr ''PERCENTAGE'') (ThresholdType t)
                            @ fault_unless (ap = JStr ''AUTOMATIC'') (Approval ap) @ fault_unless (nt = JStr ''ACTUAL'') (Notification nt)
                            @ fault_unless (kd = JStr ''APPLY_IAM_POLICY'') (ActionKind kd)
                            @ fault_unless (case arn of JObj d \<Rightarrow> get_or d ''Ref'' JNull = JStr ''DenyLlmSpendPolicy'' | _ \<Rightarrow> False)
                                (PolicyRef arn)))))))))))"

(* src/taxcalc-agent-svc/scripts/simulate_budget_deny.py:165-226 check_action_config *)
definition check_action_config :: "json \<Rightarrow> cap_failure list res" where
  "check_action_config doc =
     bind_res (member_get doc ''Resources'' ''BudgetHardStop'') (\<lambda>action.
       if action = JNull then Inr [NoHardStop] else bind_res (json_item action ''Properties'') action_faults)"

section \<open>The cases\<close>

(* src/taxcalc-agent-svc/scripts/simulate_budget_deny.py:246-249 secret in main *)
definition SECRET :: string where
  "SECRET = ''arn:aws:secretsmanager:us-east-1:123456789012:secret:taxcalc/agent-svc/anthropic-AbC123''"

(* src/taxcalc-agent-svc/scripts/simulate_budget_deny.py:250-250 other_secret in main *)
definition OTHER_SECRET :: string where
  "OTHER_SECRET = ''arn:aws:secretsmanager:us-east-1:123456789012:secret:taxcalc/orders/db-XyZ789''"

(* src/taxcalc-agent-svc/scripts/simulate_budget_deny.py:251-251 proxy in main *)
definition PROXY :: string where
  "PROXY = ''arn:aws:execute-api:us-east-1:123456789012:abc123/prod/POST/v1/completions''"

(* src/taxcalc-agent-svc/scripts/simulate_budget_deny.py:254-267 cases in main *)
definition cap_cases :: "(string \<times> string \<times> string) list" where
  "cap_cases =
     [(''secretsmanager:GetSecretValue'', SECRET, ''Deny''),
      (''execute-api:Invoke'', PROXY, ''Deny''),
      (''secretsmanager:GetSecretValue'', OTHER_SECRET, ''NotDenied''),
      (''sqs:ReceiveMessage'', ''arn:aws:sqs:us-east-1:123456789012:taxcalc-events'', ''NotDenied''),
      (''secretsmanager:DescribeSecret'', SECRET, ''NotDenied'')]"

(* src/taxcalc-agent-svc/scripts/simulate_budget_deny.py:229-285 main *)
definition cap_main :: "json \<Rightarrow> int res" where
  "cap_main doc =
     bind_res (check_action_config doc) (\<lambda>config_failures.
       bind_res (load_policy_statements doc) (\<lambda>statements.
         bind_res (map_res (\<lambda>(action, resource, expected). bind_res (decide statements action resource) (\<lambda>got. Inr (got = expected))) cap_cases) (\<lambda>oks.
           let failures = length config_failures + length (filter (\<lambda>ok. \<not> ok) oks)
           in Inr (if failures \<noteq> 0 then 1 else 0))))"

section \<open>The committed template\<close>

definition ref :: "string \<Rightarrow> json" where "ref x = JObj [(''Ref'', JStr x)]"

definition KEY_READ :: string where "KEY_READ = ''secretsmanager:GetSecretValue''"

definition PROXY_INVOKE :: string where "PROXY_INVOKE = ''execute-api:Invoke''"

text \<open>The members the simulation reads and their neighbours; the descriptions and the budget itself are left out.\<close>

(* src/taxcalc-agent-svc/cfn/agent-svc-budget.yaml:98-112 PolicyDocument *)
definition DENY_DOCUMENT :: json where
  "DENY_DOCUMENT = JObj
     [(''Version'', JStr ''2012-10-17''),
      (''Statement'', JList
        [JObj [(''Sid'', JStr ''DenyAnthropicKeyRead''), (''Effect'', JStr ''Deny''),
               (''Action'', JList [JStr KEY_READ]), (''Resource'', ref ''AnthropicSecretArn'')],
         JObj [(''Sid'', JStr ''DenyLlmProxyInvoke''), (''Effect'', JStr ''Deny''),
               (''Action'', JList [JStr PROXY_INVOKE]), (''Resource'', ref ''LlmProxyApiArn'')]])]"

(* src/taxcalc-agent-svc/cfn/agent-svc-budget.yaml:152-180 BudgetHardStop *)
definition HARD_STOP :: json where
  "HARD_STOP = JObj
     [(''Type'', JStr ''AWS::Budgets::BudgetsAction''),
      (''Properties'', JObj
        [(''BudgetName'', JStr ''taxcalc-agent-anthropic-monthly''), (''ActionType'', JStr ''APPLY_IAM_POLICY''),
         (''ActionThreshold'', JObj [(''Value'', JInt 100), (''Type'', JStr ''PERCENTAGE'')]),
         (''ApprovalModel'', JStr ''AUTOMATIC''), (''ExecutionRoleArn'', ref ''BudgetsActionRoleArn''),
         (''NotificationType'', JStr ''ACTUAL''),
         (''Subscribers'', JList [JObj [(''Type'', JStr ''EMAIL''), (''Address'', ref ''NotificationEmail'')]]),
         (''Definition'', JObj [(''IamActionDefinition'', JObj
            [(''PolicyArn'', ref ''DenyLlmSpendPolicy''), (''Roles'', JList [ref ''ServiceRoleName''])])])]),
      (''DependsOn'', JStr ''AgentSvcMonthlyBudget'')]"

definition SECRET_PREFIX :: string where
  "SECRET_PREFIX = ''arn:aws:secretsmanager:us-east-1:123456789012:secret:taxcalc/agent-svc/anthropic-''"

definition PROXY_PREFIX :: string where "PROXY_PREFIX = ''arn:aws:execute-api:us-east-1:123456789012:''"

definition PROXY_SUFFIX :: string where "PROXY_SUFFIX = ''/POST/v1/completions''"

(* src/taxcalc-agent-svc/cfn/agent-svc-budget.yaml:32-64 Parameters *)
definition PARAMETERS :: json where
  "PARAMETERS = JObj
     [(''MonthlyBudgetUsd'', JObj [(''Type'', JStr ''Number''), (''Default'', JInt 4000), (''MinValue'', JInt 1)]),
      (''ServiceRoleName'', JObj [(''Type'', JStr ''String''), (''Default'', JStr ''taxcalc-agent-svc-role'')]),
      (''AnthropicSecretArn'', JObj [(''Type'', JStr ''String''), (''Default'', JStr (SECRET_PREFIX @ ''*''))]),
      (''LlmProxyApiArn'', JObj [(''Type'', JStr ''String''), (''Default'', JStr (PROXY_PREFIX @ ''*'' @ ''/'' @ ''*'' @ PROXY_SUFFIX))]),
      (''BudgetsActionRoleArn'', JObj [(''Type'', JStr ''String''), (''Default'', JStr ''arn:aws:iam::123456789012:role/AWSBudgetsActionExecution'')]),
      (''NotificationEmail'', JObj [(''Type'', JStr ''String''), (''Default'', JStr ''taxcalc-oncall@example.com'')])]"

definition template :: "json \<Rightarrow> json \<Rightarrow> json" where
  "template document stop = JObj
     [(''AWSTemplateFormatVersion'', JStr ''2010-09-09''), (''Parameters'', PARAMETERS),
      (''Resources'', JObj
        [(''DenyLlmSpendPolicy'', JObj [(''Type'', JStr ''AWS::IAM::ManagedPolicy''),
            (''Properties'', JObj [(''ManagedPolicyName'', JStr ''DenyLlmProxyInvoke''), (''PolicyDocument'', document)])]),
         (''BudgetHardStop'', stop)])]"

section \<open>What the committed policy denies\<close>

definition folds_to :: "string \<Rightarrow> string \<Rightarrow> bool" where
  "folds_to s a \<longleftrightarrow> map fold_case s = map fold_case a"

lemma list_all2_same_fold: "list_all2 same_fold a s \<longleftrightarrow> folds_to s a"
  by (induction a arbitrary: s) (auto simp: folds_to_def same_fold_def list_all2_Cons1 map_eq_Cons_conv)

lemma pattern_pieces_text: "pattern_pieces (JStr s) = Inr (map piece_of s)"
proof -
  have "map_res (\<lambda>e. case e of JStr s \<Rightarrow> Inr (if s = ''*'' then [Star] else if s = ''?'' then [AnyOne] else map Lit s)
      | _ \<Rightarrow> Inl (TypeError ''escape'')) (map (\<lambda>c. JStr [c]) s) = Inr (map (\<lambda>c. [piece_of c]) s)"
    by (induction s) (auto simp: piece_of_def)
  then show ?thesis by (simp add: pattern_pieces_def json_iter_def)
qed

lemma literals: "literal SECRET_PREFIX" "literal PROXY_PREFIX" "literal PROXY_SUFFIX" "literal KEY_READ" "literal PROXY_INVOKE" "literal ''/''"
  by (simp_all add: literal_def SECRET_PREFIX_def PROXY_PREFIX_def PROXY_SUFFIX_def KEY_READ_def PROXY_INVOKE_def)

lemma matches_text: "matches (JStr p) s = Inr (glob_match same_fold no_break (map piece_of p) s)"
  by (simp add: matches_def pattern_pieces_text)

lemma fold_case_slash: "fold_case c = CHR ''/'' \<longleftrightarrow> c = CHR ''/''"
proof
  assume c: "fold_case c = CHR ''/''"
  show "c = CHR ''/''"
  proof (cases "fold_case c = c")
    case False
    then have "(of_char (fold_case c) :: nat) = of_char c + 32" "65 \<le> (of_char c :: nat)"
      by (auto simp: fold_case_def Let_def of_char_of split: if_splits)
    then show ?thesis unfolding c by simp
  qed (use c in simp)
qed (simp add: fold_case_def)

lemma list_all_no_break: "list_all no_break s \<longleftrightarrow> CHR 0x0A \<notin> set s"
  by (induction s) (auto simp: no_break_def)

lemma matches_literal: "literal p \<Longrightarrow> matches (JStr p) s = Inr (folds_to s p)"
  unfolding matches_text literal_pieces glob_match_literal list_all2_same_fold ..

definition secret_covered :: "string \<Rightarrow> bool" where
  "secret_covered r \<longleftrightarrow> (\<exists>u v. r = u @ v \<and> folds_to u SECRET_PREFIX \<and> CHR 0x0A \<notin> set v)"

definition proxy_covered :: "string \<Rightarrow> bool" where
  "proxy_covered r \<longleftrightarrow> (\<exists>u x y w. r = u @ x @ ''/'' @ y @ w \<and> folds_to u PROXY_PREFIX \<and> folds_to w PROXY_SUFFIX
     \<and> CHR 0x0A \<notin> set x \<and> CHR 0x0A \<notin> set y)"

lemma matches_secret: "matches (JStr (SECRET_PREFIX @ ''*'')) r = Inr (secret_covered r)"
  unfolding matches_text map_append literal_pieces [OF literals(1)] star_piece glob_match_Lits glob_match_Star list_all2_same_fold
    list_all_no_break secret_covered_def
  by simp

lemma matches_proxy: "matches (JStr (PROXY_PREFIX @ ''*'' @ ''/'' @ ''*'' @ PROXY_SUFFIX)) r = Inr (proxy_covered r)"
proof -
  have slash: "folds_to u ''/'' \<longleftrightarrow> u = ''/''" for u
  proof -
    have e: "fold_case CHR ''/'' = CHR ''/''" by (simp add: fold_case_slash)
    show ?thesis by (cases u) (auto simp: folds_to_def e fold_case_slash)
  qed
  have star_app: "glob_match same_fold no_break ([Star] @ ps) s \<longleftrightarrow> (\<exists>u v. s = u @ v \<and> list_all no_break u \<and> glob_match same_fold no_break ps v)" for ps s
    using glob_match_Star by simp
  have "matches (JStr (PROXY_PREFIX @ ''*'' @ ''/'' @ ''*'' @ PROXY_SUFFIX)) r = Inr
      (\<exists>u v. r = u @ v \<and> folds_to u PROXY_PREFIX \<and> (\<exists>x v'. v = x @ v' \<and> CHR 0x0A \<notin> set x \<and> (\<exists>d z. v' = d @ z \<and> d = ''/''
         \<and> (\<exists>y w. z = y @ w \<and> CHR 0x0A \<notin> set y \<and> folds_to w PROXY_SUFFIX))))"
    unfolding matches_text map_append literals [THEN literal_pieces] star_piece glob_match_Lits star_app
      glob_match_literal list_all2_same_fold list_all_no_break slash ..
  also have "\<dots> = Inr (proxy_covered r)"
    unfolding proxy_covered_def by (rule arg_cong [where f = Inr], rule iffI; elim exE conjE; hypsubst; blast)
  finally show ?thesis .
qed

lemma committed_statements:
  "load_policy_statements (template DENY_DOCUMENT stop) = Inr
     [JObj [(''Sid'', JStr ''DenyAnthropicKeyRead''), (''Effect'', JStr ''Deny''),
            (''Action'', JList [JStr KEY_READ]), (''Resource'', JStr (SECRET_PREFIX @ ''*''))],
      JObj [(''Sid'', JStr ''DenyLlmProxyInvoke''), (''Effect'', JStr ''Deny''),
            (''Action'', JList [JStr PROXY_INVOKE]), (''Resource'', JStr (PROXY_PREFIX @ ''*'' @ ''/'' @ ''*'' @ PROXY_SUFFIX))]]"
  by (simp add: load_policy_statements_def template_def DENY_DOCUMENT_def PARAMETERS_def member_items_def member_get_def json_get_def json_item_def
      json_iter_def or_else_def get_or_def ref_def ref_value_def)

text \<open>
  C15. What the cap stops: on the committed template the decision is defined for every action and resource, and
  it is a denial exactly for the two actions on the two resources the policy names, up to case and with
  whatever the wildcards stand for.
\<close>

theorem committed_cap_exact:
  "\<exists>sts. load_policy_statements (template DENY_DOCUMENT HARD_STOP) = Inr sts
     \<and> (\<forall>a r. decide sts a r = Inr
          (if folds_to a KEY_READ \<and> secret_covered r \<or> folds_to a PROXY_INVOKE \<and> proxy_covered r
           then ''Deny'' else ''NotDenied''))"
  unfolding committed_statements
  by (simp add: statement_denies_def json_get_def get_or_def member_patterns_def or_else_def json_iter_def matches_literal literals
      matches_secret matches_proxy del: append_Cons append_Nil)

section \<open>The rule of the explicit denial\<close>

lemma decide_NotDenied: "decide sts a r = Inr ''NotDenied'' \<longleftrightarrow> (\<forall>st \<in> set sts. statement_denies st a r = Inr False)"
  by (induction sts) (auto simp: bind_res_eq_Inr)

lemma decide_Deny: "decide sts a r = Inr ''Deny'' \<Longrightarrow> \<exists>st \<in> set sts. statement_denies st a r = Inr True"
  by (induction sts) (auto simp: bind_res_eq_Inr split: if_splits)

lemma decide_result: "decide sts a r = Inr u \<Longrightarrow> u = ''Deny'' \<or> u = ''NotDenied''"
  by (induction sts) (auto simp: bind_res_eq_Inr split: if_splits)

lemma decide_iff: "decide sts a r = Inr u \<Longrightarrow> u = ''Deny'' \<longleftrightarrow> (\<exists>st \<in> set sts. statement_denies st a r = Inr True)"
proof (cases "u = ''Deny''")
  case False
  assume "decide sts a r = Inr u"
  with decide_result [OF this] False have "\<forall>st \<in> set sts. statement_denies st a r = Inr False" using decide_NotDenied by simp
  with False show ?thesis by simp
qed (use decide_Deny in blast)

lemma decide_append: "decide xs a r = Inr ''Deny'' \<Longrightarrow> decide (xs @ zs) a r = Inr ''Deny''"
proof (induction xs)
  case (Cons st xs)
  then show ?case by (cases "statement_denies st a r") (auto split: if_splits)
qed simp

text \<open>
  An explicit denial wins wherever it stands: two orders of the same statements that are both evaluated
  to a decision are decided the same, a decision is a denial exactly when some statement denies, and a
  statement that is added cannot lift a denial.
\<close>

theorem denial_order_free:
  assumes "mset xs = mset ys" and "decide xs a r = Inr u" and "decide ys a r = Inr v"
  shows "u = v \<and> (u = ''Deny'' \<longleftrightarrow> (\<exists>st \<in> set xs. statement_denies st a r = Inr True))
    \<and> (u = ''Deny'' \<longrightarrow> decide (xs @ zs) a r = Inr ''Deny'')"
proof -
  have set: "set xs = set ys" using assms(1) by (rule mset_eq_setD)
  have "u = ''Deny'' \<longleftrightarrow> v = ''Deny''" using decide_iff [OF assms(2)] decide_iff [OF assms(3)] by (simp only: set)
  then have "u = v" using decide_result [OF assms(2)] decide_result [OF assms(3)] by (elim disjE) (simp_all only: simp_thms)
  then show ?thesis using assms(2) decide_iff [OF assms(2)] decide_append [of xs a r zs] by blast
qed

section \<open>What a green run has checked\<close>

lemma fault_unless_Nil: "fault_unless b x = [] \<longleftrightarrow> b"
  by (simp add: fault_unless_def)

lemma json_get_Inr: "json_get v k d = Inr x \<longleftrightarrow> (\<exists>e. v = JObj e \<and> x = get_or e k d)"
  by (auto simp: json_get_def split: json.splits)

lemma json_item_Inr: "json_item v k = Inr x \<longleftrightarrow> (\<exists>e. v = JObj e \<and> dict_get e k = Some x)"
  by (auto simp: json_item_def split: json.splits option.splits)

lemma check_action_config_Nil:
  assumes "check_action_config doc = Inr []"
  obtains action props th where "member_get doc ''Resources'' ''BudgetHardStop'' = Inr action" "json_item action ''Properties'' = Inr (JObj props)"
    "get_or props ''ApprovalModel'' JNull = JStr ''AUTOMATIC''" "get_or props ''NotificationType'' JNull = JStr ''ACTUAL''"
    "get_or props ''ActionType'' JNull = JStr ''APPLY_IAM_POLICY''" "or_else (get_or props ''ActionThreshold'' JNull) (JObj []) = JObj th"
    "is_number 100 (get_or th ''Value'' JNull)" "get_or th ''Type'' JNull = JStr ''PERCENTAGE''"
proof -
  from assms obtain action where m: "member_get doc ''Resources'' ''BudgetHardStop'' = Inr action" and "action \<noteq> JNull"
    and k: "bind_res (json_item action ''Properties'') action_faults = Inr []"
    unfolding check_action_config_def by (elim bind_res_InrE) (auto split: if_splits)
  then obtain props where q: "json_item action ''Properties'' = Inr props" and r: "action_faults props = Inr []" by (elim bind_res_InrE)
  from r obtain threshold v t ap nt kd where p: "json_get props ''ActionThreshold'' JNull = Inr threshold"
      "json_get (or_else threshold (JObj [])) ''Value'' JNull = Inr v" "json_get (or_else threshold (JObj [])) ''Type'' JNull = Inr t"
      "json_get props ''ApprovalModel'' JNull = Inr ap" "json_get props ''NotificationType'' JNull = Inr nt" "json_get props ''ActionType'' JNull = Inr kd"
    and f: "is_number 100 v" "t = JStr ''PERCENTAGE''" "ap = JStr ''AUTOMATIC''" "nt = JStr ''ACTUAL''" "kd = JStr ''APPLY_IAM_POLICY''"
    unfolding action_faults_def by (elim bind_res_InrE) (simp only: sum.inject append_is_Nil_conv fault_unless_Nil simp_thms; elim conjE; blast)
  obtain e where e: "props = JObj e" "threshold = get_or e ''ActionThreshold'' JNull" using p(1) by (auto simp: json_get_Inr)
  obtain th where th: "or_else threshold (JObj []) = JObj th" using p(2) by (auto simp: json_get_Inr)
  show thesis
    by (rule that [of action e th]) (use m q p f e th in \<open>simp_all add: json_get_Inr\<close>)
qed


definition committed_template :: json where
  "committed_template = template DENY_DOCUMENT HARD_STOP"

lemma committed_main: "cap_main committed_template = Inr 0"
  by code_simp


definition wide_deny :: json where
  "wide_deny = JObj [(''Effect'', JStr ''Deny''), (''Action'', JStr ''*''), (''Resource'', JStr ''*'')]"

definition idle_allow :: json where
  "idle_allow = JObj [(''Effect'', JStr ''Allow''), (''Action'', JStr ''*''), (''Resource'', JStr ''*'')]"

theorem denial_order_free_witness:
  "decide [wide_deny, idle_allow] ''s:A'' ''arn'' = decide [idle_allow, wide_deny] ''s:A'' ''arn''
   \<and> decide [idle_allow, wide_deny, idle_allow] ''s:A'' ''arn'' = Inr ''Deny''"
proof -
  have d: "decide [wide_deny, idle_allow] ''s:A'' ''arn'' = Inr ''Deny''" "decide [idle_allow, wide_deny] ''s:A'' ''arn'' = Inr ''Deny''"
    by code_simp+
  show ?thesis using denial_order_free [OF _ d(2) d(2), of "[idle_allow]"] d by simp
qed

text \<open>
  A statement with a condition, or with \<open>NotResource\<close> beside a resource, is decided as if it had none,
  and a resource that differs in the case of a letter is denied too.
\<close>

lemma condition_ignored:
  "statement_denies (JObj (d @ [(''Condition'', c)])) a r = statement_denies (JObj d) a r"
  by (simp add: statement_denies_def json_get_def get_or_def dict_get_def member_patterns_def map_add_def split: option.splits)

lemma arn_case_folded: "secret_covered (''ARN'' @ drop 3 SECRET_PREFIX @ ''x'')"
  unfolding secret_covered_def
  by (rule exI [of _ "''ARN'' @ drop 3 SECRET_PREFIX"], rule exI [of _ "''x''"]) (simp add: folds_to_def SECRET_PREFIX_def fold_case_def char_of_eqI)

lemma manual_is_no_cap:
  "check_action_config (template DENY_DOCUMENT (JObj [(''Properties'', JObj [(''ApprovalModel'', JStr ''MANUAL'')])]))
   = Inr [ThresholdValue JNull, ThresholdType JNull, Approval (JStr ''MANUAL''), Notification JNull, ActionKind JNull, PolicyRef JNull]"
  by code_simp

end
