(* ===== verification/TrustPolicy.thy ===== *)
theory TrustPolicy
  imports PolicyMatch
begin

text \<open>
  \<open>scripts/oidc-trust-simulate.py\<close>: whether a token's subject and audience are allowed to assume a role
  under the trust policies committed in \<open>infra/oidc\<close>, and the exit code of the run over its cases.
  \<open>rp\<close> is \<open>repr\<close>; printing is left out.
\<close>

section \<open>The claims\<close>

(* src/scripts/oidc-trust-simulate.py:47-47 AUD_KEY *)
definition AUD_KEY :: string where "AUD_KEY = ''token.actions.githubusercontent.com:aud''"

(* src/scripts/oidc-trust-simulate.py:48-48 SUB_KEY *)
definition SUB_KEY :: string where "SUB_KEY = ''token.actions.githubusercontent.com:sub''"

(* src/scripts/oidc-trust-simulate.py:52-53 _as_list *)
definition as_list :: "json \<Rightarrow> json list" where
  "as_list v = (case v of JList xs \<Rightarrow> xs | _ \<Rightarrow> [v])"

(* src/scripts/oidc-trust-simulate.py:56-58 string_equals *)
definition string_equals :: "string \<Rightarrow> json \<Rightarrow> bool" where
  "string_equals claim allowed = list_ex (\<lambda>a. a = JStr claim) (as_list allowed)"

text \<open>\<open>fnmatchcase\<close> on a pattern without brackets: case matters and a wildcard stands for any character.\<close>

definition fnmatchcase :: "string \<Rightarrow> string \<Rightarrow> bool" where
  "fnmatchcase s pat = glob_match (=) (\<lambda>c. True) (map piece_of pat) s"

definition like_one :: "string \<Rightarrow> json \<Rightarrow> bool res" where
  "like_one claim pat =
     bind_res (json_in ''['' pat) (\<lambda>l. bind_res (if l then Inr True else json_in '']'' pat) (\<lambda>bracket.
       if bracket then Inl (ValueError ''bracket'')
       else case pat of JStr p \<Rightarrow> Inr (fnmatchcase claim p) | _ \<Rightarrow> Inl (TypeError ''pattern'')))"

(* src/scripts/oidc-trust-simulate.py:61-76 string_like *)
definition string_like :: "string \<Rightarrow> json \<Rightarrow> bool res" where
  "string_like claim allowed = any_res (like_one claim) (as_list allowed)"

section \<open>A statement, a policy\<close>

definition ASSUME :: string where "ASSUME = ''sts:AssumeRoleWithWebIdentity''"

definition PROVIDER :: string where "PROVIDER = ''/token.actions.githubusercontent.com''"

definition ends_with :: "string \<Rightarrow> string \<Rightarrow> bool" where
  "ends_with s x \<longleftrightarrow> starts_with (rev s) (rev x)"

text \<open>A statement is passed over, refused with its reason, or the one that allows.\<close>

datatype stmt_verdict = Skipped | Refused string | Matched string

text \<open>\<open>key in c and not ok(c[key])\<close>, and the branches on where the subject's condition stands.\<close>

definition member_holds :: "json \<Rightarrow> string \<Rightarrow> (json \<Rightarrow> bool res) \<Rightarrow> (bool \<times> json) res" where
  "member_holds c key ok = bind_res (json_item c key) (\<lambda>v. bind_res (ok v) (\<lambda>b. Inr (b, v)))"

definition aud_refused :: "json \<Rightarrow> string \<Rightarrow> json option res" where
  "aud_refused eq aud = bind_res (json_in AUD_KEY eq) (\<lambda>has. if has
     then bind_res (member_holds eq AUD_KEY (\<lambda>v. Inr (string_equals aud v))) (\<lambda>(b, v). Inr (if b then None else Some v)) else Inr None)"

(* src/scripts/oidc-trust-simulate.py:102-116 subject of evaluate *)
definition judge_subject :: "(json \<Rightarrow> string) \<Rightarrow> json \<Rightarrow> json \<Rightarrow> json \<Rightarrow> string \<Rightarrow> stmt_verdict res" where
  "judge_subject rp st eq like sub =
     bind_res (json_get st ''Sid'' (JStr ''<no Sid>'')) (\<lambda>sid.
       let found = Matched (''matched statement '' @ rp sid) in
       bind_res (json_in SUB_KEY eq) (\<lambda>in_eq.
         if in_eq then bind_res (member_holds eq SUB_KEY (\<lambda>v. Inr (string_equals sub v))) (\<lambda>(b, v).
            Inr (if b then found else Refused (''sub '' @ rp (JStr sub) @ '' does not StringEquals '' @ rp v)))
         else bind_res (json_in SUB_KEY like) (\<lambda>in_like.
            if in_like then bind_res (member_holds like SUB_KEY (string_like sub)) (\<lambda>(b, v).
               Inr (if b then found else Refused (''sub '' @ rp (JStr sub) @ '' does not StringLike '' @ rp v)))
            else Inr (Refused ''NO sub condition - policy would trust every GitHub repo''))))"

(* src/scripts/oidc-trust-simulate.py:90-116 provider of evaluate *)
definition judge_provider :: "(json \<Rightarrow> string) \<Rightarrow> json \<Rightarrow> string \<Rightarrow> string \<Rightarrow> json \<Rightarrow> stmt_verdict res" where
  "judge_provider rp st sub aud fed = (case fed of
     JStr f \<Rightarrow>
       (if \<not> ends_with f PROVIDER then Inr (Refused (''Principal.Federated '' @ rp fed @ '' is not the GitHub OIDC provider''))
        else bind_res (json_get st ''Condition'' (JObj [])) (\<lambda>cond.
          bind_res (json_get cond ''StringEquals'' (JObj [])) (\<lambda>eq.
            bind_res (json_get cond ''StringLike'' (JObj [])) (\<lambda>like.
              bind_res (aud_refused eq aud) (\<lambda>bad. case bad of
                Some v \<Rightarrow> Inr (Refused (''aud '' @ rp (JStr aud) @ '' != required '' @ rp v))
              | None \<Rightarrow> judge_subject rp st eq like sub)))))
   | _ \<Rightarrow> Inl (OtherError ''AttributeError'' ''endswith''))"

(* src/scripts/oidc-trust-simulate.py:83-116 loop body of evaluate *)
definition judge :: "(json \<Rightarrow> string) \<Rightarrow> json \<Rightarrow> string \<Rightarrow> string \<Rightarrow> stmt_verdict res" where
  "judge rp st sub aud =
     bind_res (json_get st ''Effect'' JNull) (\<lambda>effect.
       if effect \<noteq> JStr ''Allow'' then Inr Skipped
       else bind_res (json_get st ''Action'' (JList [])) (\<lambda>act.
         if JStr ASSUME \<notin> set (as_list act) then Inr (Refused (''statement does not allow '' @ ASSUME))
         else bind_res (bind_res (json_get st ''Principal'' (JObj [])) (\<lambda>p. json_get p ''Federated'' (JStr []))) 
           (judge_provider rp st sub aud)))"

fun judge_all :: "(json \<Rightarrow> string) \<Rightarrow> json list \<Rightarrow> string \<Rightarrow> string \<Rightarrow> string list \<Rightarrow> (bool \<times> string list) res" where
  "judge_all rp [] sub aud reasons = Inr (False, reasons)"
| "judge_all rp (st # sts) sub aud reasons = bind_res (judge rp st sub aud) (\<lambda>v. case v of
     Skipped \<Rightarrow> judge_all rp sts sub aud reasons
   | Refused why \<Rightarrow> judge_all rp sts sub aud (reasons @ [why])
   | Matched why \<Rightarrow> Inr (True, [why]))"

(* src/scripts/oidc-trust-simulate.py:79-118 evaluate *)
definition evaluate :: "(json \<Rightarrow> string) \<Rightarrow> json \<Rightarrow> string \<Rightarrow> string \<Rightarrow> (bool \<times> string list) res" where
  "evaluate rp policy sub aud =
     bind_res (bind_res (json_item policy ''Statement'') json_iter) (\<lambda>sts. judge_all rp sts sub aud [])"

section \<open>The run\<close>

text \<open>A case is of the policy for builds, the one for production, or one that was named.\<close>

datatype policy_file = Build | Prod | Named string

record trust_args =
  ta_sub :: "string option"
  ta_prefix :: "string option"
  ta_aud :: string
  ta_policy :: "policy_file option"

definition given :: "string option \<Rightarrow> bool" where "given a \<longleftrightarrow> a \<noteq> None \<and> a \<noteq> Some []"

(* src/scripts/oidc-trust-simulate.py:132-147 cases in main *)
definition trust_cases :: "trust_args \<Rightarrow> (policy_file \<times> string) list option" where
  "trust_cases a =
     (if given (ta_sub a) then Some [(case ta_policy a of None \<Rightarrow> Build | Some f \<Rightarrow> f, the (ta_sub a))]
      else if given (ta_prefix a)
      then (let p = the (ta_prefix a) in Some
        [(Build, p @ '':environment:dev''), (Build, p @ '':ref:refs/heads/main''), (Prod, p @ '':environment:prod''),
         (Build, p @ '':pull_request''), (Prod, p @ '':environment:dev''), (Build, ''repo:someone-else/their-repo:ref:refs/heads/main'')])
      else None)"

(* src/scripts/oidc-trust-simulate.py:149-158 should_deny in main *)
definition should_deny :: "policy_file \<Rightarrow> string \<Rightarrow> bool" where
  "should_deny f sub \<longleftrightarrow> contains sub ''pull_request'' \<or> contains sub ''someone-else'' \<or> f = Prod \<and> \<not> contains sub '':environment:prod''"

(* src/scripts/oidc-trust-simulate.py:121-176 main *)
definition trust_main :: "(json \<Rightarrow> string) \<Rightarrow> (policy_file \<Rightarrow> json res) \<Rightarrow> trust_args \<Rightarrow> int res" where
  "trust_main rp load a = (case trust_cases a of
     None \<Rightarrow> Inl (OtherError ''SystemExit'' ''2'')
   | Some cs \<Rightarrow>
       bind_res (map_res (\<lambda>(f, sub). bind_res (load f) (\<lambda>policy. bind_res (evaluate rp policy sub (ta_aud a)) (\<lambda>(allowed, reasons).
           Inr (if should_deny f sub then \<not> allowed else allowed)))) cs) (\<lambda>oks.
         Inr (if filter (\<lambda>ok. \<not> ok) oks \<noteq> [] then 1 else 0)))"

section \<open>The committed policies\<close>

definition REPO :: string where
  "REPO = ''repo:AI-Native-2026-07-29-Intuit@309728071/arush-adabala-tax-liability@1317703842''"

definition STS :: string where "STS = ''sts.amazonaws.com''"

definition federated :: json where
  "federated = JObj [(''Federated'', JStr (''arn:aws:iam::123456789012:oidc-provider'' @ PROVIDER))]"

(* src/infra/oidc/trust-policy-build.json:1-24 trust policy for builds *)
definition BUILD_POLICY :: json where
  "BUILD_POLICY = JObj [(''Version'', JStr ''2012-10-17''), (''Statement'', JList [JObj
     [(''Sid'', JStr ''GitHubActionsBuildPush''), (''Effect'', JStr ''Allow''), (''Principal'', federated), (''Action'', JStr ASSUME),
      (''Condition'', JObj
        [(''StringEquals'', JObj [(AUD_KEY, JStr STS)]),
         (''StringLike'', JObj [(SUB_KEY, JList [JStr (REPO @ '':environment:dev''), JStr (REPO @ '':ref:refs/heads/main'')])])])]])]"

(* src/infra/oidc/trust-policy-prod.json:1-19 trust policy for production *)
definition PROD_POLICY :: json where
  "PROD_POLICY = JObj [(''Version'', JStr ''2012-10-17''), (''Statement'', JList [JObj
     [(''Sid'', JStr ''GitHubActionsProdDeploy''), (''Effect'', JStr ''Allow''), (''Principal'', federated), (''Action'', JStr ASSUME),
      (''Condition'', JObj [(''StringEquals'', JObj [(AUD_KEY, JStr STS), (SUB_KEY, JStr (REPO @ '':environment:prod''))])])]])]"

section \<open>What an allowed claim has shown\<close>

text \<open>The declarative side: a claim satisfies a list of exact values or of patterns.\<close>

definition equals_some :: "string \<Rightarrow> json \<Rightarrow> bool" where
  "equals_some claim v \<longleftrightarrow> JStr claim \<in> set (as_list v)"

definition like_some :: "string \<Rightarrow> json \<Rightarrow> bool" where
  "like_some claim v \<longleftrightarrow> (\<exists>p. JStr p \<in> set (as_list v) \<and> glob_text (=) (\<lambda>c. True) (map piece_of p) claim)"

lemma string_equals_iff: "string_equals claim v \<longleftrightarrow> equals_some claim v"
  by (auto simp: string_equals_def equals_some_def list_ex_iff)

lemma string_like_some: "string_like claim v = Inr True \<Longrightarrow> like_some claim v"
  by (auto simp: string_like_def like_some_def like_one_def fnmatchcase_def glob_match_iff bind_res_eq_Inr
      dest!: any_res_True split: if_splits json.splits)

lemma json_in_item: "json_in k v = Inr b \<Longrightarrow> json_item v k = Inr x \<Longrightarrow> b"
  by (auto simp: json_in_def json_item_def split: json.splits option.splits)

text \<open>
  A token is allowed only by a statement that names the action and the provider, whose audience, where it
  names one, is the token's, and which constrains the subject, exactly or by a pattern the subject is a
  text of: a policy that lost its subject condition allows nobody.
\<close>

lemma judge_Matched:
  assumes "judge rp st sub aud = Inr (Matched why)"
  shows "\<exists>d eq like f. st = JObj d \<and> get_or d ''Effect'' JNull = JStr ''Allow'' \<and> JStr ASSUME \<in> set (as_list (get_or d ''Action'' (JList [])))
    \<and> json_get (get_or d ''Principal'' (JObj [])) ''Federated'' (JStr []) = Inr (JStr f) \<and> ends_with f PROVIDER
    \<and> json_get (get_or d ''Condition'' (JObj [])) ''StringEquals'' (JObj []) = Inr eq
    \<and> json_get (get_or d ''Condition'' (JObj [])) ''StringLike'' (JObj []) = Inr like
    \<and> (\<forall>v. json_item eq AUD_KEY = Inr v \<longrightarrow> equals_some aud v)
    \<and> ((\<exists>v. json_item eq SUB_KEY = Inr v \<and> equals_some sub v) \<or> (\<exists>v. json_item like SUB_KEY = Inr v \<and> like_some sub v))"
proof -
  obtain d where d: "st = JObj d" using assms by (cases st) (auto simp: judge_def json_get_def)
  have e: "get_or d ''Effect'' JNull = JStr ''Allow''" and a: "JStr ASSUME \<in> set (as_list (get_or d ''Action'' (JList [])))"
    using assms by (auto simp: judge_def d json_get_def split: if_splits)
  from assms e a obtain fed where fed: "json_get (get_or d ''Principal'' (JObj [])) ''Federated'' (JStr []) = Inr fed"
    and r1: "judge_provider rp st sub aud fed = Inr (Matched why)"
    by (auto simp: judge_def d json_get_def [of "JObj d"] elim!: bind_res_InrE)
  then obtain f where f: "fed = JStr f" "ends_with f PROVIDER" by (cases fed) (auto simp: judge_provider_def split: if_splits)
  from r1 f obtain eq like where c: "json_get (get_or d ''Condition'' (JObj [])) ''StringEquals'' (JObj []) = Inr eq"
    "json_get (get_or d ''Condition'' (JObj [])) ''StringLike'' (JObj []) = Inr like"
    and au: "aud_refused eq aud = Inr None" and su: "judge_subject rp st eq like sub = Inr (Matched why)"
    by (auto simp: judge_provider_def d json_get_def [of "JObj d"] elim!: bind_res_InrE split: option.splits)
  have "equals_some aud v" if "json_item eq AUD_KEY = Inr v" for v
    using au json_in_item [of AUD_KEY eq _ v] that
    by (auto simp: aud_refused_def member_holds_def string_equals_iff bind_res_eq_Inr split: if_splits)
  moreover have "(\<exists>v. json_item eq SUB_KEY = Inr v \<and> equals_some sub v) \<or> (\<exists>v. json_item like SUB_KEY = Inr v \<and> like_some sub v)"
    using su string_like_some
    by (auto simp: judge_subject_def member_holds_def string_equals_iff bind_res_eq_Inr Let_def split: if_splits)
  ultimately show ?thesis using d e a fed f c by blast
qed

lemma judge_all_allows: "judge_all rp sts sub aud rs = Inr (True, out) \<Longrightarrow> \<exists>st \<in> set sts. \<exists>why. judge rp st sub aud = Inr (Matched why)"
proof (induction sts arbitrary: rs)
  case (Cons st sts)
  from Cons.prems obtain v where v: "judge rp st sub aud = Inr v" by (auto simp: bind_res_eq_Inr)
  show ?case using Cons v by (cases v) auto
qed simp

theorem allowed_needs_subject:
  assumes "evaluate rp policy sub aud = Inr (True, rs)"
  shows "\<exists>sts d eq like f. bind_res (json_item policy ''Statement'') json_iter = Inr sts \<and> JObj d \<in> set sts
    \<and> get_or d ''Effect'' JNull = JStr ''Allow'' \<and> JStr ASSUME \<in> set (as_list (get_or d ''Action'' (JList [])))
    \<and> json_get (get_or d ''Principal'' (JObj [])) ''Federated'' (JStr []) = Inr (JStr f) \<and> ends_with f PROVIDER
    \<and> json_get (get_or d ''Condition'' (JObj [])) ''StringEquals'' (JObj []) = Inr eq
    \<and> json_get (get_or d ''Condition'' (JObj [])) ''StringLike'' (JObj []) = Inr like
    \<and> (\<forall>v. json_item eq AUD_KEY = Inr v \<longrightarrow> equals_some aud v)
    \<and> ((\<exists>v. json_item eq SUB_KEY = Inr v \<and> equals_some sub v) \<or> (\<exists>v. json_item like SUB_KEY = Inr v \<and> like_some sub v))"
proof -
  obtain sts where s: "bind_res (json_item policy ''Statement'') json_iter = Inr sts" "judge_all rp sts sub aud [] = Inr (True, rs)"
    using assms unfolding evaluate_def by (elim bind_res_InrE) auto
  obtain st why where j: "st \<in> set sts" "judge rp st sub aud = Inr (Matched why)" using judge_all_allows [OF s(2)] by blast
  show ?thesis using judge_Matched [OF j(2)] j(1) s(1) by blast
qed

section \<open>The committed policies, exactly\<close>

lemma committed_patterns:
  "like_one sub (JStr (REPO @ '':environment:dev'')) = Inr (sub = REPO @ '':environment:dev'')"
  "like_one sub (JStr (REPO @ '':ref:refs/heads/main'')) = Inr (sub = REPO @ '':ref:refs/heads/main'')"
proof -
  have "like_one sub (JStr p) = Inr (sub = p)" if "\<not> contains p ''[''" "\<not> contains p '']''" "literal p" for p
    using that by (simp add: like_one_def json_in_def fnmatchcase_def)
      (simp add: literal_pieces glob_match_literal list.rel_eq eq_commute [of sub])
  moreover have "\<not> contains (REPO @ '':environment:dev'') ''[''" "\<not> contains (REPO @ '':environment:dev'') '']''"
    "\<not> contains (REPO @ '':ref:refs/heads/main'') ''[''" "\<not> contains (REPO @ '':ref:refs/heads/main'') '']''"
    "literal (REPO @ '':environment:dev'')" "literal (REPO @ '':ref:refs/heads/main'')" by code_simp+
  ultimately show "like_one sub (JStr (REPO @ '':environment:dev'')) = Inr (sub = REPO @ '':environment:dev'')"
    "like_one sub (JStr (REPO @ '':ref:refs/heads/main'')) = Inr (sub = REPO @ '':ref:refs/heads/main'')" by blast+
qed

lemma keys_differ: "AUD_KEY \<noteq> SUB_KEY" by (simp add: AUD_KEY_def SUB_KEY_def)

lemma provider_named: "ends_with (''arn:aws:iam::123456789012:oidc-provider'' @ PROVIDER) PROVIDER"
  by (simp add: ends_with_def)

lemma build_decision:
  "\<exists>rs. evaluate rp BUILD_POLICY sub aud = Inr (aud = STS \<and> (sub = REPO @ '':environment:dev'' \<or> sub = REPO @ '':ref:refs/heads/main''), rs)"
  using keys_differ provider_named
  by (auto simp: evaluate_def BUILD_POLICY_def json_item_def json_iter_def json_get_def get_or_def judge_def as_list_def federated_def
      judge_provider_def aud_refused_def json_in_def member_holds_def string_equals_def judge_subject_def string_like_def committed_patterns Let_def
      simp del: append_Cons)

lemma prod_decision:
  "\<exists>rs. evaluate rp PROD_POLICY sub aud = Inr (aud = STS \<and> sub = REPO @ '':environment:prod'', rs)"
  using keys_differ provider_named
  by (auto simp: evaluate_def PROD_POLICY_def json_item_def json_iter_def json_get_def get_or_def judge_def as_list_def federated_def
      judge_provider_def aud_refused_def json_in_def member_holds_def string_equals_def judge_subject_def Let_def
      simp del: append_Cons)

text \<open>
  C17. Whom the committed policies trust: on every subject and audience the evaluation ends with a decision,
  the policy for builds allows the two subjects of this repository it lists, the one for production the
  one it names, for the audience of the token service and for no other.
\<close>

theorem committed_trust_exact:
  "\<exists>rs rs2. evaluate rp BUILD_POLICY sub aud
      = Inr (aud = STS \<and> (sub = REPO @ '':environment:dev'' \<or> sub = REPO @ '':ref:refs/heads/main''), rs)
    \<and> evaluate rp PROD_POLICY sub aud = Inr (aud = STS \<and> sub = REPO @ '':environment:prod'', rs2)"
  using build_decision prod_decision by blast

section \<open>The exit code\<close>

lemma contains_across:
  assumes "c \<notin> set m" and "m \<noteq> []"
  shows "contains (p @ c # s) m \<longleftrightarrow> contains p m \<or> contains s m"
proof -
  have "\<not> prefix m (c # s)" using assms by (cases m) auto
  moreover have "sublist m p" if "m = a @ b" "suffix a p" "prefix b (c # s)" for a b
    using that assms by (cases b) auto
  ultimately show ?thesis using sublist_append [of m p "c # s"]
    by (auto simp: contains_sublist sublist_Cons_right sublist_append)
qed

definition marked :: "string \<Rightarrow> bool" where
  "marked p \<longleftrightarrow> contains p ''pull_request'' \<or> contains p ''someone-else''"

lemma marked_suffix: "marked (p @ '':environment:dev'') \<longleftrightarrow> marked p" "marked (p @ '':ref:refs/heads/main'') \<longleftrightarrow> marked p"
    "marked (p @ '':environment:prod'') \<longleftrightarrow> marked p" "marked (p @ '':pull_request'')"
    "marked ''repo:someone-else/their-repo:ref:refs/heads/main''" "\<not> marked REPO"
proof -
  have "contains (p @ CHR '':'' # s) ''pull_request'' \<longleftrightarrow> contains p ''pull_request'' \<or> contains s ''pull_request''"
    "contains (p @ CHR '':'' # s) ''someone-else'' \<longleftrightarrow> contains p ''someone-else'' \<or> contains s ''someone-else''" for s
    by (rule contains_across; simp)+
  moreover have "\<not> marked ''environment:dev''" "\<not> marked ''ref:refs/heads/main''" "\<not> marked ''environment:prod''" "contains ''pull_request'' ''pull_request''"
    by code_simp+
  ultimately show "marked (p @ '':environment:dev'') \<longleftrightarrow> marked p" "marked (p @ '':ref:refs/heads/main'') \<longleftrightarrow> marked p"
    "marked (p @ '':environment:prod'') \<longleftrightarrow> marked p" "marked (p @ '':pull_request'')"
    unfolding marked_def by blast+
  show "marked ''repo:someone-else/their-repo:ref:refs/heads/main''" "\<not> marked REPO" by code_simp+
qed

fun committed_files :: "policy_file \<Rightarrow> json res" where
  "committed_files Build = Inr BUILD_POLICY"
| "committed_files Prod = Inr PROD_POLICY"
| "committed_files (Named p) = Inl (OtherError ''FileNotFoundError'' p)"

fun trusted :: "policy_file \<Rightarrow> string \<Rightarrow> string \<Rightarrow> bool" where
  "trusted Build sub aud \<longleftrightarrow> aud = STS \<and> (sub = REPO @ '':environment:dev'' \<or> sub = REPO @ '':ref:refs/heads/main'')"
| "trusted Prod sub aud \<longleftrightarrow> aud = STS \<and> sub = REPO @ '':environment:prod''"
| "trusted (Named p) sub aud \<longleftrightarrow> False"

lemma case_outcome:
  assumes "f \<in> {Build, Prod}"
  shows "bind_res (committed_files f) (\<lambda>policy. bind_res (evaluate rp policy sub aud) (\<lambda>(allowed, reasons).
      Inr (if should_deny f sub then \<not> allowed else allowed))) = Inr (should_deny f sub \<noteq> trusted f sub aud)"
  using assms build_decision [of rp sub aud] prod_decision [of rp sub aud] by auto

lemma should_deny_marked: "should_deny f sub \<longleftrightarrow> marked sub \<or> f = Prod \<and> \<not> contains sub '':environment:prod''"
  by (auto simp: should_deny_def marked_def)

lemma trusted_unmarked: "trusted f sub aud \<Longrightarrow> \<not> marked sub"
  using marked_suffix by (cases f) auto

lemma tails_differ: "a @ '':environment:dev'' \<noteq> b @ '':ref:refs/heads/main''" "a @ '':environment:dev'' \<noteq> b @ '':environment:prod''"
  by (auto dest!: arg_cong [where f = last])

text \<open>
  The exit code over a prefix: zero for the prefix of this repository and the audience of the token
  service, one for any other, except that a prefix which contains a marker of the negative controls has
  every one of its subjects expected to be denied and exits with zero although nothing is allowed.
\<close>

theorem prefix_exit_code:
  assumes "p \<noteq> []"
  shows "trust_main rp committed_files \<lparr>ta_sub = None, ta_prefix = Some p, ta_aud = aud, ta_policy = None\<rparr>
    = Inr (if p = REPO \<and> aud = STS \<or> marked p then 0 else 1)"
proof -
  let ?cs = "[(Build, p @ '':environment:dev''), (Build, p @ '':ref:refs/heads/main''), (Prod, p @ '':environment:prod''),
     (Build, p @ '':pull_request''), (Prod, p @ '':environment:dev''), (Build, ''repo:someone-else/their-repo:ref:refs/heads/main'')]"
  have "map_res (\<lambda>(f, sub). bind_res (committed_files f) (\<lambda>policy. bind_res (evaluate rp policy sub aud) (\<lambda>(allowed, reasons).
      Inr (if should_deny f sub then \<not> allowed else allowed)))) ?cs = Inr (map (\<lambda>(f, sub). should_deny f sub \<noteq> trusted f sub aud) ?cs)"
    using case_outcome by (intro map_res_Inr_map) auto
  then have run: "trust_main rp committed_files \<lparr>ta_sub = None, ta_prefix = Some p, ta_aud = aud, ta_policy = None\<rparr>
    = Inr (if \<forall>(f, sub) \<in> set ?cs. should_deny f sub \<noteq> trusted f sub aud then 0 else 1)"
    using assms by (simp add: trust_main_def trust_cases_def given_def Let_def)
  have "(\<forall>(f, sub) \<in> set ?cs. should_deny f sub \<noteq> trusted f sub aud) \<longleftrightarrow> p = REPO \<and> aud = STS \<or> marked p"
  proof (cases "marked p")
    case True
    then have "\<forall>(f, sub) \<in> set ?cs. marked sub" by (simp add: marked_suffix del: append_Cons)
    then show ?thesis using True trusted_unmarked by (fastforce simp: should_deny_marked)
  next
    case False
    have one: "should_deny Build (p @ '':environment:dev'') \<noteq> trusted Build (p @ '':environment:dev'') aud \<longleftrightarrow> p = REPO \<and> aud = STS"
      using False tails_differ by (simp add: should_deny_marked marked_suffix del: append_Cons) blast
    have "contains (REPO @ '':environment:prod'') '':environment:prod''" "\<not> contains (REPO @ '':environment:dev'') '':environment:prod''"
      "''repo:someone-else/their-repo'' \<noteq> REPO" by code_simp+
    then have "\<forall>(f, sub) \<in> set ?cs. should_deny f sub \<noteq> trusted f sub aud" if "p = REPO" "aud = STS"
      using that marked_suffix trusted_unmarked [of Build "p @ '':pull_request''" aud] tails_differ
        trusted_unmarked [of Build "''repo:someone-else/their-repo:ref:refs/heads/main''" aud]
      by (simp add: should_deny_marked del: append_Cons)
    then show ?thesis using one False by (simp del: append_Cons trusted.simps) blast
  qed
  then show ?thesis unfolding run by simp
qed

theorem prefix_exit_code_witness:
  "trust_main (\<lambda>v. []) committed_files \<lparr>ta_sub = None, ta_prefix = Some REPO, ta_aud = STS, ta_policy = None\<rparr> = Inr 0
   \<and> trust_main (\<lambda>v. []) committed_files \<lparr>ta_sub = None, ta_prefix = Some ''repo:a/b'', ta_aud = STS, ta_policy = None\<rparr> = Inr 1"
proof -
  have "REPO \<noteq> []" "''repo:a/b'' \<noteq> REPO" "\<not> marked ''repo:a/b''" by code_simp+
  then show ?thesis using prefix_exit_code [of REPO "\<lambda>v. []" STS] prefix_exit_code [of "''repo:a/b''" "\<lambda>v. []" STS] by simp
qed

theorem allowed_needs_subject_witness:
  "\<exists>rs eq. evaluate (\<lambda>v. []) PROD_POLICY (REPO @ '':environment:prod'') STS = Inr (True, rs)
     \<and> (\<exists>v. json_item eq AUD_KEY = Inr v \<and> equals_some STS v)"
proof -
  obtain rs where r: "evaluate (\<lambda>v. []) PROD_POLICY (REPO @ '':environment:prod'') STS = Inr (True, rs)"
    using prod_decision [of "\<lambda>v. []" "REPO @ '':environment:prod''" STS] by auto
  have s: "bind_res (json_item PROD_POLICY ''Statement'') json_iter = Inr [JObj
     [(''Sid'', JStr ''GitHubActionsProdDeploy''), (''Effect'', JStr ''Allow''), (''Principal'', federated), (''Action'', JStr ASSUME),
      (''Condition'', JObj [(''StringEquals'', JObj [(AUD_KEY, JStr STS), (SUB_KEY, JStr (REPO @ '':environment:prod''))])])]]"
    by (simp add: PROD_POLICY_def json_item_def json_iter_def)
  from allowed_needs_subject [OF r] s obtain eq where e: "eq = JObj [(AUD_KEY, JStr STS), (SUB_KEY, JStr (REPO @ '':environment:prod''))]"
    "\<forall>v. json_item eq AUD_KEY = Inr v \<longrightarrow> equals_some STS v" by (auto simp: json_get_def get_or_def)
  moreover have "json_item eq AUD_KEY = Inr (JStr STS)" by (simp add: e json_item_def)
  ultimately show ?thesis using r by blast
qed

text \<open>
  Where a statement names the subject both exactly and by a pattern, only the exact condition is looked
  at, although both must hold; and a statement that denies is passed over.
\<close>

definition both_conditions :: "string \<Rightarrow> json" where
  "both_conditions pat = JObj [(''Effect'', JStr ''Allow''), (''Principal'', federated), (''Action'', JStr ASSUME),
     (''Condition'', JObj [(''StringEquals'', JObj [(SUB_KEY, JStr ''repo:a'')]), (''StringLike'', JObj [(SUB_KEY, JStr pat)])])]"

lemma pattern_shadowed: "\<exists>rs. evaluate rp (JObj [(''Statement'', JList [both_conditions ''repo:b*''])]) ''repo:a'' aud = Inr (True, rs)"
  using keys_differ provider_named
  by (auto simp: evaluate_def both_conditions_def json_item_def json_iter_def json_get_def get_or_def judge_def as_list_def federated_def
      judge_provider_def aud_refused_def json_in_def member_holds_def string_equals_def judge_subject_def Let_def
      simp del: append_Cons)

lemma deny_passed_over:
  "judge_all rp (JObj ((''Effect'', JStr ''Deny'') # d) # sts) sub aud rs = judge_all rp sts sub aud rs"
  by (simp add: judge_def json_get_def get_or_def)

end
