(* ===== verification/Replay.thy ===== *)
theory Replay
  imports McpLaws
begin

text \<open>
  \<open>taxcalc_mcp_server/scripts/replay.py\<close>: recorded tool calls are replayed through the server's own
  dispatch against a stubbed upstream, timed, and the 95th percentile of every tool is compared with the
  run before. Arguments: the elapsed time of the n-th call, the float rounding \<open>fl\<close> and the rounding to
  three places \<open>r3\<close>, the files. The report's text and the messages' wording are left out.
\<close>

section \<open>Fixtures\<close>

(* src/taxcalc-mcp-server/src/taxcalc_mcp_server/scripts/replay.py:80-97 Fixture *)
record fixture =
  fx_name :: string
  fx_tool :: json
  fx_arguments :: json
  fx_status :: json
  fx_body :: json
  fx_rag :: json

text \<open>\<open>raw[k]\<close> and \<open>raw.get(k, default)\<close> of a parsed file.\<close>

definition raw_item :: "json \<Rightarrow> string \<Rightarrow> json res" where
  "raw_item v k = (case v of JObj d \<Rightarrow> (case dict_get d k of None \<Rightarrow> Inl (KeyError k) | Some x \<Rightarrow> Inr x) | _ \<Rightarrow> Inl (TypeError k))"

definition raw_get :: "json \<Rightarrow> string \<Rightarrow> json \<Rightarrow> json res" where
  "raw_get v k dflt = (case v of JObj d \<Rightarrow> Inr (get_or d k dflt) | _ \<Rightarrow> Inl (OtherError ''AttributeError'' ''get''))"

(* src/taxcalc-mcp-server/src/taxcalc_mcp_server/scripts/replay.py:118-127 fixture of load_fixtures *)
definition fixture_of :: "(rat \<Rightarrow> rat) \<Rightarrow> string \<times> string \<Rightarrow> fixture res" where
  "fixture_of fl = (\<lambda>(stem, txt).
     bind_res (loads fl txt) (\<lambda>raw.
       bind_res (raw_item raw ''tool'') (\<lambda>tool.
         bind_res (raw_item raw ''arguments'') (\<lambda>args.
           bind_res (raw_get raw ''upstream'' (JObj [])) (\<lambda>up.
             bind_res (raw_get up ''status'' (JInt 200)) (\<lambda>status.
               bind_res (raw_get up ''body'' (JObj [])) (\<lambda>body.
                 bind_res (raw_get raw ''rag_result'' JNull) (\<lambda>rag.
                   Inr \<lparr>fx_name = stem, fx_tool = tool, fx_arguments = args, fx_status = status, fx_body = body, fx_rag = rag\<rparr>))))))))"

(* src/taxcalc-mcp-server/src/taxcalc_mcp_server/scripts/replay.py:100-129 load_fixtures *)
definition load_fixtures :: "(rat \<Rightarrow> rat) \<Rightarrow> (string \<times> string) list \<Rightarrow> fixture list res" where
  "load_fixtures fl files =
     (if files = [] then Inl (OtherError ''FileNotFoundError'' ''no *.json fixtures'')
      else map_res (fixture_of fl) (sort_key (\<lambda>(stem, txt). stem @ ''.json'') files))"

section \<open>One replay\<close>

text \<open>The reply every request gets, and the pipeline every retrieval gets.\<close>

(* src/taxcalc-mcp-server/src/taxcalc_mcp_server/scripts/replay.py:132-142 _stub_transport *)
definition stub_transport :: "(rat \<Rightarrow> string) \<Rightarrow> fixture \<Rightarrow> nat \<Rightarrow> http_request \<Rightarrow> http_response res" where
  "stub_transport fr fx n req = (case fx_status fx of
     JInt code \<Rightarrow> Inr \<lparr>resp_status = code, resp_text = dumps fr (fx_body fx), resp_json = Inr (fx_body fx), resp_cost = None\<rparr>
   | _ \<Rightarrow> Inl (TypeError ''status_code''))"

(* src/taxcalc-mcp-server/src/taxcalc_mcp_server/scripts/replay.py:145-181 _request_context *)
definition request_context :: "(rat \<Rightarrow> string) \<Rightarrow> fixture \<Rightarrow> tool_env \<Rightarrow> tool_env" where
  "request_context fr fx e = e\<lparr>te_http := stub_transport fr fx,
     te_rag := \<lambda>q t k. Finished (case (if truthy (fx_rag fx) then fx_rag fx else JObj []) of
        JObj d \<Rightarrow> Inr d | _ \<Rightarrow> Inl (OtherError ''AttributeError'' ''get''))\<rparr>"

text \<open>A name that is no text names no tool, and arguments that are no object are refused.\<close>

definition replayed_call :: "server \<Rightarrow> (rat \<Rightarrow> string) \<Rightarrow> tool_env \<Rightarrow> fixture \<Rightarrow> json res" where
  "replayed_call sv fr e fx = (case (fx_tool fx, fx_arguments fx) of
     (JStr name, JObj args) \<Rightarrow> fst (call_tool sv (request_context fr fx e) name args (None, \<lparr>sent_http = [], log_lines = []\<rparr>))
   | _ \<Rightarrow> Inl (OtherError ''ToolError'' ''arguments''))"

(* src/taxcalc-mcp-server/src/taxcalc_mcp_server/scripts/replay.py:184-200 _replay_once *)
definition replay_once :: "server \<Rightarrow> (rat \<Rightarrow> string) \<Rightarrow> tool_env \<Rightarrow> (nat \<Rightarrow> rat) \<Rightarrow> fixture \<Rightarrow> nat \<Rightarrow> rat res" where
  "replay_once sv fr e elapsed fx n = (case replayed_call sv fr e fx of
     Inr v \<Rightarrow> Inr (elapsed n)
   | Inl x \<Rightarrow> Inl (if is_exception x then RuntimeError (''fixture '' @ fx_name fx @ '' failed: '' @ message_of x) else x))"

section \<open>Percentiles\<close>

(* src/taxcalc-mcp-server/src/taxcalc_mcp_server/scripts/replay.py:215-217 index of _percentiles.pick *)
definition pick_index :: "(rat \<Rightarrow> rat) \<Rightarrow> rat \<Rightarrow> nat \<Rightarrow> nat" where
  "pick_index fl q n = nat (max 0 (min (int n - 1) (py_round (fl (fl (q * of_nat n) + 1 / 2)) - 1)))"

record tool_stats =
  ts_samples :: nat
  p50 :: rat
  p95 :: rat
  p99 :: rat

(* src/taxcalc-mcp-server/src/taxcalc_mcp_server/scripts/replay.py:203-219 _percentiles *)
definition percentiles :: "(rat \<Rightarrow> rat) \<Rightarrow> (rat \<Rightarrow> rat) \<Rightarrow> rat list \<Rightarrow> tool_stats" where
  "percentiles fl r3 samples =
     (let ordered = sort samples; pick = (\<lambda>q. r3 (ordered ! pick_index fl (fl q) (length ordered)))
      in \<lparr>ts_samples = length samples, p50 = pick (1 / 2), p95 = pick (95 / 100), p99 = pick (99 / 100)\<rparr>)"

section \<open>The run\<close>

definition tool_name :: "fixture \<Rightarrow> string" where
  "tool_name fx = (case fx_tool fx of JStr n \<Rightarrow> n | _ \<Rightarrow> [])"

definition samples_of :: "(string, rat list) dict \<Rightarrow> string \<Rightarrow> rat list" where
  "samples_of d t = (case dict_get d t of None \<Rightarrow> [] | Some xs \<Rightarrow> xs)"

fun replay_all ::
  "(fixture \<Rightarrow> nat \<Rightarrow> rat res) \<Rightarrow> nat \<Rightarrow> nat \<Rightarrow> fixture list \<Rightarrow> nat \<Rightarrow> (string, rat list) dict \<Rightarrow> (string, rat list) dict res" where
  "replay_all once warmup repeats [] n per_tool = Inr per_tool"
| "replay_all once warmup repeats (fx # fxs) n per_tool =
     bind_res (map_res (once fx) [n..<n + warmup]) (\<lambda>_.
       bind_res (map_res (once fx) [n + warmup..<n + warmup + repeats]) (\<lambda>xs.
         replay_all once warmup repeats fxs (n + warmup + repeats)
           (if xs = [] then per_tool else dict_set (tool_name fx) (samples_of per_tool (tool_name fx) @ xs) per_tool)))"

record report =
  rp_fixtures :: nat
  rp_repeats :: int
  rp_warmup :: int
  rp_tools :: "(string \<times> tool_stats) list"

(* src/taxcalc-mcp-server/src/taxcalc_mcp_server/scripts/replay.py:222-251 _run *)
definition run_replay :: "(rat \<Rightarrow> rat) \<Rightarrow> (rat \<Rightarrow> rat) \<Rightarrow> (fixture \<Rightarrow> nat \<Rightarrow> rat res) \<Rightarrow> fixture list \<Rightarrow> int \<Rightarrow> int \<Rightarrow> report res" where
  "run_replay fl r3 once fxs repeats warmup =
     bind_res (replay_all once (nat warmup) (nat repeats) fxs 0 []) (\<lambda>per_tool.
       Inr \<lparr>rp_fixtures = length fxs, rp_repeats = repeats, rp_warmup = warmup,
            rp_tools = map (\<lambda>(t, xs). (t, percentiles fl r3 xs)) (sort_key fst per_tool)\<rparr>)"

section \<open>The comparison\<close>

(* src/taxcalc-mcp-server/src/taxcalc_mcp_server/scripts/replay.py:65-67 P95_REGRESSION_LIMIT *)
definition P95_REGRESSION_LIMIT :: rat where "P95_REGRESSION_LIMIT = 15 / 100"

(* src/taxcalc-mcp-server/src/taxcalc_mcp_server/scripts/replay.py:69-73 NOISE_FLOOR_MS *)
definition NOISE_FLOOR_MS :: rat where "NOISE_FLOOR_MS = 1"

text \<open>The three states of a verdict, the skipped one with its two reasons; the numbers of the message are kept.\<close>

(* src/taxcalc-mcp-server/src/taxcalc_mcp_server/scripts/replay.py:267-285 Verdict *)
datatype verdict = SkippedBaseline string rat | SkippedNoise string rat rat | Regressed string rat rat rat | WithinLimit string

fun regressed :: "verdict \<Rightarrow> bool" where
  "regressed (Regressed t b n g) = True"
| "regressed v = False"

(* src/taxcalc-mcp-server/src/taxcalc_mcp_server/scripts/replay.py:300-334 verdict of _verdicts *)
definition verdict_of :: "(rat \<Rightarrow> rat) \<Rightarrow> string \<Rightarrow> rat \<Rightarrow> rat \<Rightarrow> verdict" where
  "verdict_of fl tool baseline now =
     (if baseline \<le> 0 then SkippedBaseline tool baseline
      else if max baseline now < NOISE_FLOOR_MS then SkippedNoise tool baseline now
      else (let growth = fl (fl (now - baseline) / baseline)
            in if fl P95_REGRESSION_LIMIT < growth then Regressed tool baseline now growth else WithinLimit tool))"

text \<open>A tool without a baseline has no verdict; \<open>ps\<close> reads the number of a text.\<close>

(* src/taxcalc-mcp-server/src/taxcalc_mcp_server/scripts/replay.py:297-300 before and baseline of _verdicts *)
definition baseline_of :: "(rat \<Rightarrow> rat) \<Rightarrow> (string \<Rightarrow> rat option) \<Rightarrow> json \<Rightarrow> string \<Rightarrow> rat option res" where
  "baseline_of fl ps previous tool =
     bind_res (bind_res (raw_get previous ''tools'' (JObj [])) (\<lambda>tools. raw_get tools tool JNull)) (\<lambda>before.
       if before = JNull then Inr None else bind_res (bind_res (raw_item before ''p95'') (py_float fl ps)) (\<lambda>b. Inr (Some b)))"

(* src/taxcalc-mcp-server/src/taxcalc_mcp_server/scripts/replay.py:288-335 _verdicts *)
fun verdicts :: "(rat \<Rightarrow> rat) \<Rightarrow> (string \<Rightarrow> rat option) \<Rightarrow> (string \<times> tool_stats) list \<Rightarrow> json \<Rightarrow> verdict list res" where
  "verdicts fl ps [] previous = Inr []"
| "verdicts fl ps ((tool, stats) # rest) previous =
     bind_res (baseline_of fl ps previous tool) (\<lambda>before. case before of
       None \<Rightarrow> verdicts fl ps rest previous
     | Some b \<Rightarrow> bind_res (verdicts fl ps rest previous) (\<lambda>vs. Inr (verdict_of fl tool b (p95 stats) # vs)))"

(* src/taxcalc-mcp-server/src/taxcalc_mcp_server/scripts/replay.py:254-264 compare *)
definition compare :: "(rat \<Rightarrow> rat) \<Rightarrow> (string \<Rightarrow> rat option) \<Rightarrow> report \<Rightarrow> json \<Rightarrow> verdict list res" where
  "compare fl ps current previous = bind_res (verdicts fl ps (rp_tools current) previous) (\<lambda>vs. Inr (filter regressed vs))"

record replay_args =
  ar_files :: "(string \<times> string) list"
  ar_repeats :: int
  ar_warmup :: int
  ar_previous :: "string option"

text \<open>The exit code; \<open>ar_previous\<close> is the text of the report to compare with, where one was asked for and exists.\<close>

(* src/taxcalc-mcp-server/src/taxcalc_mcp_server/scripts/replay.py:338-413 main *)
definition replay_main ::
  "(rat \<Rightarrow> rat) \<Rightarrow> (rat \<Rightarrow> rat) \<Rightarrow> (rat \<Rightarrow> string) \<Rightarrow> (string \<Rightarrow> rat option) \<Rightarrow> tool_env \<Rightarrow> (nat \<Rightarrow> rat) \<Rightarrow> replay_args \<Rightarrow> int res" where
  "replay_main fl r3 fr ps e elapsed a =
     (let sv = snd (enforce_strict_tool_schemas mcp_server) in
      bind_res (load_fixtures fl (ar_files a)) (\<lambda>fxs.
        case run_replay fl r3 (replay_once sv fr e elapsed) fxs (ar_repeats a) (ar_warmup a) of
          Inl (RuntimeError m) \<Rightarrow> Inr 1
        | Inl x \<Rightarrow> Inl x
        | Inr rep \<Rightarrow>
            (case ar_previous a of
               None \<Rightarrow> Inr 0
             | Some txt \<Rightarrow> bind_res (loads fl txt) (\<lambda>previous. bind_res (verdicts fl ps (rp_tools rep) previous) (\<lambda>vs.
                 Inr (if filter regressed vs \<noteq> [] then 1 else 0))))))"

section \<open>Percentiles\<close>

lemma pick_index_bound: "0 < n \<Longrightarrow> pick_index fl q n < n"
  by (auto simp: pick_index_def)

lemma pick_index_mono:
  assumes "mono fl" and "p \<le> q"
  shows "pick_index fl p n \<le> pick_index fl q n"
proof -
  have "fl (fl (p * of_nat n) + 1 / 2) \<le> fl (fl (q * of_nat n) + 1 / 2)"
    by (rule monoD [OF assms(1)], rule add_right_mono, rule monoD [OF assms(1)], rule mult_right_mono) (use assms(2) in auto)
  then have "py_round (fl (fl (p * of_nat n) + 1 / 2)) \<le> py_round (fl (fl (q * of_nat n) + 1 / 2))" by (rule py_round_mono)
  then show ?thesis unfolding pick_index_def by (intro nat_mono max.mono min.mono) auto
qed

text \<open>
  Percentiles are observed: each of the three is the rounded time of some call of the tool, and they are in
  order, from the median to the slowest call at most, whatever the rounding as long as it is monotone.
\<close>

theorem percentiles_are_samples:
  assumes "samples \<noteq> []" and "mono fl" and "mono r3"
  shows "let s = percentiles fl r3 samples in {p50 s, p95 s, p99 s} \<subseteq> r3 ` set samples
    \<and> p50 s \<le> p95 s \<and> p95 s \<le> p99 s \<and> p99 s \<le> r3 (Max (set samples))"
proof -
  let ?n = "length samples" and ?o = "sort samples"
  have n: "0 < ?n" using assms(1) by simp
  let ?i = "\<lambda>q. pick_index fl (fl q) ?n"
  have b: "?i q < length ?o" for q using pick_index_bound [OF n] by simp
  then have mem: "?o ! ?i q \<in> set samples" for q using nth_mem [of "?i q" ?o] by simp
  have le: "r3 (?o ! ?i p) \<le> r3 (?o ! ?i q)" if "p \<le> q" for p q
    by (rule monoD [OF assms(3)], rule sorted_nth_mono [OF sorted_sort], rule pick_index_mono [OF assms(2)]) (use that monoD [OF assms(2)] b in auto)
  have "r3 (?o ! ?i q) \<le> r3 (Max (set samples))" for q
    by (rule monoD [OF assms(3)], rule Max_ge) (use mem in auto)
  then show ?thesis using mem le [of "1 / 2" "95 / 100"] le [of "95 / 100" "99 / 100"] by (auto simp: percentiles_def Let_def)
qed


text \<open>
  With the default of twenty calls of a tool the 95th percentile is the slowest call: the rank nineteen is
  odd. What is asked of the floats is that nineteen and a half and the rank are computed exactly.
\<close>

theorem p95_of_twenty_is_slowest:
  assumes "length samples = 20" and "fl (fl (95 / 100) * 20) = 19" and "fl (19 + 1 / 2) = 39 / 2"
  shows "p95 (percentiles fl r3 samples) = r3 (Max (set samples))"
proof -
  have "\<lfloor>39 / 2 :: rat\<rfloor> = 19" by (simp add: floor_eq_iff)
  then have "py_round (39 / 2) = 20" by (simp add: py_round_def Let_def)
  have e: "fl (fl (fl (95 / 100) * of_nat 20) + 1 / 2) = 39 / 2" unfolding of_nat_numeral assms(2) by (rule assms(3))
  have "pick_index fl (fl (95 / 100)) 20 = nat (max 0 (min (int 20 - 1) (py_round (39 / 2) - 1)))" by (simp only: pick_index_def e)
  with \<open>py_round (39 / 2) = 20\<close> have i: "pick_index fl (fl (95 / 100)) 20 = 19" by simp
  let ?o = "sort samples"
  have len: "length ?o = 20" using assms(1) by simp
  have top: "?o ! 19 = Max (set samples)"
  proof (rule Max_eqI [symmetric])
    fix y assume "y \<in> set samples"
    then obtain j where "j < 20" "y = ?o ! j" using len by (metis in_set_conv_nth set_sort)
    then show "y \<le> ?o ! 19" using len by (simp add: sorted_nth_mono)
  qed (use len nth_mem [of 19 ?o] in auto)
  show ?thesis unfolding percentiles_def Let_def length_sort assms(1) by (simp only: tool_stats.select_convs i top)
qed

section \<open>What a report counts\<close>

lemma replay_all_counts:
  assumes "replay_all once w r fxs n d = Inr out"
  shows "length (samples_of out t) = length (samples_of d t) + r * length (filter (\<lambda>fx. tool_name fx = t) fxs)
    \<and> (dict_ok d \<longrightarrow> dict_ok out)"
  using assms
proof (induction fxs arbitrary: n d)
  case (Cons fx fxs)
  from Cons.prems obtain ws xs where xs: "map_res (once fx) [n..<n + w] = Inr ws" "map_res (once fx) [n + w..<n + w + r] = Inr xs"
    and rest: "replay_all once w r fxs (n + w + r)
      (if xs = [] then d else dict_set (tool_name fx) (samples_of d (tool_name fx) @ xs) d) = Inr out"
    by (auto simp: bind_res_eq_Inr)
  have "length xs = r" using map_res_length [OF xs(2)] by simp
  then show ?case using Cons.IH [OF rest] by (auto simp: samples_of_def dict_ok_set split: if_splits)
qed simp

lemma replay_all_succeeds:
  assumes "replay_all once w r fxs n d = Inr out" and "fx \<in> set fxs" and "0 < w + r"
  shows "\<exists>k x. once fx k = Inr x"
  using assms(1,2)
proof (induction fxs arbitrary: n d)
  case (Cons f fxs)
  then obtain ws xs m e where xs: "map_res (once f) [n..<n + w] = Inr ws" "map_res (once f) [n + w..<n + w + r] = Inr xs"
    and rest: "replay_all once w r fxs m e = Inr out" by (auto simp: bind_res_eq_Inr)
  show ?case
  proof (cases "fx = f")
    case True
    then show ?thesis using map_res_nth [OF xs(1), of 0] map_res_nth [OF xs(2), of 0] assms(3) by (cases "w = 0") auto
  next
    case False
    then show ?thesis using Cons.IH [OF rest] Cons.prems(2) by simp
  qed
qed simp

lemma once_measures:
  assumes "replay_once sv fr e elapsed fx n = Inr x"
  shows "\<exists>name args v. fx_tool fx = JStr name \<and> fx_arguments fx = JObj args
    \<and> fst (call_tool sv (request_context fr fx e) name args (None, \<lparr>sent_http = [], log_lines = []\<rparr>)) = Inr v"
proof -
  obtain v where "replayed_call sv fr e fx = Inr v" using assms by (auto simp: replay_once_def split: sum.splits)
  then show ?thesis by (cases "fx_tool fx"; cases "fx_arguments fx") (auto simp: replayed_call_def)
qed

text \<open>
  A green replay has measured calls that succeed: where anything is replayed at all, an exit code of zero
  means there was a fixture, every fixture names a tool and gives arguments the strict server accepts, and
  its call returned a result against its own upstream.
\<close>

theorem green_replay_measured:
  assumes "replay_main fl r3 fr ps e elapsed a = Inr 0" and "0 < ar_repeats a \<or> 0 < ar_warmup a"
  shows "\<exists>fxs. load_fixtures fl (ar_files a) = Inr fxs \<and> fxs \<noteq> [] \<and> length fxs = length (ar_files a)
    \<and> (\<forall>fx \<in> set fxs. \<exists>name args v. fx_tool fx = JStr name \<and> fx_arguments fx = JObj args
        \<and> fst (call_tool (snd (enforce_strict_tool_schemas mcp_server)) (request_context fr fx e) name args (None, \<lparr>sent_http = [], log_lines = []\<rparr>)) = Inr v)"
proof -
  let ?once = "replay_once (snd (enforce_strict_tool_schemas mcp_server)) fr e elapsed"
  obtain fxs where l: "load_fixtures fl (ar_files a) = Inr fxs"
    and "(case run_replay fl r3 ?once fxs (ar_repeats a) (ar_warmup a) of
          Inl (RuntimeError m) \<Rightarrow> Inr 1 | Inl x \<Rightarrow> Inl x
        | Inr rep \<Rightarrow> (case ar_previous a of None \<Rightarrow> Inr 0 | Some txt \<Rightarrow> bind_res (loads fl txt) (\<lambda>previous.
              bind_res (verdicts fl ps (rp_tools rep) previous) (\<lambda>vs. Inr (if filter regressed vs \<noteq> [] then 1 else 0))))) = Inr (0 :: int)"
    using assms(1) unfolding replay_main_def Let_def bind_res_eq_Inr by blast
  then obtain rep where "run_replay fl r3 ?once fxs (ar_repeats a) (ar_warmup a) = Inr rep" by (auto split: sum.splits exn.splits)
  then obtain out where out: "replay_all ?once (nat (ar_warmup a)) (nat (ar_repeats a)) fxs 0 [] = Inr out"
    by (auto simp: run_replay_def bind_res_eq_Inr)
  have "\<exists>name args v. fx_tool fx = JStr name \<and> fx_arguments fx = JObj args
      \<and> fst (call_tool (snd (enforce_strict_tool_schemas mcp_server)) (request_context fr fx e) name args (None, \<lparr>sent_http = [], log_lines = []\<rparr>)) = Inr v"
    if mem: "fx \<in> set fxs" for fx
  proof -
    obtain k x where "?once fx k = Inr x" using replay_all_succeeds [OF out mem] assms(2) by auto
    then show ?thesis by (rule once_measures)
  qed
  moreover have "fxs \<noteq> [] \<and> length fxs = length (ar_files a)"
    using l by (auto simp: load_fixtures_def split: if_splits dest: map_res_length)
  ultimately show ?thesis using l by blast
qed

text \<open>
  The samples are complete: a report lists each replayed tool once, in order of the names, with as many
  samples as repeats for each of its fixtures; the warm-up calls are not among them.
\<close>

theorem report_counts:
  assumes "run_replay fl r3 once fxs repeats warmup = Inr rep"
  shows "sorted (map fst (rp_tools rep)) \<and> distinct (map fst (rp_tools rep))
    \<and> (\<forall>(t, s) \<in> set (rp_tools rep). ts_samples s = nat repeats * length (filter (\<lambda>fx. tool_name fx = t) fxs))"
proof -
  obtain d where d: "replay_all once (nat warmup) (nat repeats) fxs 0 [] = Inr d"
    and r: "rp_tools rep = map (\<lambda>(t, xs). (t, percentiles fl r3 xs)) (sort_key fst d)"
    using assms by (auto simp: run_replay_def bind_res_eq_Inr)
  have ok: "dict_ok d" using replay_all_counts [OF d] by (simp add: dict_ok_def)
  have fsts: "map fst (rp_tools rep) = map fst (sort_key fst d)" by (simp add: r case_prod_beta comp_def)
  have "ts_samples s = nat repeats * length (filter (\<lambda>fx. tool_name fx = t) fxs)" if mem: "(t, s) \<in> set (rp_tools rep)" for t s
  proof -
    obtain xs where "(t, xs) \<in> set d" "s = percentiles fl r3 xs" using mem by (auto simp: r)
    then have "samples_of d t = xs" "ts_samples s = length xs" using ok by (auto simp: samples_of_def dict_get_def dict_ok_def percentiles_def Let_def)
    then show ?thesis using replay_all_counts [OF d, of t] by (simp add: samples_of_def)
  qed
  moreover have "distinct (map fst (sort_key fst d))"
    using ok by (simp add: dict_ok_def distinct_map inj_on_def)
  ultimately show ?thesis unfolding fsts by (auto simp: sorted_sort_key)
qed

section \<open>The gate\<close>

lemma verdicts_set:
  "verdicts fl ps tools previous = Inr vs \<Longrightarrow>
     set vs = {verdict_of fl t b (p95 s) | t s b. (t, s) \<in> set tools \<and> baseline_of fl ps previous t = Inr (Some b)}"
proof (induction tools arbitrary: vs)
  case (Cons ts tools)
  obtain t s where ts: "ts = (t, s)" by (cases ts)
  from Cons.prems obtain bo where bo: "baseline_of fl ps previous t = Inr bo" by (auto simp: ts bind_res_eq_Inr)
  show ?case
  proof (cases bo)
    case None
    then show ?thesis using Cons bo by (auto simp: ts)
  next
    case (Some b)
    then obtain us where "vs = verdict_of fl t b (p95 s) # us" "verdicts fl ps tools previous = Inr us"
      using Cons.prems bo by (auto simp: ts bind_res_eq_Inr)
    then show ?thesis using Cons.IH bo Some by (auto simp: ts)
  qed
qed simp

lemma regressed_verdict: "regressed (verdict_of fl t b now) \<longleftrightarrow> 0 < b \<and> NOISE_FLOOR_MS \<le> max b now
    \<and> fl P95_REGRESSION_LIMIT < fl (fl (now - b) / b)"
  by (auto simp: verdict_of_def Let_def)

text \<open>
  C19. When the gate is red: on a replay that ran and a previous report that reads, the exit code is one
  exactly when some tool of both reports has a positive baseline, is above the noise floor on one side, and
  has grown by more than the limit. A tool that is new, or gone, is not held against the change.
\<close>

theorem gate_red_iff:
  assumes "load_fixtures fl (ar_files a) = Inr fxs"
    and "run_replay fl r3 (replay_once (snd (enforce_strict_tool_schemas mcp_server)) fr e elapsed) fxs (ar_repeats a) (ar_warmup a) = Inr rep"
    and "ar_previous a = Some txt" and "loads fl txt = Inr previous" and "verdicts fl ps (rp_tools rep) previous = Inr vs"
  shows "replay_main fl r3 fr ps e elapsed a = Inr
     (if \<exists>(t, s) \<in> set (rp_tools rep). \<exists>b. baseline_of fl ps previous t = Inr (Some b) \<and> 0 < b \<and> NOISE_FLOOR_MS \<le> max b (p95 s)
          \<and> fl P95_REGRESSION_LIMIT < fl (fl (p95 s - b) / b) then 1 else 0)"
proof -
  have "filter regressed vs \<noteq> [] \<longleftrightarrow> (\<exists>v \<in> set vs. regressed v)" by (auto simp: filter_empty_conv)
  also have "\<dots> \<longleftrightarrow> (\<exists>(t, s) \<in> set (rp_tools rep). \<exists>b. baseline_of fl ps previous t = Inr (Some b) \<and> 0 < b \<and> NOISE_FLOOR_MS \<le> max b (p95 s)
      \<and> fl P95_REGRESSION_LIMIT < fl (fl (p95 s - b) / b))"
    unfolding verdicts_set [OF assms(5)] using regressed_verdict by (auto simp: case_prod_beta; metis fst_conv snd_conv)
  finally show ?thesis unfolding replay_main_def Let_def assms(1) bind_res_simps assms(2-4) sum.case option.case assms(5) by simp
qed

text \<open>A baseline that was rounded to zero is skipped whatever the tool takes now.\<close>

lemma zero_baseline_skipped: "verdict_of fl t 0 now = SkippedBaseline t 0"
  by (simp add: verdict_of_def)

section \<open>Instances\<close>

definition one_file :: "string \<Rightarrow> (string \<times> string) list" where
  "one_file stem = [(stem, dumps (\<lambda>r. []) (JObj [(''tool'', JStr ''orders.get_order''), (''arguments'', JObj demo_get),
     (''upstream'', JObj [(''status'', JInt 200), (''body'', demo_order)])]))]"

definition one_fixture :: fixture where
  "one_fixture = \<lparr>fx_name = ''f'', fx_tool = JStr ''orders.get_order'', fx_arguments = JObj demo_get, fx_status = JInt 200,
     fx_body = demo_order, fx_rag = JNull\<rparr>"

lemma one_loaded: "load_fixtures (\<lambda>r. r) (one_file ''f'') = Inr [one_fixture]"
proof -
  let ?v = "JObj [(''tool'', JStr ''orders.get_order''), (''arguments'', JObj demo_get),
     (''upstream'', JObj [(''status'', JInt 200), (''body'', demo_order)])]"
  have "loads (\<lambda>r. r) (dumps (\<lambda>r. []) ?v) = Inr ?v"
    by (rule loads_dumps) (simp add: demo_get_def demo_order_def dict_ok_def)
  then show ?thesis by (simp add: load_fixtures_def one_file_def fixture_of_def raw_item_def raw_get_def get_or_def one_fixture_def)
qed

definition replay_env :: tool_env where
  "replay_env = demo_env (set_request_identity [] []) (Inl Cancelled)"

lemma one_call: "\<exists>v. replayed_call (snd (enforce_strict_tool_schemas mcp_server)) (\<lambda>r. []) replay_env one_fixture = Inr v"
proof -
  have "case replayed_call (snd (enforce_strict_tool_schemas mcp_server)) (\<lambda>r. []) replay_env one_fixture of Inr v \<Rightarrow> True | Inl x \<Rightarrow> False"
    by code_simp
  then show ?thesis by (auto split: sum.splits)
qed

definition replay_args_of :: "string option \<Rightarrow> replay_args" where
  "replay_args_of prev = \<lparr>ar_files = one_file ''f'', ar_repeats = 2, ar_warmup = 1, ar_previous = prev\<rparr>"

definition one_stats :: tool_stats where
  "one_stats = \<lparr>ts_samples = 2, p50 = 2, p95 = 2, p99 = 2\<rparr>"

lemma one_run:
  "run_replay (\<lambda>r. r) (\<lambda>r. r) (replay_once (snd (enforce_strict_tool_schemas mcp_server)) (\<lambda>r. []) replay_env of_nat) [one_fixture] 2 1
   = Inr \<lparr>rp_fixtures = 1, rp_repeats = 2, rp_warmup = 1, rp_tools = [(''orders.get_order'', one_stats)]\<rparr>"
proof -
  obtain v where v: "replayed_call (snd (enforce_strict_tool_schemas mcp_server)) (\<lambda>r. []) replay_env one_fixture = Inr v"
    using one_call by blast
  have once: "replay_once (snd (enforce_strict_tool_schemas mcp_server)) (\<lambda>r. []) replay_env of_nat one_fixture n = Inr (of_nat n)" for n
    by (simp add: replay_once_def v)
  have "percentiles (\<lambda>r. r) (\<lambda>r. r) [1, 2] = one_stats" by code_simp
  moreover have "tool_name one_fixture = ''orders.get_order''" by (simp add: tool_name_def one_fixture_def)
  ultimately show ?thesis by (simp add: run_replay_def once samples_of_def dict_set_simps upt_rec numeral_2_eq_2)
qed

theorem green_replay_measured_witness:
  "replay_main (\<lambda>r. r) (\<lambda>r. r) (\<lambda>r. []) (\<lambda>s. None) replay_env of_nat (replay_args_of None) = Inr 0
   \<and> (\<exists>fx v. fx_tool fx = JStr ''orders.get_order'' \<and> replayed_call hardened (\<lambda>r. []) replay_env fx = Inr v)"
proof -
  have m: "replay_main (\<lambda>r. r) (\<lambda>r. r) (\<lambda>r. []) (\<lambda>s. None) replay_env of_nat (replay_args_of None) = Inr 0"
    by (simp add: replay_main_def replay_args_of_def one_loaded one_run)
  from green_replay_measured [OF m] obtain fx name args v where "load_fixtures (\<lambda>r. r) (one_file ''f'') = Inr [fx]" "fx_tool fx = JStr name"
    "fx_arguments fx = JObj args"
    "fst (call_tool hardened (request_context (\<lambda>r. []) fx replay_env) name args (None, \<lparr>sent_http = [], log_lines = []\<rparr>)) = Inr v"
    by (auto simp: replay_args_of_def one_loaded hardened_def)
  then have "fx = one_fixture" "replayed_call hardened (\<lambda>r. []) replay_env fx = Inr v" using one_loaded by (simp_all add: replayed_call_def)
  then show ?thesis using m by (intro conjI exI [of _ one_fixture] exI [of _ v]) (simp_all add: one_fixture_def)
qed

theorem gate_red_iff_witness:
  "replay_main (\<lambda>r. r) (\<lambda>r. r) (\<lambda>r. []) (\<lambda>s. None) replay_env of_nat
     (replay_args_of (Some (dumps (\<lambda>r. []) (JObj [(''tools'', JObj [(''orders.get_order'', JObj [(''p95'', JInt 1)])])])))) = Inr 1"
proof -
  let ?prev = "JObj [(''tools'', JObj [(''orders.get_order'', JObj [(''p95'', JInt 1)])])]"
  have b: "baseline_of (\<lambda>r. r) (\<lambda>s. None) ?prev ''orders.get_order'' = Inr (Some 1)"
    by (simp add: baseline_of_def raw_get_def get_or_def raw_item_def py_float_def)
  have l: "loads (\<lambda>r. r) (dumps (\<lambda>r. []) ?prev) = Inr ?prev" by (rule loads_dumps) (simp add: dict_ok_def)
  have v: "verdicts (\<lambda>r. r) (\<lambda>s. None) [(''orders.get_order'', one_stats)] ?prev = Inr [verdict_of (\<lambda>r. r) ''orders.get_order'' 1 2]"
    using b by (simp add: one_stats_def)
  from gate_red_iff [of "\<lambda>r. r" "replay_args_of (Some (dumps (\<lambda>r. []) ?prev))" "[one_fixture]" "\<lambda>r. r" "\<lambda>r. []" replay_env of_nat _ _ ?prev
      "\<lambda>s. None" "[verdict_of (\<lambda>r. r) ''orders.get_order'' 1 2]"]
  show ?thesis using one_loaded one_run l v b
    by (simp add: replay_args_of_def one_stats_def NOISE_FLOOR_MS_def P95_REGRESSION_LIMIT_def)
qed

theorem percentiles_are_samples_witness:
  "p95 (percentiles (\<lambda>r. r) (\<lambda>r. r) [3, 1, 2]) \<in> {3, 1, 2} \<and> p99 (percentiles (\<lambda>r. r) (\<lambda>r. r) [3, 1, 2]) \<le> 3"
  using percentiles_are_samples [of "[3, 1, 2]" "\<lambda>r. r" "\<lambda>r. r"] by (simp add: mono_def Let_def)


theorem p95_of_twenty_is_slowest_witness:
  "p95 (percentiles (\<lambda>r. r) (\<lambda>r. r) (map of_nat [0..<20])) = 19"
proof -
  have "Max (set (map of_nat [0..<20] :: rat list)) = 19"
    by (rule Max_eqI) (auto simp: image_iff intro: bexI [of _ "19 :: nat"])
  then show ?thesis using p95_of_twenty_is_slowest [of "map of_nat [0..<20]" "\<lambda>r. r" "\<lambda>r. r"] by simp
qed

theorem report_counts_witness:
  "ts_samples one_stats = 2 * length (filter (\<lambda>fx. tool_name fx = ''orders.get_order'') [one_fixture])"
  using report_counts [OF one_run] by simp

end
