(* ===== verification/IngestDag.thy ===== *)
theory IngestDag
  imports CorpusStore Cache
begin

text \<open>
  \<open>taxcalc_ai/dags/rag_svc_ingest.py\<close>: the daily ingest as a chain of five tasks over the modelled
  corpus, chunker, gate, loader and cache. The scheduler runs a task again after a failure, at most
  \<open>RETRIES\<close> times, and a task whose predecessor failed for good is not run; an attempt may be cut short
  by a fault of its surroundings between two of its effects. Logging is left out.
\<close>

section \<open>What the tasks share\<close>

text \<open>
  \<open>ig_corpus\<close> is the file the environment names (suffix, columns, rows), or none when the variable is
  unset; \<open>ig_redis\<close> and \<open>ig_dsn\<close> say whether the cache's and the database's address are set. The other fields are the arguments of the
  functions the tasks call.
\<close>

record ingest_env =
  ig_corpus :: "(string \<times> string list \<times> frame_row list) option"
  ig_redis :: bool
  ig_dsn :: bool
  ig_split :: "int \<Rightarrow> int \<Rightarrow> source_doc list \<Rightarrow> source_doc list"
  ig_repr :: "json \<Rightarrow> string"
  ig_int :: "string \<Rightarrow> int option"
  ig_sha :: "string \<Rightarrow> string"
  ig_encode :: "string \<Rightarrow> rat list"
  ig_model :: string
  ig_now :: int

record ingest_world =
  iw_table :: "corpus_row list"
  iw_redis :: redis

(* src/taxcalc-ai/src/taxcalc_ai/dags/rag_svc_ingest.py:54-58 TENANTS *)
definition INGEST_TENANTS :: "string list" where
  "INGEST_TENANTS = [''tenant-a'', ''tenant-b'', ''tenant-c'']"

definition corpus_frame :: "ingest_env \<Rightarrow> frame_row list res" where
  "corpus_frame e = (case ig_corpus e of
     None \<Rightarrow> Inl (KeyError ''TAXCALC_AI_CORPUS_PATH'')
   | Some (ext, columns, rows) \<Rightarrow> load_corpus ext columns rows)"

(* src/taxcalc-ai/src/taxcalc_ai/dags/rag_svc_ingest.py:239-267 _documents_for *)
definition documents_for :: "ingest_env \<Rightarrow> string list option \<Rightarrow> source_doc list res" where
  "documents_for e doc_ids = bind_res (corpus_frame e) (\<lambda>frame.
     let kept = (case doc_ids of None \<Rightarrow> frame | Some ids \<Rightarrow> filter (\<lambda>r. f_doc r \<in> set ids) frame)
     in Inr (map (\<lambda>r. \<lparr>page_content = f_text r, doc_meta = [(''doc_id'', JStr (f_doc r)), (''tenant_id'', JStr (f_tenant r))]\<rparr>) kept))"

definition split_docs :: "ingest_env \<Rightarrow> string list option \<Rightarrow> source_doc list res" where
  "split_docs e ids = bind_res (documents_for e ids) (\<lambda>ds. chunk_docs (ig_split e) (ig_repr e) ds DEFAULT_CHUNK_SIZE DEFAULT_OVERLAP)"

definition corpus_candidates :: "ingest_env \<Rightarrow> candidate list res" where
  "corpus_candidates e = bind_res (split_docs e None) (candidates_from_chunks (ig_repr e) (ig_int e))"

section \<open>An attempt\<close>

text \<open>The surroundings let an attempt finish, or fail it before its n-th effect.\<close>

datatype fault = NoFault | FailsAt nat exn

definition reading :: "'a res \<Rightarrow> fault \<Rightarrow> 'w \<Rightarrow> 'a res \<times> 'w" where
  "reading r f w = (case f of NoFault \<Rightarrow> (r, w) | FailsAt n x \<Rightarrow> (Inl x, w))"

(* src/taxcalc-ai/src/taxcalc_ai/dags/rag_svc_ingest.py:98-118 taxcalc_ai_ingest_dag.load_docs *)
definition load_docs :: "ingest_env \<Rightarrow> string list res" where
  "load_docs e = bind_res (corpus_frame e) (\<lambda>frame. Inr (sort (remdups (map f_doc frame))))"

(* src/taxcalc-ai/src/taxcalc_ai/dags/rag_svc_ingest.py:120-138 taxcalc_ai_ingest_dag.chunk_docs *)
definition count_chunks :: "ingest_env \<Rightarrow> string list \<Rightarrow> nat res" where
  "count_chunks e doc_ids = bind_res (split_docs e (Some doc_ids)) (\<lambda>chunks. Inr (length chunks))"

(* src/taxcalc-ai/src/taxcalc_ai/pgvector_loader.py:183-191 dsn_from_env *)
definition dsn_from_env :: "ingest_env \<Rightarrow> unit res" where
  "dsn_from_env e = (if ig_dsn e then Inr () else Inl (KeyError ''TAXCALC_AI_PG_DSN''))"

(* src/taxcalc-ai/src/taxcalc_ai/dags/rag_svc_ingest.py:140-167 taxcalc_ai_ingest_dag.embed_chunks *)
definition embed_chunks :: "ingest_env \<Rightarrow> nat \<Rightarrow> ingest_world \<Rightarrow> nat res" where
  "embed_chunks e chunk_count w = bind_res (corpus_candidates e) (\<lambda>cs. bind_res (dsn_from_env e) (\<lambda>_.
     Inr (length (pending_candidates (ig_sha e) (iw_table w) cs (ig_model e)))))"

text \<open>One effect: the transaction of the load. A fault after it finds the rows written.\<close>

(* src/taxcalc-ai/src/taxcalc_ai/dags/rag_svc_ingest.py:169-193 taxcalc_ai_ingest_dag.upsert_chunks *)
definition upsert_chunks :: "ingest_env \<Rightarrow> nat \<Rightarrow> fault \<Rightarrow> ingest_world \<Rightarrow> nat res \<times> ingest_world" where
  "upsert_chunks e pending_count f w = (case bind_res (dsn_from_env e) (\<lambda>_. corpus_candidates e) of
     Inl x \<Rightarrow> (Inl x, w)
   | Inr cs \<Rightarrow>
       (case f of
          FailsAt 0 x \<Rightarrow> (Inl x, w)
        | _ \<Rightarrow> (let (r, t) = embed_pending (ig_sha e) (ig_encode e) (iw_table w) cs (ig_model e)
                in ((case (f, r) of (FailsAt n x, Inr m) \<Rightarrow> Inl x | _ \<Rightarrow> r), w\<lparr>iw_table := t\<rparr>))))"

text \<open>One effect for each tenant.\<close>

fun bump_tenants :: "int \<Rightarrow> fault \<Rightarrow> nat \<Rightarrow> string list \<Rightarrow> redis \<Rightarrow> unit res \<times> redis" where
  "bump_tenants now f i [] r = ((case f of NoFault \<Rightarrow> Inr () | FailsAt n x \<Rightarrow> Inl x), r)"
| "bump_tenants now f i (t # ts) r =
     (case f of
        FailsAt n x \<Rightarrow> (if n = i then (Inl x, r)
           else (case bump_epoch now r t of (Inl y, r') \<Rightarrow> (Inl y, r') | (Inr k, r') \<Rightarrow> bump_tenants now f (i + 1) ts r'))
      | NoFault \<Rightarrow> (case bump_epoch now r t of (Inl y, r') \<Rightarrow> (Inl y, r') | (Inr k, r') \<Rightarrow> bump_tenants now f (i + 1) ts r'))"

(* src/taxcalc-ai/src/taxcalc_ai/dags/rag_svc_ingest.py:195-220 taxcalc_ai_ingest_dag.bump_cache_epochs *)
definition bump_cache_epochs :: "ingest_env \<Rightarrow> nat \<Rightarrow> fault \<Rightarrow> ingest_world \<Rightarrow> unit res \<times> ingest_world" where
  "bump_cache_epochs e upserted f w =
     (if \<not> ig_redis e then (Inl (KeyError ''TAXCALC_AI_REDIS_URL''), w)
      else let (r, s) = bump_tenants (ig_now e) f 0 INGEST_TENANTS (iw_redis w) in (r, w\<lparr>iw_redis := s\<rparr>))"

section \<open>The chain\<close>

(* src/taxcalc-ai/src/taxcalc_ai/dags/rag_svc_ingest.py:81-85 default_args *)
definition RETRIES :: nat where "RETRIES = 2"

fun attempts_of :: "(fault \<Rightarrow> 'w \<Rightarrow> 'a res \<times> 'w) \<Rightarrow> (nat \<Rightarrow> fault) \<Rightarrow> nat \<Rightarrow> nat \<Rightarrow> 'w \<Rightarrow> 'a res \<times> 'w" where
  "attempts_of task f 0 k w = task (f k) w"
| "attempts_of task f (Suc n) k w = (case task (f k) w of (Inl x, w') \<Rightarrow> attempts_of task f n (k + 1) w' | ok \<Rightarrow> ok)"

record dag_run =
  dr_failed :: "string option"
  dr_world :: ingest_world

definition then_run :: "string \<Rightarrow> 'a res \<times> ingest_world \<Rightarrow> ('a \<Rightarrow> ingest_world \<Rightarrow> dag_run) \<Rightarrow> dag_run" where
  "then_run name out next_task = (case out of (Inl x, w) \<Rightarrow> \<lparr>dr_failed = Some name, dr_world = w\<rparr> | (Inr a, w) \<Rightarrow> next_task a w)"

(* src/taxcalc-ai/src/taxcalc_ai/dags/rag_svc_ingest.py:69-236 taxcalc_ai_ingest_dag *)
definition taxcalc_ai_ingest_dag :: "ingest_env \<Rightarrow> (string \<Rightarrow> nat \<Rightarrow> fault) \<Rightarrow> ingest_world \<Rightarrow> dag_run" where
  "taxcalc_ai_ingest_dag e faults w =
     then_run ''load_docs'' (attempts_of (reading (load_docs e)) (faults ''load_docs'') RETRIES 0 w) (\<lambda>ids w.
     then_run ''chunk_docs'' (attempts_of (reading (count_chunks e ids)) (faults ''chunk_docs'') RETRIES 0 w) (\<lambda>n w.
     then_run ''embed_chunks'' (attempts_of (\<lambda>f w. reading (embed_chunks e n w) f w) (faults ''embed_chunks'') RETRIES 0 w) (\<lambda>p w.
     then_run ''upsert_chunks'' (attempts_of (upsert_chunks e p) (faults ''upsert_chunks'') RETRIES 0 w) (\<lambda>u w.
     then_run ''bump_cache_epochs'' (attempts_of (bump_cache_epochs e u) (faults ''bump_cache_epochs'') RETRIES 0 w) (\<lambda>_ w.
       \<lparr>dr_failed = None, dr_world = w\<rparr>)))))"

section \<open>Attempts\<close>

lemma attempts_keep:
  assumes "attempts_of task f n k w = (r, w')" and "P w"
    and step: "\<And>g u x u'. P u \<Longrightarrow> task g u = (x, u') \<Longrightarrow> P u' \<and> (\<forall>a. x = Inr a \<longrightarrow> Q a u')"
  shows "P w' \<and> (\<forall>a. r = Inr a \<longrightarrow> Q a w')"
  using assms(1,2)
proof (induction n arbitrary: k w)
  case 0
  then show ?case using step by simp
next
  case (Suc n)
  obtain x u where t: "task (f k) w = (x, u)" by (cases "task (f k) w")
  show ?case
  proof (cases x)
    case (Inl y)
    then show ?thesis using Suc.IH [of "k + 1" u] Suc.prems t step [OF Suc.prems(2) t] by simp
  next
    case (Inr a)
    then show ?thesis using Suc.prems t step [OF Suc.prems(2) t] by simp
  qed
qed

lemma attempts_succeed:
  assumes "P w" and "j \<le> n" and "f (k + j) = NoFault"
    and step: "\<And>g u x u'. P u \<Longrightarrow> task g u = (x, u') \<Longrightarrow> P u'"
    and good: "\<And>u. P u \<Longrightarrow> \<exists>a u'. task NoFault u = (Inr a, u')"
  shows "\<exists>a w'. attempts_of task f n k w = (Inr a, w')"
  using assms(1-3)
proof (induction n arbitrary: k w j)
  case 0
  then show ?case using good [OF 0(1)] by simp
next
  case (Suc n)
  obtain x u where t: "task (f k) w = (x, u)" by (cases "task (f k) w")
  show ?case
  proof (cases x)
    case (Inl y)
    then have "f k \<noteq> NoFault" using good [OF Suc.prems(1)] t by auto
    then obtain i where "j = Suc i" using Suc.prems(3) by (cases j) auto
    then show ?thesis using Suc.IH [OF step [OF Suc.prems(1) t], of i "k + 1"] Suc.prems t Inl by simp
  qed (use t in simp)
qed

lemma reading_step: "reading r g u = (x, u') \<Longrightarrow> u' = u \<and> (\<forall>a. x = Inr a \<longrightarrow> r = Inr a)"
  by (cases g) (auto simp: reading_def)

lemma attempts_reading:
  assumes "attempts_of (reading r) f n k w = (x, w')"
  shows "w' = w \<and> (\<forall>a. x = Inr a \<longrightarrow> r = Inr a)"
proof (rule attempts_keep [where P = "\<lambda>u. u = w" and Q = "\<lambda>a u. r = Inr a", OF assms refl])
  fix g u y u' assume "u = w" "reading r g u = (y, u')"
  then show "u' = w \<and> (\<forall>a. y = Inr a \<longrightarrow> r = Inr a)" using reading_step [of r g u y u'] by simp
qed

section \<open>The candidates of a corpus\<close>

lemma stamp_positions:
  "c \<in> set (stamp rp seen cs) \<Longrightarrow> \<exists>d n. dict_get (doc_meta c) ''doc_id'' = Some (JStr d) \<and> dict_get (doc_meta c) ''chunk_ordinal'' = Some (JInt (int n))
     \<and> stamped_id c = Some (JStr (chunk_id_for d n))"
  by (induction cs arbitrary: seen) (auto simp: Let_def stamped_id_def)

lemma candidate_position:
  assumes "bind_res (py_int it (get_or md ''chunk_ordinal'' (JInt 0))) (\<lambda>i. Inr \<lparr>c_doc = py_str rp (get_or md ''doc_id'' (JStr UNKNOWN_DOC_ID)),
      c_idx = i, c_text = x, c_tenant = t, c_meta = m\<rparr>) = Inr cand"
    and "dict_get md ''chunk_ordinal'' = Some (JInt n)" and "dict_get md ''doc_id'' = Some (JStr d)"
  shows "c_doc cand = d \<and> c_idx cand = n"
  using assms by (auto simp: get_or_def py_int_def py_str_def)

lemma candidates_distinct:
  assumes "corpus_candidates e = Inr cs"
  shows "distinct (map (\<lambda>c. (c_doc c, c_idx c)) cs)"
proof -
  obtain chunks where ch: "split_docs e None = Inr chunks" and cs: "candidates_from_chunks (ig_repr e) (ig_int e) chunks = Inr cs"
    using assms by (auto simp: corpus_candidates_def bind_res_eq_Inr)
  obtain ds where st: "chunks = stamp (ig_repr e) [] ds"
    using ch by (auto simp: split_docs_def chunk_docs_def bind_res_eq_Inr)
  have len: "length cs = length chunks" using cs map_res_length by (fastforce simp: candidates_from_chunks_def)
  have id: "stamped_id (chunks ! i) = Some (JStr (chunk_id_for (c_doc (cs ! i)) (nat (c_idx (cs ! i)))))" if i: "i < length cs" for i
  proof -
    obtain d n where dn: "dict_get (doc_meta (chunks ! i)) ''doc_id'' = Some (JStr d)" "dict_get (doc_meta (chunks ! i)) ''chunk_ordinal'' = Some (JInt (int n))"
      "stamped_id (chunks ! i) = Some (JStr (chunk_id_for d n))"
      using stamp_positions [of "chunks ! i" "ig_repr e" "[]" ds] i len st by auto
    have "c_doc (cs ! i) = d \<and> c_idx (cs ! i) = int n"
      using candidate_position [OF map_res_nth [OF cs [unfolded candidates_from_chunks_def]] dn(2,1)] i len by simp
    then show ?thesis using dn(3) by simp
  qed
  show ?thesis
  proof (subst distinct_conv_nth, intro allI impI)
    fix i j assume ij: "i < length (map (\<lambda>c. (c_doc c, c_idx c)) cs)" "j < length (map (\<lambda>c. (c_doc c, c_idx c)) cs)" "i \<noteq> j"
    have "stamped_id (chunks ! i) \<noteq> stamped_id (chunks ! j)"
      using stamp_distinct [of "ig_repr e" ds] ij len st by (auto simp: distinct_conv_nth)
    then show "map (\<lambda>c. (c_doc c, c_idx c)) cs ! i \<noteq> map (\<lambda>c. (c_doc c, c_idx c)) cs ! j"
      using id ij by auto
  qed
qed

section \<open>The load\<close>

text \<open>Where a run's table may stand: as it was, or with the whole load committed.\<close>

definition loaded :: "ingest_env \<Rightarrow> candidate list \<Rightarrow> corpus_row list \<Rightarrow> corpus_row list \<Rightarrow> bool" where
  "loaded e cs t t' \<longleftrightarrow> (\<exists>n. embed_pending (ig_sha e) (ig_encode e) t cs (ig_model e) = (Inr n, t'))"

definition load_state :: "ingest_env \<Rightarrow> candidate list \<Rightarrow> ingest_world \<Rightarrow> ingest_world \<Rightarrow> bool" where
  "load_state e cs w u \<longleftrightarrow> table_ok (iw_table u) \<and> iw_redis u = iw_redis w \<and> (iw_table u = iw_table w \<or> loaded e cs (iw_table w) (iw_table u))"

lemma embed_failed: "embed_pending sha en t cs m = (Inl x, t') \<Longrightarrow> t' = t"
  by (auto simp: embed_pending_def Let_def load_rows_def split: if_splits prod.splits)

lemma embed_table_ok: "table_ok t \<Longrightarrow> embed_pending sha en t cs m = (r, t') \<Longrightarrow> table_ok t'"
  using pg.write_all_ok [of t] load_rows_cases
  by (fastforce simp: embed_pending_def Let_def execute_many_write_all split: if_splits)

lemma embed_from:
  assumes "load_state e cs w u" and "table_ok (iw_table w)" and "corpus_candidates e = Inr cs"
    and "embed_pending (ig_sha e) (ig_encode e) (iw_table u) cs (ig_model e) = (r, t')"
  shows "table_ok t' \<and> (t' = iw_table w \<or> loaded e cs (iw_table w) t') \<and> (\<forall>n. r = Inr n \<longrightarrow> loaded e cs (iw_table w) t')"
proof (cases "iw_table u = iw_table w")
  case True
  then show ?thesis using assms(4) embed_failed embed_table_ok [OF assms(2)] by (cases r) (fastforce simp: loaded_def)+
next
  case False
  then obtain n where n: "embed_pending (ig_sha e) (ig_encode e) (iw_table w) cs (ig_model e) = (Inr n, iw_table u)"
    using assms(1) by (auto simp: load_state_def loaded_def)
  then have "embed_pending (ig_sha e) (ig_encode e) (iw_table u) cs (ig_model e) = (Inr 0, iw_table u)"
    using reembed_nothing [OF assms(2) candidates_distinct [OF assms(3)] n] by blast
  then show ?thesis using assms(1,4) n by (auto simp: load_state_def loaded_def)
qed

lemma upsert_step:
  assumes "load_state e cs w u" and "table_ok (iw_table w)" and "corpus_candidates e = Inr cs" and "upsert_chunks e p f u = (r, u')"
  shows "load_state e cs w u' \<and> (\<forall>n. r = Inr n \<longrightarrow> loaded e cs (iw_table w) (iw_table u'))"
proof -
  obtain q t where em: "embed_pending (ig_sha e) (ig_encode e) (iw_table u) cs (ig_model e) = (q, t)"
    by (cases "embed_pending (ig_sha e) (ig_encode e) (iw_table u) cs (ig_model e)")
  note em_from = embed_from [OF assms(1-3) em]
  show ?thesis
  proof (cases "ig_dsn e \<and> \<not> (\<exists>x. f = FailsAt 0 x)")
    case True
    then have "u' = u\<lparr>iw_table := t\<rparr>" "\<forall>n. r = Inr n \<longrightarrow> q = Inr n"
      using assms(3,4) em by (auto simp: upsert_chunks_def dsn_from_env_def Let_def split: fault.splits nat.splits sum.splits)
    then show ?thesis using em_from assms(1) by (auto simp: load_state_def)
  next
    case False
    then have "u' = u \<and> (\<exists>y. r = Inl y)" using assms(3,4) by (cases "ig_dsn e") (auto simp: upsert_chunks_def dsn_from_env_def)
    then show ?thesis using assms(1) by auto
  qed
qed

lemma reading_at_step: "reading (r u) g u = (x, u') \<Longrightarrow> u = w \<Longrightarrow> u' = w \<and> (\<forall>a. x = Inr a \<longrightarrow> r w = Inr a)"
  using reading_step [of "r u" g u x u'] by simp

lemma attempts_reading_at:
  assumes "attempts_of (\<lambda>f u. reading (r u) f u) f n k w = (x, w')"
  shows "w' = w \<and> (\<forall>a. x = Inr a \<longrightarrow> r w = Inr a)"
  by (rule attempts_keep [where P = "\<lambda>u. u = w" and Q = "\<lambda>a u. r w = Inr a", OF assms refl]) (rule reading_at_step)

lemma attempts_upsert:
  assumes "attempts_of (upsert_chunks e p) f n k w = (x, w')" and "table_ok (iw_table w)" and "corpus_candidates e = Inr cs"
  shows "load_state e cs w w' \<and> (\<forall>a. x = Inr a \<longrightarrow> loaded e cs (iw_table w) (iw_table w'))"
  using assms(2) by (intro attempts_keep [where P = "load_state e cs w" and Q = "\<lambda>a u. loaded e cs (iw_table w) (iw_table u)", OF assms(1)])
    (simp add: load_state_def, rule upsert_step [OF _ assms(2,3)])

section \<open>The bump\<close>

text \<open>
  What some bumps of the given tenants do to the cache: nothing is removed or added but epochs, no
  epoch falls, and other tenants' epochs stand.
\<close>

definition aged :: "('v \<Rightarrow> string) \<Rightarrow> string list \<Rightarrow> redis \<Rightarrow> redis \<Rightarrow> bool" where
  "aged digest ts r r' \<longleftrightarrow> cache_inv digest r' \<and> (\<forall>t. cur_epoch r t \<le> cur_epoch r' t) \<and> (\<forall>t. t \<notin> set ts \<longrightarrow> cur_epoch r' t = cur_epoch r t)
     \<and> (\<forall>q t n. dict_get r' (bucket_key digest q t n) = dict_get r (bucket_key digest q t n))"

lemma aged_bump:
  assumes "aged digest ts s r" and "t \<in> set ts"
  shows "\<exists>k. bump_epoch now r t = (Inr k, snd (bump_epoch now r t))" and "aged digest ts s (snd (bump_epoch now r t))"
    and "cur_epoch r t < cur_epoch (snd (bump_epoch now r t)) t"
proof -
  have inv: "cache_inv digest r" using assms(1) by (simp add: aged_def)
  note b = bump_cases [OF inv, of now t]
  show "\<exists>k. bump_epoch now r t = (Inr k, snd (bump_epoch now r t))" by (simp add: b)
  show "cur_epoch r t < cur_epoch (snd (bump_epoch now r t)) t" by (simp add: b cur_epoch_set)
  show "aged digest ts s (snd (bump_epoch now r t))"
    using assms bump_inv [OF inv, of now t] by (auto simp: aged_def b cur_epoch_set epoch_not_bucket [symmetric] le_SucI)
qed

lemma aged_refl: "cache_inv digest r \<Longrightarrow> aged digest ts r r"
  by (simp add: aged_def)

lemma aged_trans: "aged digest ts r s \<Longrightarrow> aged digest ts s u \<Longrightarrow> aged digest ts r u"
  by (simp add: aged_def) (meson order_trans)

lemma bump_tenants_step:
  "bump_tenants now f i (t # ts) r = (x, r') \<Longrightarrow> bump_epoch now r t = (Inr k, s) \<Longrightarrow>
     (r' = r \<and> (\<exists>y. x = Inl y)) \<or> bump_tenants now f (i + 1) ts s = (x, r')"
  by (auto split: fault.splits if_splits)

lemma bump_tenants_age:
  "bump_tenants now f i ts r = (x, r') \<Longrightarrow> cache_inv digest r \<Longrightarrow> set ts \<subseteq> set bumped \<Longrightarrow>
     aged digest bumped r r' \<and> (\<forall>u. x = Inr u \<longrightarrow> (\<forall>t \<in> set ts. cur_epoch r t < cur_epoch r' t))"
proof (induction ts arbitrary: i r)
  case Nil
  then show ?case using aged_refl by simp
next
  case (Cons t ts)
  let ?s = "snd (bump_epoch now r t)"
  have t: "t \<in> set bumped" and ts: "set ts \<subseteq> set bumped" using Cons.prems(3) by auto
  note b = aged_bump [OF aged_refl [OF Cons.prems(2)] t, of now]
  obtain k where k: "bump_epoch now r t = (Inr k, ?s)" using b(1) by blast
  have inv: "cache_inv digest ?s" using b(2) by (simp add: aged_def)
  from bump_tenants_step [OF Cons.prems(1) k] show ?case
  proof
    assume "r' = r \<and> (\<exists>y. x = Inl y)"
    then show ?thesis using aged_refl [OF Cons.prems(2)] by auto
  next
    assume "bump_tenants now f (i + 1) ts ?s = (x, r')"
    note ih = Cons.IH [OF this inv ts]
    have le: "cur_epoch r u \<le> cur_epoch ?s u" "cur_epoch ?s u \<le> cur_epoch r' u" for u
      using b(2) ih by (simp_all add: aged_def)
    then have "cur_epoch r t < cur_epoch r' t" using b(3) by (meson less_le_trans)
    moreover have "\<forall>u. x = Inr u \<longrightarrow> (\<forall>t \<in> set ts. cur_epoch r t < cur_epoch r' t)"
      using ih le(1) by (auto intro: le_less_trans)
    ultimately show ?thesis using ih aged_trans [OF b(2)] by simp
  qed
qed

lemma aged_get: "aged digest ts r r' \<Longrightarrow> r_get now r' (bucket_key digest q t n) = r_get now r (bucket_key digest q t n)"
  by (simp add: aged_def r_get_def)

lemma aged_epoch: "aged digest ts r r' \<Longrightarrow> get_epoch now r' t = Inr (cur_epoch r' t)"
  using get_epoch_cur [of digest r' now t] by (simp add: aged_def)

lemma aged_lookup_other:
  assumes "cache_inv digest r" and "aged digest ts r r'" and "t \<notin> set ts"
  shows "cache_lookup fl digest now r' q t = cache_lookup fl digest now r q t"
proof -
  have "cur_epoch r' t = cur_epoch r t" using assms(2,3) by (simp add: aged_def)
  then show ?thesis by (simp add: cache_lookup_def aged_epoch [OF assms(2)] get_epoch_cur [OF assms(1)] aged_get [OF assms(2)])
qed

lemma aged_lookup_miss:
  assumes "cache_inv digest r" and "aged digest ts r r'" and "cur_epoch r t < cur_epoch r' t"
  shows "cache_lookup fl digest now r' q t = Inr None"
proof -
  have "dict_get r (bucket_key digest q t (cur_epoch r' t)) = None"
    using assms(1,3) unfolding cache_inv_def by (metis not_le)
  then have "r_get now r' (bucket_key digest q t (cur_epoch r' t)) = None" using aged_get [OF assms(2)] by (simp add: r_get_def)
  then show ?thesis by (simp add: cache_lookup_def aged_epoch [OF assms(2)])
qed

lemma bump_step:
  assumes "aged digest INGEST_TENANTS s (iw_redis u) \<and> iw_table u = t" and "bump_cache_epochs e n f u = (x, u')"
  shows "(aged digest INGEST_TENANTS s (iw_redis u') \<and> iw_table u' = t)
    \<and> (\<forall>a. x = Inr a \<longrightarrow> (\<forall>t \<in> set INGEST_TENANTS. cur_epoch s t < cur_epoch (iw_redis u') t))"
proof (cases "ig_redis e")
  case True
  obtain r' where b: "bump_tenants (ig_now e) f 0 INGEST_TENANTS (iw_redis u) = (x, r')" and u': "u' = u\<lparr>iw_redis := r'\<rparr>"
    using assms(2) True by (auto simp: bump_cache_epochs_def Let_def split: prod.splits)
  have inv: "cache_inv digest (iw_redis u)" and le: "\<forall>t. cur_epoch s t \<le> cur_epoch (iw_redis u) t" using assms(1) by (simp_all add: aged_def)
  note age = bump_tenants_age [OF b inv order_refl]
  then have "aged digest INGEST_TENANTS s r'" using aged_trans assms(1) by blast
  moreover have "\<forall>a. x = Inr a \<longrightarrow> (\<forall>t \<in> set INGEST_TENANTS. cur_epoch s t < cur_epoch r' t)"
    using age le by (auto intro: le_less_trans)
  ultimately show ?thesis using assms(1) by (simp add: u')
next
  case False
  then show ?thesis using assms by (auto simp: bump_cache_epochs_def)
qed

lemma attempts_bump:
  assumes "attempts_of (bump_cache_epochs e n) f m k w = (x, w')" and "cache_inv digest (iw_redis w)"
  shows "aged digest INGEST_TENANTS (iw_redis w) (iw_redis w') \<and> iw_table w' = iw_table w
    \<and> (\<forall>a. x = Inr a \<longrightarrow> (\<forall>t \<in> set INGEST_TENANTS. cur_epoch (iw_redis w) t < cur_epoch (iw_redis w') t))"
proof -
  have "(aged digest INGEST_TENANTS (iw_redis w) (iw_redis w') \<and> iw_table w' = iw_table w)
    \<and> (\<forall>a. x = Inr a \<longrightarrow> (\<forall>t \<in> set INGEST_TENANTS. cur_epoch (iw_redis w) t < cur_epoch (iw_redis w') t))"
    using aged_refl [OF assms(2)]
    by (intro attempts_keep [where P = "\<lambda>u. aged digest INGEST_TENANTS (iw_redis w) (iw_redis u) \<and> iw_table u = iw_table w"
        and Q = "\<lambda>a u. \<forall>t \<in> set INGEST_TENANTS. cur_epoch (iw_redis w) t < cur_epoch (iw_redis u) t", OF assms(1)])
      (simp, rule bump_step)
  then show ?thesis by blast
qed

section \<open>A run\<close>

text \<open>How far a run got: a task before the load failed, the load failed for good, or the bump was reached.\<close>

lemma dag_reach:
  assumes "table_ok (iw_table w)" and "taxcalc_ai_ingest_dag e faults w = d"
  obtains (reading) "dr_world d = w" "dr_failed d \<in> {Some ''load_docs'', Some ''chunk_docs'', Some ''embed_chunks''}"
  | (loading) cs where "corpus_candidates e = Inr cs" "load_state e cs w (dr_world d)" "dr_failed d = Some ''upsert_chunks''"
  | (bumping) cs n u x where "corpus_candidates e = Inr cs" "load_state e cs w u" "loaded e cs (iw_table w) (iw_table u)"
      "attempts_of (bump_cache_epochs e n) (faults ''bump_cache_epochs'') RETRIES 0 u = (x, dr_world d)"
      "dr_failed d = (case x of Inl y \<Rightarrow> Some ''bump_cache_epochs'' | Inr a \<Rightarrow> None)"
proof -
  obtain r1 w1 where a1: "attempts_of (reading (load_docs e)) (faults ''load_docs'') RETRIES 0 w = (r1, w1)" by (rule prod.exhaust)
  note w1 = attempts_reading [OF a1, THEN conjunct1]
  show thesis
  proof (cases r1)
    case (Inl y)
    then show thesis using assms(2) a1 w1 by (intro reading) (auto simp: taxcalc_ai_ingest_dag_def then_run_def)
  next
    case (Inr ids)
    obtain r2 w2 where a2: "attempts_of (reading (count_chunks e ids)) (faults ''chunk_docs'') RETRIES 0 w = (r2, w2)" by (rule prod.exhaust)
    note w2 = attempts_reading [OF a2, THEN conjunct1]
    note d1 = assms(2) [unfolded taxcalc_ai_ingest_dag_def then_run_def a1 w1 Inr prod.case sum.case a2]
    show thesis
    proof (cases r2)
      case (Inl y)
      then show thesis using d1 w2 by (intro reading) auto
    next
      case (Inr m)
      obtain r3 w3 where a3: "attempts_of (\<lambda>f w. reading (embed_chunks e m w) f w) (faults ''embed_chunks'') RETRIES 0 w = (r3, w3)" by (rule prod.exhaust)
      note w3 = attempts_reading_at [OF a3]
      note d2 = d1 [unfolded w2 Inr prod.case sum.case a3]
      show thesis
      proof (cases r3)
        case (Inl y)
        then show thesis using d2 w3 by (intro reading) auto
      next
        case (Inr p)
        then obtain cs where cs: "corpus_candidates e = Inr cs" using w3 by (auto simp: embed_chunks_def bind_res_eq_Inr)
        obtain r4 w4 where a4: "attempts_of (upsert_chunks e p) (faults ''upsert_chunks'') RETRIES 0 w = (r4, w4)" by (rule prod.exhaust)
        note w4 = attempts_upsert [OF a4 assms(1) cs]
        note d3 = d2 [unfolded w3 [THEN conjunct1] Inr prod.case sum.case a4]
        show thesis
        proof (cases r4)
          case (Inl y)
          then show thesis using d3 w4 cs by (intro loading) auto
        next
          case (Inr n)
          obtain r5 w5 where a5: "attempts_of (bump_cache_epochs e n) (faults ''bump_cache_epochs'') RETRIES 0 w4 = (r5, w5)" by (rule prod.exhaust)
          note d4 = d3 [unfolded Inr prod.case sum.case a5]
          have "dr_world d = w5" "dr_failed d = (case r5 of Inl y \<Rightarrow> Some ''bump_cache_epochs'' | Inr a \<Rightarrow> None)"
            using d4 by (auto split: sum.splits)
          then show thesis using bumping [OF cs] w4 Inr a5 by auto
        qed
      qed
    qed
  qed
qed

section \<open>A run to look at\<close>

definition demo_env :: ingest_env where
  "demo_env = \<lparr>ig_corpus = Some (''.jsonl'', REQUIRED_COLUMNS, [\<lparr>f_doc = ''d'', f_idx = 0, f_text = ''x'', f_tenant = ''tenant-a''\<rparr>]),
     ig_redis = True, ig_dsn = True, ig_split = (\<lambda>c v ds. ds), ig_repr = (\<lambda>v. []), ig_int = (\<lambda>s. None), ig_sha = (\<lambda>s. s),
     ig_encode = (\<lambda>s. [1]), ig_model = ''m'', ig_now = 0\<rparr>"

definition demo_world :: ingest_world where
  "demo_world = \<lparr>iw_table = [], iw_redis = []\<rparr>"

text \<open>Every task's first attempt fails: the load's after its commit, the bump's after one tenant.\<close>

definition demo_faults :: "string \<Rightarrow> nat \<Rightarrow> fault" where
  "demo_faults name k = (if k = 0 then FailsAt 1 TimeoutError else NoFault)"

lemma demo_start: "table_ok (iw_table demo_world)" "cache_inv demo_digest (iw_redis demo_world)"
  by (simp_all add: demo_world_def table_ok_def cache_inv_empty)

definition demo_cand :: candidate where
  "demo_cand = \<lparr>c_doc = ''d'', c_idx = 0, c_text = ''x'', c_tenant = ''tenant-a'',
     c_meta = [(''doc_id'', JStr ''d''), (''tenant_id'', JStr ''tenant-a''), (''chunk_ordinal'', JInt 0), (''chunk_id'', JStr ''chunk-d-p0'')]\<rparr>"

lemma demo_candidates: "corpus_candidates demo_env = Inr [demo_cand]"
  by code_simp

lemma demo_load: "embed_pending (ig_sha demo_env) (ig_encode demo_env) (iw_table demo_world) [demo_cand] (ig_model demo_env)
    = (Inr 1, [candidate_row (\<lambda>s. s) (\<lambda>s. [1]) ''m'' demo_cand])"
  by (simp add: demo_env_def demo_world_def embed_pending_def pending_candidates_def stored_hash_def find_row_def load_rows_def upsert_def)

lemma demo_done: "dr_failed (taxcalc_ai_ingest_dag demo_env demo_faults demo_world) = None"
  by code_simp

lemma demo_bumped: "cur_epoch (iw_redis (dr_world (taxcalc_ai_ingest_dag demo_env demo_faults demo_world))) ''tenant-a'' = 2"
  by code_simp

section \<open>Properties\<close>

lemma loaded_current:
  assumes "table_ok t" and "corpus_candidates e = Inr cs" and "loaded e cs t t'"
  shows "pending_candidates (ig_sha e) t' cs (ig_model e) = [] \<and> table_ok t'
    \<and> embed_pending (ig_sha e) (ig_encode e) t' cs (ig_model e) = (Inr 0, t')"
proof -
  obtain n where n: "embed_pending (ig_sha e) (ig_encode e) t cs (ig_model e) = (Inr n, t')" using assms(3) by (auto simp: loaded_def)
  show ?thesis using reembed_nothing [OF assms(1) candidates_distinct [OF assms(2)] n] embed_table_ok [OF assms(1) n] by simp
qed

lemma bump_reached:
  assumes "load_state e cs w u" and "attempts_of (bump_cache_epochs e n) f k j u = (x, w')" and "cache_inv digest (iw_redis w)"
  shows "aged digest INGEST_TENANTS (iw_redis w) (iw_redis w') \<and> iw_table w' = iw_table u
    \<and> (\<forall>a. x = Inr a \<longrightarrow> (\<forall>t \<in> set INGEST_TENANTS. cur_epoch (iw_redis w) t < cur_epoch (iw_redis w') t))"
  using attempts_bump [OF assms(2), of digest] assms(1,3) by (simp add: load_state_def)





section \<open>Retries\<close>

lemma documents_for_all:
  assumes "load_docs e = Inr ids"
  shows "documents_for e (Some ids) = documents_for e None"
proof -
  obtain frame where f: "corpus_frame e = Inr frame" and ids: "ids = sort (remdups (map f_doc frame))"
    using assms by (auto simp: load_docs_def bind_res_eq_Inr)
  have "filter (\<lambda>r. f_doc r \<in> set ids) frame = frame" by (simp add: ids filter_id_conv)
  then show ?thesis by (simp add: documents_for_def f)
qed

lemma candidates_need:
  assumes "corpus_candidates e = Inr cs"
  shows "\<exists>ids n. load_docs e = Inr ids \<and> count_chunks e ids = Inr n"
proof -
  obtain chunks where ch: "split_docs e None = Inr chunks" using assms by (auto simp: corpus_candidates_def bind_res_eq_Inr)
  then obtain frame where "corpus_frame e = Inr frame" by (auto simp: split_docs_def documents_for_def bind_res_eq_Inr)
  then obtain ids where ids: "load_docs e = Inr ids" by (simp add: load_docs_def)
  have "count_chunks e ids = Inr (length chunks)"
    using ch documents_for_all [OF ids] by (simp add: count_chunks_def split_docs_def)
  then show ?thesis using ids by blast
qed

lemma reading_succeeds:
  assumes "r w = Inr a" and "j \<le> n" and "f j = NoFault"
  shows "attempts_of (\<lambda>f u. reading (r u) f u) f n 0 w = (Inr a, w)"
proof -
  have "\<exists>b w'. attempts_of (\<lambda>f u. reading (r u) f u) f n 0 w = (Inr b, w')"
  proof (rule attempts_succeed [where P = "\<lambda>u. u = w" and j = j])
    show "f (0 + j) = NoFault" using assms(3) by simp
    show "\<And>u. u = w \<Longrightarrow> \<exists>a u'. reading (r u) NoFault u = (Inr a, u')" using assms(1) by (simp add: reading_def)
    show "\<And>g u x u'. u = w \<Longrightarrow> reading (r u) g u = (x, u') \<Longrightarrow> u' = w" using reading_step by metis
  qed (use assms(2) in simp_all)
  then obtain b w' where b: "attempts_of (\<lambda>f u. reading (r u) f u) f n 0 w = (Inr b, w')" by blast
  show ?thesis using b attempts_reading_at [OF b] assms(1) by simp
qed

lemma upsert_succeeds:
  assumes "table_ok (iw_table w)" and "corpus_candidates e = Inr cs" and dsn: "ig_dsn e" and "loaded e cs (iw_table w) t" and "j \<le> n" and "f j = NoFault"
  shows "\<exists>m w'. attempts_of (upsert_chunks e p) f n 0 w = (Inr m, w')"
proof (rule attempts_succeed [where P = "load_state e cs w" and j = j])
  show "f (0 + j) = NoFault" using assms(6) by simp
  show "load_state e cs w w" using assms(1) by (simp add: load_state_def)
  show "\<And>g u x u'. load_state e cs w u \<Longrightarrow> upsert_chunks e p g u = (x, u') \<Longrightarrow> load_state e cs w u'"
    using upsert_step [OF _ assms(1,2)] by blast
  fix u assume u: "load_state e cs w u"
  have "\<exists>m t'. embed_pending (ig_sha e) (ig_encode e) (iw_table u) cs (ig_model e) = (Inr m, t')"
  proof (cases "iw_table u = iw_table w")
    case True
    then show ?thesis using assms(4) by (auto simp: loaded_def)
  next
    case False
    then have "loaded e cs (iw_table w) (iw_table u)" using u by (simp add: load_state_def)
    then show ?thesis using loaded_current [OF assms(1,2)] by blast
  qed
  then obtain m t' where "embed_pending (ig_sha e) (ig_encode e) (iw_table u) cs (ig_model e) = (Inr m, t')" by blast
  then show "\<exists>a u'. upsert_chunks e p NoFault u = (Inr a, u')" using assms(2) dsn by (simp add: upsert_chunks_def dsn_from_env_def)
qed (use assms(5) in simp)

lemma bump_tenants_succeeds: "cache_inv digest r \<Longrightarrow> \<exists>r'. bump_tenants now NoFault i ts r = (Inr (), r')"
proof (induction ts arbitrary: i r)
  case (Cons t ts)
  have "cache_inv digest (dict_set (epoch_key t) (nat_str (cur_epoch r t + 1), None) r)"
    using bump_inv [OF Cons.prems, of 0 t] by (simp add: bump_cases [OF Cons.prems])
  then show ?case using Cons.IH by (simp add: bump_cases [OF Cons.prems])
qed simp

lemma bump_succeeds:
  assumes "cache_inv digest (iw_redis w)" and "ig_redis e" and "j \<le> n" and "f j = NoFault"
  shows "\<exists>w'. attempts_of (bump_cache_epochs e m) f n 0 w = (Inr (), w')"
proof -
  have "\<exists>a w'. attempts_of (bump_cache_epochs e m) f n 0 w = (Inr a, w')"
  proof (rule attempts_succeed [where P = "\<lambda>u. aged digest INGEST_TENANTS (iw_redis w) (iw_redis u) \<and> iw_table u = iw_table w" and j = j])
    show "f (0 + j) = NoFault" using assms(4) by simp
    show "aged digest INGEST_TENANTS (iw_redis w) (iw_redis w) \<and> iw_table w = iw_table w" using aged_refl [OF assms(1)] by simp
    fix u :: ingest_world assume u: "aged digest INGEST_TENANTS (iw_redis w) (iw_redis u) \<and> iw_table u = iw_table w"
    then show "\<And>g x u'. bump_cache_epochs e m g u = (x, u') \<Longrightarrow> aged digest INGEST_TENANTS (iw_redis w) (iw_redis u') \<and> iw_table u' = iw_table w"
      using bump_step by blast
    have "cache_inv digest (iw_redis u)" using u by (simp add: aged_def)
    then obtain r' where "bump_tenants (ig_now e) NoFault 0 INGEST_TENANTS (iw_redis u) = (Inr (), r')" using bump_tenants_succeeds by blast
    then show "\<exists>a u'. bump_cache_epochs e m NoFault u = (Inr a, u')" using assms(2) by (simp add: bump_cache_epochs_def)
  qed (use assms(3) in simp)
  then show ?thesis by simp
qed



end
