(* ===== verification/RagasReport.thy ===== *)
theory RagasReport
  imports RagHistory PolicyMatch
begin

text \<open>
  \<open>taxcalc_ai/eval/run_ragas.py\<close>: the evaluation report over the pipeline's four flags. A column asks
  the questions of the golden set, after a bump of the tenant's cache epoch, and is scored by a judge;
  the report replaces the marked region of a file. Arguments: what the pipeline takes, the clock, the
  judge's frame of scores per row, and the mean of a list of floats. Logging and printing are left out.
\<close>

section \<open>Constants\<close>

(* src/taxcalc-ai/src/taxcalc_ai/eval/run_ragas.py:55-61 METRICS *)
definition METRICS :: "string list" where
  "METRICS = [''faithfulness'', ''answer_relevancy'', ''context_precision'', ''context_recall'']"

(* src/taxcalc-ai/src/taxcalc_ai/eval/run_ragas.py:63-71 GATE_THRESHOLD *)
definition GATE_THRESHOLD :: rat where "GATE_THRESHOLD = 70 / 100"

text \<open>The text a format string prints for it.\<close>

definition GATE_TEXT :: string where "GATE_TEXT = ''0.7''"

(* src/taxcalc-ai/src/taxcalc_ai/eval/run_ragas.py:73-77 SUB_GATE_FLAG *)
definition SUB_GATE_FLAG :: string where "SUB_GATE_FLAG = '' :warning:''"

(* src/taxcalc-ai/src/taxcalc_ai/eval/run_ragas.py:79-82 MATRIX_BEGIN *)
definition MATRIX_BEGIN :: string where
  "MATRIX_BEGIN = ''<!-- BEGIN:matrix (generated by run_ragas.py - do not edit) -->''"

(* src/taxcalc-ai/src/taxcalc_ai/eval/run_ragas.py:83-83 MATRIX_END *)
definition MATRIX_END :: string where "MATRIX_END = ''<!-- END:matrix -->''"

(* src/taxcalc-ai/src/taxcalc_ai/eval/run_ragas.py:86-100 _measured *)
definition is_measured :: "fval option \<Rightarrow> bool" where
  "is_measured v = (case v of Some (Num x) \<Rightarrow> True | _ \<Rightarrow> False)"

(* src/taxcalc-ai/src/taxcalc_ai/eval/run_ragas.py:103-118 Configuration *)
record configuration =
  cf_name :: string
  cf_hybrid :: bool
  cf_mmr :: bool
  cf_rerank :: bool
  cf_filter :: bool

(* src/taxcalc-ai/src/taxcalc_ai/eval/run_ragas.py:121-131 CONFIGURATIONS *)
definition CONFIGURATIONS :: "configuration list" where
  "CONFIGURATIONS =
     [\<lparr>cf_name = ''W7D2 baseline'', cf_hybrid = False, cf_mmr = False, cf_rerank = False, cf_filter = False\<rparr>,
      \<lparr>cf_name = ''hybrid'', cf_hybrid = True, cf_mmr = False, cf_rerank = False, cf_filter = False\<rparr>,
      \<lparr>cf_name = ''rerank'', cf_hybrid = False, cf_mmr = False, cf_rerank = True, cf_filter = False\<rparr>,
      \<lparr>cf_name = ''mmr'', cf_hybrid = False, cf_mmr = True, cf_rerank = False, cf_filter = False\<rparr>,
      \<lparr>cf_name = ''filter'', cf_hybrid = False, cf_mmr = False, cf_rerank = False, cf_filter = True\<rparr>,
      \<lparr>cf_name = ''all-on'', cf_hybrid = True, cf_mmr = True, cf_rerank = True, cf_filter = True\<rparr>]"

section \<open>A column\<close>

record sample =
  sm_question :: string
  sm_answer :: string
  sm_contexts :: "string list"
  sm_truth :: string

text \<open>
  \<open>rg_golden\<close> holds the lines of the golden set, \<open>rg_clock\<close> the time at which a column asks its n-th
  question; \<open>rg_redis\<close> and \<open>rg_dsn\<close> say whether the two addresses are set.
\<close>

record ragas_env =
  rg_rag :: rag_env
  rg_rows :: "corpus_row list"
  rg_clock :: "string \<Rightarrow> nat \<Rightarrow> int"
  rg_golden :: "string list"
  rg_redis :: bool
  rg_dsn :: bool
  rg_repr :: "json \<Rightarrow> string"
  rg_judge :: "sample list \<Rightarrow> (string, fval list) dict res"
  rg_mean :: "rat list \<Rightarrow> rat"

definition py_take :: "int \<Rightarrow> 'a list \<Rightarrow> 'a list" where
  "py_take n xs = (if 0 \<le> n then take (nat n) xs else take (nat (int (length xs) + n)) xs)"

(* src/taxcalc-ai/src/taxcalc_ai/eval/run_ragas.py:134-146 _load_questions *)
definition load_questions :: "ragas_env \<Rightarrow> int option \<Rightarrow> (string \<times> string) list res" where
  "load_questions e limit =
     bind_res (map_res (loads (rag_fl (rg_rag e))) (filter (\<lambda>l. strip l \<noteq> []) (rg_golden e))) (\<lambda>rows.
       bind_res (map_res (\<lambda>row. bind_res (json_item row ''question'') (\<lambda>q. bind_res (json_item row ''ground_truth'') (\<lambda>g.
                   Inr (py_str (rg_repr e) q, py_str (rg_repr e) g)))) rows) (\<lambda>pairs.
         Inr (case limit of None \<Rightarrow> pairs | Some n \<Rightarrow> py_take n pairs)))"

definition flags_of :: "configuration \<Rightarrow> rag_flags" where
  "flags_of c = \<lparr>use_hybrid = Some (cf_hybrid c), use_mmr = Some (cf_mmr c), use_rerank = Some (cf_rerank c), use_filter = Some (cf_filter c)\<rparr>"

definition citation_text :: "(json \<Rightarrow> string) \<Rightarrow> json \<Rightarrow> string list res" where
  "citation_text rp c = (case c of JObj d \<Rightarrow> bind_res (json_item c ''chunk_text'') (\<lambda>v. Inr [py_str rp v]) | _ \<Rightarrow> Inr [])"

(* src/taxcalc-ai/src/taxcalc_ai/eval/run_ragas.py:213-237 record of run_configuration *)
definition sample_of :: "(json \<Rightarrow> string) \<Rightarrow> string \<times> string \<Rightarrow> jdict \<Rightarrow> sample res" where
  "sample_of rp q a =
     bind_res (case dict_get a ''citations'' of Some (JList cs) \<Rightarrow> bind_res (map_res (citation_text rp) cs) (\<lambda>ts. Inr (concat ts)) | _ \<Rightarrow> Inr []) (\<lambda>contexts.
       Inr \<lparr>sm_question = fst q, sm_answer = py_str rp (get_or a ''text'' (JStr [])),
            sm_contexts = (if contexts = [] then [''<no context retrieved>''] else contexts), sm_truth = snd q\<rparr>)"

text \<open>The questions one after the other, on one cache; the first exception ends the column.\<close>

(* src/taxcalc-ai/src/taxcalc_ai/eval/run_ragas.py:199-237 questions loop of run_configuration *)
fun ask_all :: "ragas_env \<Rightarrow> configuration \<Rightarrow> string \<Rightarrow> nat \<Rightarrow> redis \<Rightarrow> (string \<times> string) list \<Rightarrow> sample list res \<times> redis" where
  "ask_all e c tenant i r [] = (Inr [], r)"
| "ask_all e c tenant i r (q # qs) =
     (let out = retrieve_and_generate (rg_rag e) (flags_of c) (rg_rows e) (rg_clock e (cf_name c) i) r (fst q) tenant None
      in case bind_res (rag_result out) (sample_of (rg_repr e) q) of
           Inl x \<Rightarrow> (Inl x, rag_cache out)
         | Inr s \<Rightarrow> (case ask_all e c tenant (i + 1) (rag_cache out) qs of
              (Inl x, r') \<Rightarrow> (Inl x, r')
            | (Inr ss, r') \<Rightarrow> (Inr (s # ss), r')))"

text \<open>The mean of a column of a frame passes over entries that are no numbers.\<close>

definition column_mean :: "(rat list \<Rightarrow> rat) \<Rightarrow> fval list \<Rightarrow> fval" where
  "column_mean mean vs = (let ns = concat (map (\<lambda>v. case v of Num x \<Rightarrow> [x] | NaN \<Rightarrow> []) vs) in if ns = [] then NaN else Num (mean ns))"

(* src/taxcalc-ai/src/taxcalc_ai/eval/run_ragas.py:242-287 _score *)
definition score_dataset :: "ragas_env \<Rightarrow> sample list \<Rightarrow> (string, fval) dict res" where
  "score_dataset e samples = bind_res (rg_judge e samples) (\<lambda>frame.
     Inr (concat (map (\<lambda>m. case dict_get frame m of None \<Rightarrow> [] | Some vs \<Rightarrow> [(m, column_mean (rg_mean e) vs)]) METRICS)))"

(* src/taxcalc-ai/src/taxcalc_ai/eval/run_ragas.py:149-239 run_configuration *)
definition run_configuration ::
  "ragas_env \<Rightarrow> configuration \<Rightarrow> (string \<times> string) list \<Rightarrow> string \<Rightarrow> redis \<Rightarrow> (string, fval) dict res \<times> redis" where
  "run_configuration e c qs tenant r =
     (if \<not> rg_redis e then (Inl (KeyError ''TAXCALC_AI_REDIS_URL''), r)
      else case bump_epoch (rg_clock e (cf_name c) 0) r tenant of
        (Inl x, r') \<Rightarrow> (Inl x, r')
      | (Inr k, r') \<Rightarrow>
          (if \<not> rg_dsn e then (Inl (KeyError ''TAXCALC_AI_PG_DSN''), r')
           else case ask_all e c tenant 0 r' qs of
             (Inl x, r'') \<Rightarrow> (Inl x, r'')
           | (Inr ss, r'') \<Rightarrow> (score_dataset e ss, r'')))"

section \<open>The report\<close>

type_synonym scores = "(string, (string, fval) dict) dict"

definition score_at :: "scores \<Rightarrow> string \<Rightarrow> string \<Rightarrow> fval option" where
  "score_at scores name metric = (case dict_get scores name of None \<Rightarrow> None | Some d \<Rightarrow> dict_get d metric)"

text \<open>\<open>{x:.2f}\<close>: two decimals, half to even, with the sign of \<open>x\<close> also when nothing else is left of it.\<close>

definition cents :: "rat \<Rightarrow> nat" where
  "cents x = nat (py_round (\<bar>x\<bar> * 100))"

definition fixed2 :: "rat \<Rightarrow> string" where
  "fixed2 x = (if x < 0 then ''-'' else []) @ nat_str (cents x div 100) @ ''.''
     @ [digit_char (cents x mod 100 div 10), digit_char (cents x mod 10)]"

definition signed2 :: "rat \<Rightarrow> string" where
  "signed2 x = (if x < 0 then fixed2 x else CHR ''+'' # fixed2 x)"

definition names :: "string list" where
  "names = map cf_name CONFIGURATIONS"

(* src/taxcalc-ai/src/taxcalc_ai/eval/run_ragas.py:303-309 render_report.cell *)
definition cell :: "(rat \<Rightarrow> rat) \<Rightarrow> scores \<Rightarrow> string \<Rightarrow> string \<Rightarrow> string" where
  "cell fl scores name metric = (case score_at scores name metric of
     Some (Num v) \<Rightarrow> fixed2 v @ (if v < fl GATE_THRESHOLD then SUB_GATE_FLAG else [])
   | _ \<Rightarrow> ''n/m'')"

(* src/taxcalc-ai/src/taxcalc_ai/eval/run_ragas.py:320-330 deltas of render_report *)
definition delta_cell :: "(rat \<Rightarrow> rat) \<Rightarrow> scores \<Rightarrow> string \<Rightarrow> string \<Rightarrow> string" where
  "delta_cell fl scores name metric = (case (score_at scores (hd names) metric, score_at scores name metric) of
     (Some (Num base), Some (Num v)) \<Rightarrow> signed2 (fl (v - base))
   | _ \<Rightarrow> ''n/m'')"

definition newline :: string where "newline = [CHR 0x0A]"

definition table_row :: "string \<Rightarrow> string list \<Rightarrow> string" where
  "table_row head cells = ''| '' @ head @ '' | '' @ join '' | '' cells @ '' |''"

definition table_rule :: "nat \<Rightarrow> string" where
  "table_rule n = ''|'' @ concat (replicate n ''---|'')"

definition cells_of :: "(string \<times> string) list" where
  "cells_of = concat (map (\<lambda>c. map (\<lambda>m. (cf_name c, m)) METRICS) CONFIGURATIONS)"

definition below_line :: "scores \<Rightarrow> string \<times> string \<Rightarrow> string" where
  "below_line scores p = (case score_at scores (fst p) (snd p) of
     Some (Num v) \<Rightarrow> ''* `'' @ snd p @ ''` / **'' @ fst p @ ''** - '' @ fixed2 v
       @ (if snd p = ''faithfulness'' then '' **(gates the build)**'' else [])
   | _ \<Rightarrow> [])"

definition is_below :: "(rat \<Rightarrow> rat) \<Rightarrow> scores \<Rightarrow> string \<times> string \<Rightarrow> bool" where
  "is_below fl scores p = (case score_at scores (fst p) (snd p) of Some (Num v) \<Rightarrow> v < fl GATE_THRESHOLD | _ \<Rightarrow> False)"

(* src/taxcalc-ai/src/taxcalc_ai/eval/run_ragas.py:337-373 _render_sub_gate_summary *)
definition render_sub_gate_summary :: "(rat \<Rightarrow> rat) \<Rightarrow> scores \<Rightarrow> string" where
  "render_sub_gate_summary fl scores =
     (let below = map (below_line scores) (filter (is_below fl scores) cells_of);
          unmeasured = length (filter (\<lambda>p. \<not> is_measured (score_at scores (fst p) (snd p))) cells_of);
          total = length CONFIGURATIONS * length METRICS
      in if unmeasured = total
         then ''**Cells below '' @ GATE_TEXT @ '': not determinable - none of the '' @ nat_str total @ '' cells holds a measurement.**''
         else join '' '' ([''**Cells below '' @ GATE_TEXT @ '':**'']
                @ (if below = [] then [''none - every measured cell is at or above '' @ GATE_TEXT @ ''.''] else [])
                @ (if unmeasured \<noteq> 0 then [''('' @ nat_str unmeasured @ '' of '' @ nat_str total @ '' cells not measured.)''] else []))
              @ (if below = [] then [] else newline @ newline @ join newline below))"

(* src/taxcalc-ai/src/taxcalc_ai/eval/run_ragas.py:290-334 render_report *)
definition render_report :: "(rat \<Rightarrow> rat) \<Rightarrow> scores \<Rightarrow> string" where
  "render_report fl scores = join newline
     ([table_row ''Metric'' names, table_rule (length names + 1)]
      @ map (\<lambda>m. table_row m (map (\<lambda>n. cell fl scores n m) names)) METRICS
      @ [[], table_row ''Delta (vs baseline)'' (tl names), table_rule (length (tl names) + 1)]
      @ map (\<lambda>m. table_row m (map (\<lambda>n. delta_cell fl scores n m) (tl names))) METRICS
      @ [[], render_sub_gate_summary fl scores])"

section \<open>The command\<close>

record ragas_args =
  ra_matrix :: bool
  ra_limit :: "int option"

record ragas_out =
  ro_exit :: "int res"
  ro_report :: "string option"
  ro_redis :: redis

definition DEFAULT_RAGAS_TENANT :: string where "DEFAULT_RAGAS_TENANT = ''tenant-a''"

fun run_columns :: "ragas_env \<Rightarrow> (string \<times> string) list \<Rightarrow> configuration list \<Rightarrow> scores \<Rightarrow> redis \<Rightarrow> scores res \<times> redis" where
  "run_columns e qs [] scores r = (Inr scores, r)"
| "run_columns e qs (c # cs) scores r = (case run_configuration e c qs DEFAULT_RAGAS_TENANT r of
     (Inl x, r') \<Rightarrow> (Inl x, r')
   | (Inr col, r') \<Rightarrow> run_columns e qs cs (dict_set (cf_name c) col scores) r')"

definition any_measured :: "scores \<Rightarrow> bool" where
  "any_measured scores \<longleftrightarrow> list_ex (\<lambda>col. list_ex (\<lambda>p. is_measured (Some (snd p))) (snd col)) scores"

(* src/taxcalc-ai/src/taxcalc_ai/eval/run_ragas.py:403-403 selected of main *)
definition selected_columns :: "ragas_args \<Rightarrow> configuration list" where
  "selected_columns args = (if ra_matrix args then CONFIGURATIONS else [hd CONFIGURATIONS, last CONFIGURATIONS])"

(* src/taxcalc-ai/src/taxcalc_ai/eval/run_ragas.py:431-435 generated of main *)
definition generated_region :: "(rat \<Rightarrow> rat) \<Rightarrow> nat \<Rightarrow> configuration list \<Rightarrow> scores \<Rightarrow> string" where
  "generated_region fl asked selected scores =
     newline @ newline @ ''Rows evaluated: '' @ nat_str asked @ '' of the committed golden set. Columns measured: ''
       @ join '', '' (map cf_name selected) @ ''.'' @ newline @ newline @ render_report fl scores @ newline @ newline"

(* src/taxcalc-ai/src/taxcalc_ai/eval/run_ragas.py:435-448 splice of main *)
definition splice_report :: "string option \<Rightarrow> string \<Rightarrow> string" where
  "splice_report existing region =
     (let old = (case existing of None \<Rightarrow> [] | Some s \<Rightarrow> s); generated = MATRIX_BEGIN @ region @ MATRIX_END
      in case partition_at MATRIX_BEGIN old of
           Some (head, rest) \<Rightarrow>
             (if contains old MATRIX_END
              then head @ generated @ (case partition_at MATRIX_END rest of None \<Rightarrow> [] | Some (mid, tail) \<Rightarrow> tail)
              else ''# Before-vs-After RAGAS Report - W7 D3'' @ newline @ newline @ generated @ newline)
         | None \<Rightarrow> ''# Before-vs-After RAGAS Report - W7 D3'' @ newline @ newline @ generated @ newline)"

(* src/taxcalc-ai/src/taxcalc_ai/eval/run_ragas.py:376-450 main *)
definition ragas_main :: "ragas_env \<Rightarrow> ragas_args \<Rightarrow> string option \<Rightarrow> redis \<Rightarrow> ragas_out" where
  "ragas_main e args report r =
     (let selected = selected_columns args
      in case load_questions e (ra_limit args) of
           Inl x \<Rightarrow> \<lparr>ro_exit = Inl x, ro_report = report, ro_redis = r\<rparr>
         | Inr qs \<Rightarrow>
             (case run_columns e qs selected [] r of
                (Inl x, r') \<Rightarrow> \<lparr>ro_exit = Inl x, ro_report = report, ro_redis = r'\<rparr>
              | (Inr scores, r') \<Rightarrow>
                  (if \<not> any_measured scores then \<lparr>ro_exit = Inr 1, ro_report = report, ro_redis = r'\<rparr>
                   else \<lparr>ro_exit = Inr 0,
                          ro_report = Some (splice_report report (generated_region (rag_fl (rg_rag e)) (length qs) selected scores)),
                          ro_redis = r'\<rparr>)))"

section \<open>A column asks anew\<close>

text \<open>What a question yields when nothing is cached: one retrieval under the column's flags and one model call.\<close>

definition asked_anew :: "ragas_env \<Rightarrow> configuration \<Rightarrow> string \<Rightarrow> string \<times> string \<Rightarrow> sample \<Rightarrow> bool" where
  "asked_anew e c tenant q s \<longleftrightarrow> (\<exists>d sp rr b m.
     retrieve_stages (rg_rag e) (flags_of c) (rg_rows e) (rag_encode (rg_rag e) (fst q)) (fst q) tenant None = Inr (d, sp, rr, b)
     \<and> rag_llm (rg_rag e) (build_prompt (fst q) rr) = Inr m
     \<and> s = \<lparr>sm_question = fst q, sm_answer = first_text (content m),
            sm_contexts = (if rr = [] then [''<no context retrieved>''] else map (\<lambda>h. fst (snd h)) rr), sm_truth = snd q\<rparr>)"

definition bucket_of :: "ragas_env \<Rightarrow> string \<times> string \<Rightarrow> string" where
  "bucket_of e q = take HASH_PREFIX_LENGTH (rag_digest (rg_rag e) (rag_encode (rg_rag e) (fst q)))"

lemma citation_texts: "map_res (citation_text rp) (map (citation_of t) hs) = Inr (map (\<lambda>h. [fst (snd h)]) hs)"
  by (induction hs) (simp_all add: citation_text_def citation_of_def json_item_def dict_get_def py_str_def)

lemma fresh_gets:
  "dict_get (with_usage u (fresh_answer e t x d s rr b)) ''citations'' = Some (JList (map (citation_of t) rr))"
  "get_or (with_usage u (fresh_answer e t x d s rr b)) ''text'' v = JStr x"
  by (cases u; simp add: with_usage_def fresh_answer_def get_or_def)+

lemma sample_of_fresh:
  "sample_of rp q (with_usage u (fresh_answer e t x d s rr b)) = Inr \<lparr>sm_question = fst q, sm_answer = x,
     sm_contexts = (if rr = [] then [''<no context retrieved>''] else map (\<lambda>h. fst (snd h)) rr), sm_truth = snd q\<rparr>"
  by (simp add: sample_of_def fresh_gets citation_texts py_str_def concat_map_singleton [of "\<lambda>h. fst (snd h)"])

text \<open>The buckets that may be read in a column: none of a question still to come is filled.\<close>

definition unfilled :: "ragas_env \<Rightarrow> string \<Rightarrow> redis \<Rightarrow> (string \<times> string) list \<Rightarrow> bool" where
  "unfilled e tenant r qs \<longleftrightarrow> cache_inv (rag_digest (rg_rag e)) r \<and> (\<forall>q \<in> set qs.
     dict_get r (bucket_key (rag_digest (rg_rag e)) (rag_encode (rg_rag e) (fst q)) tenant (cur_epoch r tenant)) = None)"

lemma unfilled_miss:
  assumes "unfilled e tenant r (q # qs)"
  shows "cache_lookup fl (rag_digest (rg_rag e)) now r (rag_encode (rg_rag e) (fst q)) tenant = Inr None"
  using assms get_epoch_cur [of "rag_digest (rg_rag e)" r now tenant] by (simp add: unfilled_def cache_lookup_def r_get_def)

lemma unfilled_bump:
  assumes "cache_inv (rag_digest (rg_rag e)) r"
  shows "unfilled e tenant (snd (bump_epoch now r tenant)) qs"
proof -
  have "dict_get r (bucket_key (rag_digest (rg_rag e)) v tenant (cur_epoch r tenant + 1)) = None" for v
    using assms unfolding cache_inv_def by (metis Suc_eq_plus1 Suc_n_not_le_n option.exhaust)
  then show ?thesis
    using bump_inv [OF assms, of now tenant] by (simp add: unfilled_def bump_cases [OF assms] cur_epoch_set epoch_not_bucket [symmetric])
qed

lemma unfilled_store:
  assumes dg: "digest_ok (rag_digest (rg_rag e))" and un: "unfilled e tenant r (q # qs)"
    and new: "\<forall>p \<in> set qs. bucket_of e p \<noteq> bucket_of e q"
    and st: "cache_store fr (rag_digest (rg_rag e)) now r (rag_encode (rg_rag e) (fst q)) tenant a ttl = Inr r'"
  shows "unfilled e tenant r' qs"
proof -
  let ?dg = "rag_digest (rg_rag e)" and ?v = "\<lambda>q. rag_encode (rg_rag e) (fst q)"
  have inv: "cache_inv ?dg r" using un by (simp add: unfilled_def)
  have inv': "cache_inv ?dg r'" using store_inv [OF dg inv st] .
  have cur: "cur_epoch r' tenant = cur_epoch r tenant"
    using get_epoch_store [OF st, of now tenant] get_epoch_cur [OF inv, of now tenant] get_epoch_cur [OF inv', of now tenant] by simp
  have r': "r' = r_set now (bucket_key ?dg (?v q) tenant (cur_epoch r tenant)) (dumps fr (JObj a)) (Some ttl) r"
    using st by (simp add: cache_store_def get_epoch_cur [OF inv])
  have "dict_get r' (bucket_key ?dg (?v p) tenant (cur_epoch r tenant)) = None" if p: "p \<in> set qs" for p
  proof -
    have "bucket_key ?dg (?v p) tenant (cur_epoch r tenant) \<noteq> bucket_key ?dg (?v q) tenant (cur_epoch r tenant)"
    proof
      assume eq: "bucket_key ?dg (?v p) tenant (cur_epoch r tenant) = bucket_key ?dg (?v q) tenant (cur_epoch r tenant)"
      have "bucket_of e p = bucket_of e q" unfolding bucket_of_def using bucket_key_inj [OF dg eq] by blast
      then show False using new p by blast
    qed
    moreover have "dict_get r (bucket_key ?dg (?v p) tenant (cur_epoch r tenant)) = None" using un p by (simp add: unfilled_def)
    ultimately show ?thesis unfolding r' r_set_def by (simp del: dumps.simps)
  qed
  then show ?thesis using inv' unfolding unfilled_def cur by blast
qed

lemma ask_all_anew:
  "ask_all e c tenant i r qs = (Inr ss, r') \<Longrightarrow> digest_ok (rag_digest (rg_rag e)) \<Longrightarrow> unfilled e tenant r qs
     \<Longrightarrow> distinct (map (bucket_of e) qs) \<Longrightarrow> list_all2 (asked_anew e c tenant) qs ss"
proof (induction qs arbitrary: i r ss)
  case (Cons q qs)
  let ?out = "retrieve_and_generate (rg_rag e) (flags_of c) (rg_rows e) (rg_clock e (cf_name c) i) r (fst q) tenant None"
  obtain s ss' where s: "bind_res (rag_result ?out) (sample_of (rg_repr e) q) = Inr s" and rest: "ask_all e c tenant (i + 1) (rag_cache ?out) qs = (Inr ss', r')"
    and ss: "ss = s # ss'"
    using Cons.prems(1) by (auto simp: Let_def split: sum.splits prod.splits)
  obtain a where a: "rag_result ?out = Inr a" "sample_of (rg_repr e) q a = Inr s" using s by (elim bind_res_InrE)
  from a(1) unfilled_miss [OF Cons.prems(3)] obtain d sp rr b m r1 where
    st: "retrieve_stages (rg_rag e) (flags_of c) (rg_rows e) (rag_encode (rg_rag e) (fst q)) (fst q) tenant None = Inr (d, sp, rr, b)"
    and m: "rag_llm (rg_rag e) (build_prompt (fst q) rr) = Inr m"
    and a': "a = with_usage (resp_usage m) (fresh_answer (rg_rag e) tenant (first_text (content m)) d sp rr b)"
    and store: "cache_store (rag_fr (rg_rag e)) (rag_digest (rg_rag e)) (rg_clock e (cf_name c) i) r (rag_encode (rg_rag e) (fst q)) tenant
        (fresh_answer (rg_rag e) tenant (first_text (content m)) d sp rr b) DEFAULT_TTL_SECONDS = Inr r1"
    and r1: "rag_cache ?out = r1"
    by (rule rag_fresh_cases) blast
  have new: "\<forall>p \<in> set qs. bucket_of e p \<noteq> bucket_of e q" using Cons.prems(4) by (simp add: image_iff) metis
  have "asked_anew e c tenant q s" using st m a(2) unfolding a' sample_of_fresh by (auto simp: asked_anew_def)
  moreover have "unfilled e tenant r1 qs" using unfilled_store [OF Cons.prems(2,3) new store] .
  then have "list_all2 (asked_anew e c tenant) qs ss'" using Cons.IH [OF rest [unfolded r1] Cons.prems(2)] Cons.prems(4) by simp
  ultimately show ?case by (simp add: ss)
qed simp

section \<open>What a cell says\<close>

text \<open>Reading a cell back: the number before the decimal point, two digits behind it, the sign in front.\<close>

definition read_fixed :: "string \<Rightarrow> rat option" where
  "read_fixed t = (let neg = starts_with t ''-''; u = (if neg then drop 1 t else t) in
     case partition_at ''.'' u of
       None \<Rightarrow> None
     | Some (a, b) \<Rightarrow>
         (case (str_nat a, str_nat b) of
            (Some n, Some k) \<Rightarrow> (if length b = 2 then Some ((if neg then -1 else 1) * (of_nat n + of_nat k / 100)) else None)
          | _ \<Rightarrow> None))"

lemma py_round_near: "\<bar>of_int (py_round x) - x\<bar> \<le> 1 / 2"
proof -
  have "of_int \<lfloor>x\<rfloor> \<le> x" "x < of_int \<lfloor>x\<rfloor> + 1" by linarith+
  then show ?thesis unfolding py_round_def Let_def by (auto simp: abs_le_iff)
qed

lemma cents_near: "\<bar>of_nat (cents x) / 100 - \<bar>x\<bar>\<bar> \<le> 1 / 200"
proof -
  have "0 \<le> py_round (\<bar>x\<bar> * 100)" using py_round_mono [of 0 "\<bar>x\<bar> * 100"] by (simp add: py_round_def)
  then have "of_nat (cents x) = (of_int (py_round (\<bar>x\<bar> * 100)) :: rat)" by (simp add: cents_def)
  then show ?thesis using py_round_near [of "\<bar>x\<bar> * 100"] by (simp add: abs_le_iff field_simps)
qed

lemma two_digits: "k < 100 \<Longrightarrow> str_nat [digit_char (k div 10), digit_char (k mod 10)] = Some k"
  by (simp add: str_nat_def isdigit_def)

lemma partition_at_point: "CHR ''.'' \<notin> set a \<Longrightarrow> partition_at ''.'' (a @ ''.'' @ b) = Some (a, b)"
  by (induction a) (auto simp: starts_with_prefix)

lemma point_no_digit: "CHR ''.'' \<notin> set (nat_str n)" "CHR ''-'' \<notin> set (nat_str n)" "CHR ''<'' \<notin> set (nat_str n)"
  by (rule nat_str_no_char; simp add: is_digit_def digit_val_def)+

lemma read_unsigned:
  assumes "k < 100"
  shows "partition_at ''.'' (nat_str n @ ''.'' @ [digit_char (k div 10), digit_char (k mod 10)])
    = Some (nat_str n, [digit_char (k div 10), digit_char (k mod 10)])"
  by (rule partition_at_point) (rule point_no_digit)

lemma nat_str_no_minus: "\<not> starts_with (nat_str n @ t) ''-''"
  using point_no_digit(2) [of n] by (cases "nat_str n") (auto simp: starts_with_prefix)

lemma of_nat_cents: "of_nat (c div 100) + of_nat (c mod 100) / 100 = (of_nat c / 100 :: rat)"
proof -
  have "of_nat c = (of_nat (c div 100 * 100 + c mod 100) :: rat)" by simp
  then show ?thesis by (simp only: of_nat_add of_nat_mult) simp
qed

lemma read_fixed2: "read_fixed (fixed2 x) = Some ((if x < 0 then -1 else 1) * (of_nat (cents x) / 100))"
proof -
  let ?k = "cents x mod 100"
  have "cents x mod 10 = ?k mod 10" by (simp add: mod_mod_cancel)
  then have f: "fixed2 x = (if x < 0 then ''-'' else []) @ nat_str (cents x div 100) @ ''.'' @ [digit_char (?k div 10), digit_char (?k mod 10)]"
    by (simp add: fixed2_def)
  show ?thesis
    unfolding f read_fixed_def Let_def using nat_str_no_minus [of "cents x div 100"] two_digits [of ?k] read_unsigned [of ?k "cents x div 100"]
    by (simp add: starts_with_prefix of_nat_cents)
qed

lemma fixed2_near: "\<exists>y. read_fixed (fixed2 x) = Some y \<and> \<bar>y - x\<bar> \<le> 1 / 200"
proof (cases "x < 0")
  case True
  have "\<bar>- (of_nat (cents x) / 100) - x\<bar> = \<bar>of_nat (cents x) / 100 + x\<bar>"
    using abs_minus_cancel [of "of_nat (cents x) / 100 + x"] by simp
  then show ?thesis using cents_near [of x] True by (simp add: read_fixed2)
next
  case False
  then show ?thesis using cents_near [of x] by (intro exI [of _ "of_nat (cents x) / 100"]) (simp add: read_fixed2)
qed

section \<open>The marked region\<close>

lemma set_join: "set (join sep xs) \<subseteq> set sep \<union> (\<Union>x \<in> set xs. set x)"
  by (induction sep xs rule: join.induct) auto

lemma join_no_char: "c \<notin> set sep \<Longrightarrow> (\<And>x. x \<in> set xs \<Longrightarrow> c \<notin> set x) \<Longrightarrow> c \<notin> set (join sep xs)"
  using set_join [of sep xs] by blast

lemma digit_no_lt: "d < 10 \<Longrightarrow> digit_char d \<noteq> CHR ''<''"
  using is_digit_char [of d] by (auto simp: is_digit_def digit_val_def)

lemma fixed2_no_lt: "CHR ''<'' \<notin> set (fixed2 x)" "CHR ''<'' \<notin> set (signed2 x)"
proof -
  have "CHR ''<'' \<noteq> digit_char (cents x mod 100 div 10)" "CHR ''<'' \<noteq> digit_char (cents x mod 10)"
    by (rule not_sym, rule digit_no_lt, simp add: less_mult_imp_div_less)+
  then show "CHR ''<'' \<notin> set (fixed2 x)" by (simp add: fixed2_def point_no_digit)
  then show "CHR ''<'' \<notin> set (signed2 x)" by (simp add: signed2_def)
qed

lemma cell_no_lt: "CHR ''<'' \<notin> set (cell fl scores n m)" "CHR ''<'' \<notin> set (delta_cell fl scores n m)"
  by (simp_all add: cell_def delta_cell_def SUB_GATE_FLAG_def fixed2_no_lt split: option.split fval.split)

lemma name_no_lt: "n \<in> set names \<Longrightarrow> CHR ''<'' \<notin> set n" "m \<in> set METRICS \<Longrightarrow> CHR ''<'' \<notin> set m"
  by (auto simp: names_def CONFIGURATIONS_def METRICS_def)

lemma table_no_lt:
  "CHR ''<'' \<notin> set h \<Longrightarrow> \<forall>x \<in> set xs. CHR ''<'' \<notin> set x \<Longrightarrow> CHR ''<'' \<notin> set (table_row h xs)"
  "CHR ''<'' \<notin> set (table_rule k)"
  using join_no_char [of "CHR ''<''" "'' | ''" xs] by (auto simp: table_row_def table_rule_def)

lemma below_no_lt: "p \<in> set cells_of \<Longrightarrow> CHR ''<'' \<notin> set (below_line scores p)"
  using name_no_lt(1) [of "fst p"] name_no_lt(2) [of "snd p"]
  by (auto simp: below_line_def cells_of_def names_def fixed2_no_lt split: option.split fval.split)

lemma summary_no_lt: "CHR ''<'' \<notin> set (render_sub_gate_summary fl scores)"
proof -
  have "CHR ''<'' \<notin> set (join newline (map (below_line scores) (filter (is_below fl scores) cells_of)))"
    by (rule join_no_char) (auto simp: newline_def below_no_lt)
  moreover have "CHR ''<'' \<notin> set (join '' '' (xs @ ys @ zs))" if "CHR ''<'' \<notin> set (concat (xs @ ys @ zs))" for xs ys zs
    using that by (intro join_no_char) auto
  ultimately show ?thesis
    by (simp add: render_sub_gate_summary_def Let_def GATE_TEXT_def newline_def point_no_digit)
qed

lemma report_no_lt: "CHR ''<'' \<notin> set (render_report fl scores)"
  unfolding render_report_def
proof (rule join_no_char)
  show "CHR ''<'' \<notin> set newline" by (simp add: newline_def)
  have tl: "x \<in> set (tl names) \<Longrightarrow> x \<in> set names" for x by (simp add: list.set_sel(2) names_def CONFIGURATIONS_def)
  fix x assume "x \<in> set ([table_row ''Metric'' names, table_rule (length names + 1)]
      @ map (\<lambda>m. table_row m (map (\<lambda>n. cell fl scores n m) names)) METRICS
      @ [[], table_row ''Delta (vs baseline)'' (tl names), table_rule (length (tl names) + 1)]
      @ map (\<lambda>m. table_row m (map (\<lambda>n. delta_cell fl scores n m) (tl names))) METRICS
      @ [[], render_sub_gate_summary fl scores])"
  then show "CHR ''<'' \<notin> set x"
    by (auto simp: table_no_lt cell_no_lt name_no_lt summary_no_lt tl)
qed

lemma region_no_lt:
  assumes "set selected \<subseteq> set CONFIGURATIONS"
  shows "CHR ''<'' \<notin> set (generated_region fl n selected scores)"
proof -
  have "CHR ''<'' \<notin> set (join '', '' (map cf_name selected))"
    using assms by (intro join_no_char) (auto intro!: name_no_lt(1) simp: names_def)
  then show ?thesis by (simp add: generated_region_def newline_def report_no_lt point_no_digit)
qed

text \<open>A marker whose only bracket is its first character cannot begin inside text without brackets.\<close>

lemma marker_after:
  assumes "CHR ''<'' \<notin> set u" and "CHR ''<'' \<notin> set v" and "CHR ''<'' \<notin> set t" and "v \<noteq> []"
  shows "\<not> contains (u @ CHR ''<'' # butlast v) (CHR ''<'' # v @ t)"
proof
  assume "contains (u @ CHR ''<'' # butlast v) (CHR ''<'' # v @ t)"
  then obtain a b where e: "u @ CHR ''<'' # butlast v = a @ CHR ''<'' # v @ t @ b"
    by (auto simp: contains_sublist sublist_def)
  have b: "CHR ''<'' \<notin> set (butlast v)" using assms(2) in_set_butlastD by metis
  have "takeWhile (\<lambda>c. c \<noteq> CHR ''<'') (u @ CHR ''<'' # butlast v) = u"
    using assms(1) by (subst takeWhile_append2) auto
  moreover have "CHR ''<'' \<notin> set a"
  proof
    assume "CHR ''<'' \<in> set a"
    then have "2 \<le> count_list (a @ CHR ''<'' # v @ t @ b) CHR ''<''" by (auto simp: count_list_append in_set_conv_decomp)
    moreover have "count_list (u @ CHR ''<'' # butlast v) CHR ''<'' = 1"
      using assms(1) b by (simp add: count_list_append count_notin)
    ultimately show False using e by simp
  qed
  then have "takeWhile (\<lambda>c. c \<noteq> CHR ''<'') (a @ CHR ''<'' # v @ t @ b) = a"
    by (subst takeWhile_append2) auto
  ultimately have "u = a" using e by simp
  then have "butlast v = v @ t @ b" using e by simp
  then have "length (butlast v) = length v + length (t @ b)" by simp
  moreover have "0 < length v" using assms(4) by simp
  ultimately show False unfolding length_butlast by linarith
qed

lemma partition_first:
  "sep \<noteq> [] \<Longrightarrow> \<not> contains (a @ butlast sep) sep \<Longrightarrow> partition_at sep (a @ sep @ b) = Some (a, b)"
proof (induction a)
  case Nil
  then show ?case by simp
next
  case (Cons c a)
  have "\<not> starts_with (c # a @ sep @ b) sep"
  proof
    assume "starts_with (c # a @ sep @ b) sep"
    then have "sep = take (length sep) (c # a @ sep @ b)" by (auto simp: starts_with_prefix prefix_def)
    then have "sep = take (length sep) (c # a @ butlast sep)"
      using Cons.prems(1) by (simp add: take_Cons' butlast_conv_take)
    then have "prefix sep (c # a @ butlast sep)" by (metis take_is_prefix)
    then show False using Cons.prems(2) by (simp add: contains_sublist prefix_imp_sublist)
  qed
  moreover have "\<not> contains (a @ butlast sep) sep"
    using Cons.prems(2) by (simp add: contains_sublist sublist_Cons_right)
  ultimately show ?case using Cons.IH Cons.prems(1) by simp
qed

text \<open>A report with its prose: a head without a marker, a region without the closing one, a tail.\<close>

definition keeps_prose :: "string \<Rightarrow> string \<Rightarrow> string \<Rightarrow> bool" where
  "keeps_prose head tail text \<longleftrightarrow> (\<exists>region. text = head @ MATRIX_BEGIN @ region @ MATRIX_END @ tail
     \<and> \<not> contains (head @ butlast MATRIX_BEGIN) MATRIX_BEGIN \<and> \<not> contains (region @ butlast MATRIX_END) MATRIX_END)"

lemma splice_keeps:
  assumes "keeps_prose head tail text" and "CHR ''<'' \<notin> set region"
  shows "keeps_prose head tail (splice_report (Some text) region)"
proof -
  obtain old where t: "text = head @ MATRIX_BEGIN @ old @ MATRIX_END @ tail"
    and no: "\<not> contains (head @ butlast MATRIX_BEGIN) MATRIX_BEGIN" "\<not> contains (old @ butlast MATRIX_END) MATRIX_END"
    using assms(1) by (auto simp: keeps_prose_def)
  have ne: "MATRIX_BEGIN \<noteq> []" "MATRIX_END \<noteq> []" by (simp_all add: MATRIX_BEGIN_def MATRIX_END_def)
  have "contains text MATRIX_END" using contains_append [of "head @ MATRIX_BEGIN @ old" MATRIX_END tail] by (simp add: t)
  moreover have "partition_at MATRIX_BEGIN text = Some (head, old @ MATRIX_END @ tail)"
    unfolding t by (rule partition_first [OF ne(1) no(1)])
  moreover have "partition_at MATRIX_END (old @ MATRIX_END @ tail) = Some (old, tail)"
    by (rule partition_first [OF ne(2) no(2)])
  ultimately have "splice_report (Some text) region = head @ MATRIX_BEGIN @ region @ MATRIX_END @ tail"
    by (simp add: splice_report_def Let_def)
  moreover have "\<not> contains (region @ butlast MATRIX_END) MATRIX_END"
    using marker_after [OF assms(2), of "tl MATRIX_END" "[]"] by (simp add: MATRIX_END_def)
  ultimately show ?thesis using no(1) unfolding keeps_prose_def by blast
qed

section \<open>Properties\<close>

text \<open>
  C20. A column measures its own configuration: whatever earlier columns or earlier runs left in the cache,
  questions that fall into different buckets are each retrieved under the column's flags and answered by
  one model call, and the contexts that are scored are the passages of that retrieval.
\<close>

theorem column_measures_its_flags:
  assumes "digest_ok (rag_digest (rg_rag e))" and "cache_inv (rag_digest (rg_rag e)) r"
    and "distinct (map (bucket_of e) qs)" and "run_configuration e c qs tenant r = (Inr col, r')"
  shows "\<exists>ss. list_all2 (asked_anew e c tenant) qs ss \<and> score_dataset e ss = Inr col"
proof -
  let ?r = "snd (bump_epoch (rg_clock e (cf_name c) 0) r tenant)"
  obtain ss where "ask_all e c tenant 0 ?r qs = (Inr ss, r')" and sc: "score_dataset e ss = Inr col"
    using assms(4) bump_cases [OF assms(2), of "rg_clock e (cf_name c) 0" tenant]
    by (auto simp: run_configuration_def split: if_splits sum.splits prod.splits)
  then show ?thesis using ask_all_anew [OF _ assms(1) unfilled_bump [OF assms(2)] assms(3)] by blast
qed

lemma filter_flag_inert: "retrieve_stages e (flags_of (c\<lparr>cf_filter := b\<rparr>)) t v q tenant None = retrieve_stages e (flags_of c) t v q tenant None"
  by (simp add: retrieve_stages_def flags_of_def flag_or_env_def)

lemma filter_flag_same: "retrieve_and_generate e (flags_of (c\<lparr>cf_filter := b\<rparr>)) t now r q tenant None = retrieve_and_generate e (flags_of c) t now r q tenant None"
  unfolding retrieve_and_generate_def filter_flag_inert by (rule refl)

lemma ask_all_filter: "ask_all e (c\<lparr>cf_filter := b\<rparr>) tenant i r qs = ask_all e c tenant i r qs"
proof (induction qs arbitrary: i r)
  case (Cons q qs)
  have n: "cf_name (c\<lparr>cf_filter := b\<rparr>) = cf_name c" by simp
  show ?case unfolding ask_all.simps filter_flag_same n Cons.IH by (rule refl)
qed simp


text \<open>
  Only a measurement rewrites the report: a run that raises, or whose every score is missing or no
  number, leaves the file as it was, and the latter exits with 1; a run that exits with 0 wrote the table of
  the scores it took, of which at least one is a number.
\<close>

theorem only_measurement_rewrites:
  "case ro_exit (ragas_main e args report r) of
     Inr code \<Rightarrow> (\<exists>qs scores. load_questions e (ra_limit args) = Inr qs
        \<and> run_columns e qs (selected_columns args) [] r = (Inr scores, ro_redis (ragas_main e args report r))
        \<and> code = (if any_measured scores then 0 else 1)
        \<and> ro_report (ragas_main e args report r) = (if any_measured scores
             then Some (splice_report report (generated_region (rag_fl (rg_rag e)) (length qs) (selected_columns args) scores)) else report))
   | Inl x \<Rightarrow> ro_report (ragas_main e args report r) = report"
proof (cases "load_questions e (ra_limit args)")
  case (Inl x)
  then show ?thesis by (simp add: ragas_main_def)
next
  case (Inr qs)
  obtain res r' where rc: "run_columns e qs (selected_columns args) [] r = (res, r')" by (rule prod.exhaust)
  show ?thesis
  proof (cases res)
    case (Inl x)
    then show ?thesis using Inr rc by (simp add: ragas_main_def)
  next
    case scores: (Inr scores)
    show ?thesis using Inr rc scores by (cases "any_measured scores") (simp_all add: ragas_main_def)
  qed
qed

text \<open>
  C22. The prose around the marked region survives every run: if the file holds the two markers, each run
  either leaves it or replaces what is between them, and the file is again one that holds them, with the
  same text before and after.
\<close>

theorem prose_survives:
  assumes "keeps_prose head tail text"
  shows "\<exists>text'. ro_report (ragas_main e args (Some text) r) = Some text' \<and> keeps_prose head tail text'"
proof -
  have "set (selected_columns args) \<subseteq> set CONFIGURATIONS" by (simp add: selected_columns_def CONFIGURATIONS_def)
  then have "keeps_prose head tail (splice_report (Some text) (generated_region fl n (selected_columns args) scores))" for fl n scores
    by (intro splice_keeps [OF assms] region_no_lt)
  then show ?thesis using assms by (simp add: ragas_main_def Let_def split: sum.split prod.split)
qed

text \<open>
  C23. A cell says what was measured: the number of a measured cell reads back within half a hundredth of
  the score and carries the flag exactly when the score is below the gate; every other cell is \<open>n/m\<close>, and
  a difference is given exactly when both of its scores were measured.
\<close>

theorem cell_truthful:
  "(case score_at scores name metric of
      Some (Num v) \<Rightarrow> \<exists>t y. cell fl scores name metric = t @ (if v < fl GATE_THRESHOLD then SUB_GATE_FLAG else [])
                        \<and> read_fixed t = Some y \<and> \<bar>y - v\<bar> \<le> 1 / 200
    | _ \<Rightarrow> cell fl scores name metric = ''n/m'')
   \<and> (delta_cell fl scores name metric = ''n/m'' \<longleftrightarrow>
        \<not> (is_measured (score_at scores (hd names) metric) \<and> is_measured (score_at scores name metric)))"
proof -
  have "signed2 x \<noteq> ''n/m''" for x
  proof
    assume "signed2 x = ''n/m''"
    moreover have "CHR ''.'' \<in> set (signed2 x)" by (simp add: signed2_def fixed2_def)
    ultimately show False by simp
  qed
  then show ?thesis using fixed2_near by (auto simp: cell_def delta_cell_def is_measured_def split: option.split fval.split)
qed

section \<open>Two questions that are one, and other things a report does not show\<close>

text \<open>
  A question asked twice is retrieved once: the second row of the column is scored with the first row's
  answer and contexts, from the cache. The committed golden set asks one of its questions twice.
\<close>

theorem repeated_question_reuses_answer:
  assumes "digest_ok (rag_digest (rg_rag e))" and "cache_inv (rag_digest (rg_rag e)) r" and "unfilled e tenant r [(q, g)]"
    and "ask_all e c tenant i r [(q, g), (q, g2)] = (Inr [s, s2], r')"
    and "rg_clock e (cf_name c) (i + 1) < rg_clock e (cf_name c) i + 3600"
    and "\<And>d sp rr b m. retrieve_stages (rg_rag e) (flags_of c) (rg_rows e) (rag_encode (rg_rag e) q) q tenant None = Inr (d, sp, rr, b)
       \<Longrightarrow> json_ok (rag_fr (rg_rag e)) (rag_fl (rg_rag e)) (JObj (fresh_answer (rg_rag e) tenant m d sp rr b))"
  shows "s2 = s\<lparr>sm_truth := g2\<rparr>"
proof -
  let ?out = "retrieve_and_generate (rg_rag e) (flags_of c) (rg_rows e) (rg_clock e (cf_name c) i) r q tenant None"
  let ?out2 = "retrieve_and_generate (rg_rag e) (flags_of c) (rg_rows e) (rg_clock e (cf_name c) (i + 1)) (rag_cache ?out) q tenant None"
  have s: "bind_res (rag_result ?out) (sample_of (rg_repr e) (q, g)) = Inr s"
    and s2: "bind_res (rag_result ?out2) (sample_of (rg_repr e) (q, g2)) = Inr s2"
    using assms(4) by (auto simp: Let_def split: sum.splits prod.splits)
  obtain a where a: "rag_result ?out = Inr a" "sample_of (rg_repr e) (q, g) a = Inr s" using s by (elim bind_res_InrE)
  have miss: "cache_lookup (rag_fl (rg_rag e)) (rag_digest (rg_rag e)) (rg_clock e (cf_name c) i) r (rag_encode (rg_rag e) q) tenant = Inr None"
    using unfilled_miss [OF assms(3)] by simp
  from a(1) miss obtain d sp rr b m r1 where
    st: "retrieve_stages (rg_rag e) (flags_of c) (rg_rows e) (rag_encode (rg_rag e) q) q tenant None = Inr (d, sp, rr, b)"
    and "rag_llm (rg_rag e) (build_prompt q rr) = Inr m"
    and a': "a = with_usage (resp_usage m) (fresh_answer (rg_rag e) tenant (first_text (content m)) d sp rr b)"
    and store: "cache_store (rag_fr (rg_rag e)) (rag_digest (rg_rag e)) (rg_clock e (cf_name c) i) r (rag_encode (rg_rag e) q) tenant
        (fresh_answer (rg_rag e) tenant (first_text (content m)) d sp rr b) DEFAULT_TTL_SECONDS = Inr r1"
    and r1: "rag_cache ?out = r1"
    by (rule rag_fresh_cases) blast
  let ?f = "fresh_answer (rg_rag e) tenant (first_text (content m)) d sp rr b"
  have "cache_lookup (rag_fl (rg_rag e)) (rag_digest (rg_rag e)) (rg_clock e (cf_name c) (i + 1)) r1 (rag_encode (rg_rag e) q) tenant = Inr (Some ?f)"
    using stored_read [OF assms(6) [OF st] assms(2) store, of "rg_clock e (cf_name c) (i + 1)"] assms(5)
    by (simp add: DEFAULT_TTL_SECONDS_def citations_match_fresh)
  then have "rag_result ?out2 = Inr ?f" using rag_hit r1 by simp
  then have "sample_of (rg_repr e) (q, g2) ?f = Inr s2" using s2 by simp
  then show ?thesis using a(2) sample_of_fresh [of "rg_repr e" "(q, g2)" None] sample_of_fresh [of "rg_repr e" "(q, g)"]
    unfolding a' by (auto simp: with_usage_def)
qed

text \<open>
  A column of which one row was judged and every other came back as no number is a measured column: the
  mean of the one row stands in the table, under a line that says how many rows were evaluated.
\<close>

lemma one_judged_row_is_a_column:
  "column_mean mean (Num x # replicate n NaN) = Num (mean [x])"
  by (induction n) (simp_all add: column_mean_def)

text \<open>With the markers in the wrong order the text after the opening one is dropped.\<close>

lemma swapped_markers_drop_tail:
  "splice_report (Some (MATRIX_END @ MATRIX_BEGIN @ ''prose'')) region = MATRIX_END @ MATRIX_BEGIN @ region @ MATRIX_END"
proof -
  have "partition_at MATRIX_BEGIN (MATRIX_END @ MATRIX_BEGIN @ ''prose'') = Some (MATRIX_END, ''prose'')"
    and "partition_at MATRIX_END ''prose'' = None" and "contains (MATRIX_END @ MATRIX_BEGIN @ ''prose'') MATRIX_END"
    by code_simp+
  then show ?thesis by (simp add: splice_report_def Let_def)
qed

text \<open>A score of 0.80 carries no flag, and one of 0.696 shows the gate's own number beside its flag.\<close>

lemma flags_at_the_gate:
  "cell id [(''hybrid'', [(''faithfulness'', Num (8 / 10)), (''context_recall'', Num (696 / 1000))])] ''hybrid'' ''faithfulness'' = ''0.80''"
  "cell id [(''hybrid'', [(''faithfulness'', Num (8 / 10)), (''context_recall'', Num (696 / 1000))])] ''hybrid'' ''context_recall'' = ''0.70 :warning:''"
  by code_simp+

section \<open>Witnesses\<close>

definition demo_ragas :: ragas_env where
  "demo_ragas = \<lparr>rg_rag = demo_rag, rg_rows = [row_a], rg_clock = (\<lambda>c i. int i), rg_golden = [], rg_redis = True, rg_dsn = True,
     rg_repr = (\<lambda>v. []), rg_judge = (\<lambda>ss. Inr [(''faithfulness'', map (\<lambda>s. Num 1) ss)]), rg_mean = hd\<rparr>"

lemma demo_column: "\<exists>r'. run_configuration demo_ragas (hd CONFIGURATIONS) [(''q'', ''g'')] ''a'' [] = (Inr [(''faithfulness'', Num 1)], r')"
proof -
  have "fst (run_configuration demo_ragas (hd CONFIGURATIONS) [(''q'', ''g'')] ''a'' []) = Inr [(''faithfulness'', Num 1)]" by code_simp
  then show ?thesis by (metis prod.collapse)
qed

lemma demo_flags_hd: "flags_of (hd CONFIGURATIONS) = demo_flags"
  by (simp add: flags_of_def CONFIGURATIONS_def demo_flags_def)

theorem column_measures_its_flags_witness:
  "\<exists>ss. list_all2 (asked_anew demo_ragas (hd CONFIGURATIONS) ''a'') [(''q'', ''g'')] ss
     \<and> score_dataset demo_ragas ss = Inr [(''faithfulness'', Num 1)]"
proof -
  obtain r' where run: "run_configuration demo_ragas (hd CONFIGURATIONS) [(''q'', ''g'')] ''a'' [] = (Inr [(''faithfulness'', Num 1)], r')"
    using demo_column by blast
  show ?thesis
    by (rule column_measures_its_flags [OF _ cache_inv_empty _ run]) (simp_all add: demo_ragas_def demo_digest_ok)
qed

definition demo_report :: string where
  "demo_report = ''above'' @ MATRIX_BEGIN @ ''old'' @ MATRIX_END @ ''below''"

theorem prose_survives_witness:
  "\<exists>text'. ro_report (ragas_main demo_ragas \<lparr>ra_matrix = False, ra_limit = None\<rparr> (Some demo_report) []) = Some text'
     \<and> keeps_prose ''above'' ''below'' text'"
proof -
  have "\<not> contains (''above'' @ butlast MATRIX_BEGIN) MATRIX_BEGIN" "\<not> contains (''old'' @ butlast MATRIX_END) MATRIX_END"
    by code_simp+
  then have "keeps_prose ''above'' ''below'' demo_report" unfolding keeps_prose_def demo_report_def by blast
  then show ?thesis by (rule prose_survives)
qed

lemma demo_twice:
  "case ask_all demo_ragas (hd CONFIGURATIONS) ''a'' 0 [] [(''q'', ''g''), (''q'', ''h'')] of
     (Inr ss, r) \<Rightarrow> length ss = 2 | (Inl x, r) \<Rightarrow> False"
  by code_simp

theorem repeated_question_reuses_answer_witness:
  "\<exists>s r'. ask_all demo_ragas (hd CONFIGURATIONS) ''a'' 0 [] [(''q'', ''g''), (''q'', ''h'')] = (Inr [s, s\<lparr>sm_truth := ''h''\<rparr>], r')"
proof -
  obtain s s2 r' where run: "ask_all demo_ragas (hd CONFIGURATIONS) ''a'' 0 [] [(''q'', ''g''), (''q'', ''h'')] = (Inr [s, s2], r')"
    using demo_twice by (auto split: prod.splits sum.splits simp: length_Suc_conv numeral_2_eq_2)
  have "s2 = s\<lparr>sm_truth := ''h''\<rparr>"
    using run
  proof (rule repeated_question_reuses_answer [rotated 3])
    show "digest_ok (rag_digest (rg_rag demo_ragas))" by (simp add: demo_ragas_def demo_digest_ok)
    show "cache_inv (rag_digest (rg_rag demo_ragas)) []" by (rule cache_inv_empty)
    show "unfilled demo_ragas ''a'' [] [(''q'', ''g'')]" by (simp add: unfilled_def cache_inv_empty)
    show "rg_clock demo_ragas (cf_name (hd CONFIGURATIONS)) (0 + 1) < rg_clock demo_ragas (cf_name (hd CONFIGURATIONS)) 0 + 3600"
      by (simp add: demo_ragas_def)
  next
    fix d sp rr b m
    assume "retrieve_stages (rg_rag demo_ragas) (flags_of (hd CONFIGURATIONS)) (rg_rows demo_ragas) (rag_encode (rg_rag demo_ragas) ''q'') ''q'' ''a'' None
       = Inr (d, sp, rr, b)"
    then show "json_ok (rag_fr (rg_rag demo_ragas)) (rag_fl (rg_rag demo_ragas)) (JObj (fresh_answer (rg_rag demo_ragas) ''a'' m d sp rr b))"
      using demo_json [of d sp rr b m] by (simp add: demo_ragas_def demo_flags_hd)
  qed
  then show ?thesis using run by blast
qed

end
