(* ===== verification/TraceChecks.thy ===== *)
theory TraceChecks
  imports RagPipeline Replay "HOL-Library.Code_Target_Nat"
begin

text \<open>
  The two scripts that ask the tracing service whether a call of theirs arrived:
  \<open>taxcalc_ai/scripts/assert_langsmith_run_visible.py\<close>, which brings its own database and fires one
  retrieval (\<open>retrieve_chunks\<close> of \<open>taxcalc_ai/rag.py\<close>), and \<open>taxcalc_mcp_server/scripts/assert_spans_visible.py\<close>,
  which fires one tool call. Arguments: the runs the service shows at the n-th question, or its refusal;
  the container and what the database says to a statement; the clock. Printing is left out.
\<close>

section \<open>The runs the service shows\<close>

record traced_run =
  tr_name :: string
  tr_project :: string
  tr_start :: int

definition shown :: "string \<Rightarrow> string \<Rightarrow> int \<Rightarrow> traced_run list \<Rightarrow> traced_run list" where
  "shown name project after rs = filter (\<lambda>r. tr_name r = name \<and> tr_project r = project \<and> after \<le> tr_start r) rs"

text \<open>The SDK's own error, whose text the scripts shorten to its first line.\<close>

definition is_langsmith_error :: "exn \<Rightarrow> bool" where
  "is_langsmith_error x = (case x of OtherError k m \<Rightarrow> k = ''LangSmithError'' | _ \<Rightarrow> False)"

definition is_break :: "char \<Rightarrow> bool" where
  "is_break c \<longleftrightarrow> c \<in> {CHR 0x0A, CHR 0x0B, CHR 0x0C, CHR 0x0D, CHR 0x1C, CHR 0x1D, CHR 0x1E, CHR 0x85}"

fun lines_from :: "string \<Rightarrow> string \<Rightarrow> string list" where
  "lines_from acc [] = (if acc = [] then [] else [acc])"
| "lines_from acc (c # s) =
     (if \<not> is_break c then lines_from (acc @ [c]) s
      else if c = CHR 0x0D \<and> starts_with s [CHR 0x0A] then acc # lines_from [] (drop 1 s)
      else acc # lines_from [] s)"

definition splitlines :: "string \<Rightarrow> string list" where
  "splitlines s = lines_from [] s"

definition first_line :: "string \<Rightarrow> string res" where
  "first_line s = (case splitlines s of [] \<Rightarrow> Inl (OtherError ''IndexError'' ''list index out of range'') | l # ls \<Rightarrow> Inr l)"

text \<open>\<open>os.environ.setdefault\<close>.\<close>

definition setdefault :: "(string, string) dict \<Rightarrow> string \<Rightarrow> string \<Rightarrow> string \<times> (string, string) dict" where
  "setdefault env k v = (case dict_get env k of Some x \<Rightarrow> (x, env) | None \<Rightarrow> (v, dict_set k v env))"

section \<open>The retrieval and its database\<close>

record chunk_result =
  cr_doc :: string
  cr_idx :: int
  cr_text :: string
  cr_distance :: rat

(* src/taxcalc-ai/src/taxcalc_ai/rag.py:99-171 retrieve_chunks *)
definition retrieve_chunks :: "(string \<Rightarrow> rat list) \<Rightarrow> (rat list \<Rightarrow> rat list \<Rightarrow> rat) \<Rightarrow> corpus_row list \<Rightarrow> string \<Rightarrow> nat \<Rightarrow> string \<Rightarrow> string \<Rightarrow> chunk_result list" where
  "retrieve_chunks encode dst t query k tenant model =
     (let v = encode query
      in map (\<lambda>r. \<lparr>cr_doc = row_doc r, cr_idx = row_idx r, cr_text = row_text r, cr_distance = dst v (row_vec r)\<rparr>)
           (take k (sort_key (\<lambda>r. dst v (row_vec r)) (filter (\<lambda>r. row_tenant r = tenant \<and> row_model r = model) t))))"

text \<open>What was executed on a database, and its rows.\<close>

record pg_db =
  db_ddl :: "string list"
  db_rows :: "corpus_row list"

record gate_env =
  gt_container :: "string res"
  gt_probe :: "nat \<Rightarrow> unit res"
  gt_execute :: "string list \<Rightarrow> string \<Rightarrow> unit res"
  gt_v001 :: string
  gt_v002 :: string
  gt_seed :: "string \<times> string list \<times> frame_row list"
  gt_sha :: "string \<Rightarrow> string"
  gt_encode :: "string \<Rightarrow> rat list"
  gt_dist :: "rat list \<Rightarrow> rat list \<Rightarrow> rat"
  gt_model :: string
  gt_stored :: "string \<Rightarrow> pg_db res"
  gt_flush :: "unit res"
  gt_now :: int
  gt_runs :: "nat \<Rightarrow> traced_run list res"

(* src/taxcalc-ai/src/taxcalc_ai/scripts/assert_langsmith_run_visible.py:130-151 _await_ready *)
fun await_ready :: "(nat \<Rightarrow> unit res) \<Rightarrow> string \<Rightarrow> nat \<Rightarrow> nat \<Rightarrow> unit res" where
  "await_ready probe dsn 0 i = Inl (RuntimeError (''postgres never became ready at '' @ dsn))"
| "await_ready probe dsn (Suc n) i = (case probe i of
     Inr u \<Rightarrow> Inr ()
   | Inl (OtherError k m) \<Rightarrow> (if k = ''OperationalError'' then await_ready probe dsn n (i + 1) else Inl (OtherError k m))
   | Inl x \<Rightarrow> Inl x)"

fun split_on :: "char \<Rightarrow> string \<Rightarrow> string list" where
  "split_on c [] = [[]]"
| "split_on c (x # s) = (if x = c then [] # split_on c s else (x # hd (split_on c s)) # tl (split_on c s))"

definition is_code :: "string \<Rightarrow> bool" where
  "is_code l \<longleftrightarrow> \<not> starts_with (dropWhile is_space l) ''--''"

(* src/taxcalc-ai/src/taxcalc_ai/scripts/assert_langsmith_run_visible.py:154-167 _split_statements *)
definition split_statements :: "string \<Rightarrow> string list" where
  "split_statements ddl = filter (\<lambda>s. s \<noteq> []) (map strip (split_on CHR '';'' (join [CHR 0x0A] (filter is_code (splitlines ddl)))))"

text \<open>The first file in one transaction, the second one statement after the other, each committed at once.\<close>

fun execute_each :: "(string list \<Rightarrow> string \<Rightarrow> unit res) \<Rightarrow> string list \<Rightarrow> pg_db \<Rightarrow> unit res \<times> pg_db" where
  "execute_each ex [] db = (Inr (), db)"
| "execute_each ex (s # ss) db = (case ex (db_ddl db) s of
     Inl x \<Rightarrow> (Inl x, db)
   | Inr u \<Rightarrow> execute_each ex ss (db\<lparr>db_ddl := db_ddl db @ [s]\<rparr>))"

(* src/taxcalc-ai/src/taxcalc_ai/scripts/assert_langsmith_run_visible.py:170-197 _seed *)
definition seed :: "gate_env \<Rightarrow> pg_db \<Rightarrow> nat res \<times> pg_db" where
  "seed e db = (case execute_each (gt_execute e) [gt_v001 e] db of
     (Inl x, db1) \<Rightarrow> (Inl x, db1)
   | (Inr u, db1) \<Rightarrow>
       (case execute_each (gt_execute e) (split_statements (gt_v002 e)) db1 of
          (Inl x, db2) \<Rightarrow> (Inl x, db2)
        | (Inr u, db2) \<Rightarrow>
            (case gt_seed e of (ext, columns, rows) \<Rightarrow>
              (case load_corpus ext columns rows of
                 Inl x \<Rightarrow> (Inl x, db2)
               | Inr frame \<Rightarrow>
                   (let (r, t) = load_rows (embed_dataframe (gt_sha e) (gt_encode e) (gt_model e) frame) (db_rows db2)
                    in (r, db2\<lparr>db_rows := t\<rparr>))))))"

function replace_all :: "string \<Rightarrow> string \<Rightarrow> string \<Rightarrow> string" where
  "replace_all old new s = (if old = [] then s else case partition_at old s of
     None \<Rightarrow> s | Some (a, b) \<Rightarrow> a @ new @ replace_all old new b)"
  by pat_completeness auto
termination by (relation "measure (\<lambda>(old, new, s). length s)") (auto dest: partition_at_split)

(* src/taxcalc-ai/src/taxcalc_ai/scripts/assert_langsmith_run_visible.py:200-234 _corpus_dsn *)
definition corpus_dsn :: "gate_env \<Rightarrow> (string, string) dict \<Rightarrow> pg_db res" where
  "corpus_dsn e env =
     (if dict_get env ''TAXCALC_AI_PG_DSN'' \<notin> {None, Some []} then gt_stored e (the (dict_get env ''TAXCALC_AI_PG_DSN''))
      else bind_res (gt_container e) (\<lambda>url.
        bind_res (await_ready (gt_probe e) (replace_all ''postgresql+psycopg2'' ''postgresql'' url) 60 0) (\<lambda>u.
          case seed e \<lparr>db_ddl = [], db_rows = []\<rparr> of (Inl x, db) \<Rightarrow> Inl x | (Inr n, db) \<Rightarrow> Inr db)))"

section \<open>The gate on a retrieval\<close>

(* src/taxcalc-ai/src/taxcalc_ai/rag.py:65-69 RETRIEVER_RUN_NAME *)
definition RETRIEVER_RUN_NAME :: string where "RETRIEVER_RUN_NAME = ''taxcalc_ai.retrieve_chunks''"

(* src/taxcalc-ai/src/taxcalc_ai/scripts/assert_langsmith_run_visible.py:67-70 _POLL_ATTEMPTS *)
definition POLL_ATTEMPTS :: nat where "POLL_ATTEMPTS = 20"

(* src/taxcalc-ai/src/taxcalc_ai/scripts/assert_langsmith_run_visible.py:73-75 _LOOKBACK *)
definition LOOKBACK :: int where "LOOKBACK = 600"

(* src/taxcalc-ai/src/taxcalc_ai/scripts/assert_langsmith_run_visible.py:112-127 _configure_tracing *)
definition configure_tracing :: "(string, string) dict \<Rightarrow> string \<times> (string, string) dict" where
  "configure_tracing env =
     (let (project, env1) = setdefault env ''LANGSMITH_PROJECT'' ''taxcalc-ai-dev-ci'';
          (tracing, env2) = setdefault env1 ''LANGSMITH_TRACING'' ''true''
      in (project, env2))"

(* src/taxcalc-ai/src/taxcalc_ai/scripts/assert_langsmith_run_visible.py:237-248 _visible_run_count *)
definition visible_run_count :: "traced_run list res \<Rightarrow> string \<Rightarrow> int \<Rightarrow> nat res" where
  "visible_run_count rs project after = bind_res rs (\<lambda>runs. Inr (length (take 5 (shown RETRIEVER_RUN_NAME project after runs))))"

(* src/taxcalc-ai/src/taxcalc_ai/scripts/assert_langsmith_run_visible.py:274-303 poll of main *)
fun poll_runs :: "(nat \<Rightarrow> traced_run list res) \<Rightarrow> string \<Rightarrow> int \<Rightarrow> nat \<Rightarrow> nat \<Rightarrow> int res" where
  "poll_runs runs project after 0 i = Inr 1"
| "poll_runs runs project after (Suc n) i = (case visible_run_count (runs i) project after of
     Inl x \<Rightarrow> (if is_langsmith_error x then bind_res (first_line (message_of x)) (\<lambda>l. Inr 1) else Inl x)
   | Inr found \<Rightarrow> (if found \<noteq> 0 then Inr 0 else poll_runs runs project after n (i + 1)))"

(* src/taxcalc-ai/src/taxcalc_ai/scripts/assert_langsmith_run_visible.py:251-311 main *)
definition trace_gate_main :: "gate_env \<Rightarrow> (string, string) dict \<Rightarrow> int res" where
  "trace_gate_main e env =
     (let (project, env2) = configure_tracing env; started_after = gt_now e - LOOKBACK
      in bind_res (corpus_dsn e env2) (\<lambda>db.
           let results = retrieve_chunks (gt_encode e) (gt_dist e) (db_rows db) ''What is the standard deduction?'' 3 ''tenant-a'' (gt_model e)
           in bind_res (gt_flush e) (\<lambda>u. poll_runs (gt_runs e) project started_after POLL_ATTEMPTS 1)))"

section \<open>The gate on a tool span\<close>

(* src/taxcalc-mcp-server/src/taxcalc_mcp_server/scripts/assert_spans_visible.py:55-57 PROBE_TOOL *)
definition PROBE_TOOL :: string where "PROBE_TOOL = ''orders.get_order''"

(* src/taxcalc-mcp-server/src/taxcalc_mcp_server/scripts/assert_spans_visible.py:59-61 POLL_DEADLINE_S *)
definition POLL_DEADLINE_S :: rat where "POLL_DEADLINE_S = 30"

(* src/taxcalc-mcp-server/src/taxcalc_mcp_server/scripts/assert_spans_visible.py:63-64 POLL_INTERVAL_S *)
definition POLL_INTERVAL_S :: rat where "POLL_INTERVAL_S = 2"

(* src/taxcalc-mcp-server/src/taxcalc_mcp_server/scripts/assert_spans_visible.py:66-68 CLOCK_SKEW_S *)
definition CLOCK_SKEW_S :: int where "CLOCK_SKEW_S = 60"

text \<open>\<open>sp_clock\<close> is the n-th reading of the monotonic clock, in seconds; \<open>sp_tools\<close> what a tool call needs.\<close>

record span_env =
  sp_tools :: tool_env
  sp_server :: server
  sp_fr :: "rat \<Rightarrow> string"
  sp_project :: string
  sp_now :: int
  sp_flush :: "unit res"
  sp_clock :: "nat \<Rightarrow> rat"
  sp_runs :: "nat \<Rightarrow> traced_run list res"

definition PROBE_BODY :: json where
  "PROBE_BODY = JObj [(''order_id'', JStr ''ord-synth-9001''), (''tenant_id'', JStr ''tenant-a''), (''total'', JStr ''42.50''), (''status'', JStr ''paid'')]"

definition PROBE_ARGS :: jdict where
  "PROBE_ARGS = [(''order_id'', JStr ''ord-synth-9001''), (''tenant_id'', JStr ''tenant-a'')]"

definition probe_transport :: "(rat \<Rightarrow> string) \<Rightarrow> nat \<Rightarrow> http_request \<Rightarrow> http_response res" where
  "probe_transport fr n req = Inr \<lparr>resp_status = 200, resp_text = dumps fr PROBE_BODY, resp_json = Inr PROBE_BODY, resp_cost = None\<rparr>"

(* src/taxcalc-mcp-server/src/taxcalc_mcp_server/scripts/assert_spans_visible.py:98-144 _fire_one_tool_call *)
definition fire_one_tool_call :: "span_env \<Rightarrow> json res" where
  "fire_one_tool_call e =
     (let stub = (sp_tools e)\<lparr>te_http := probe_transport (sp_fr e), te_rag := \<lambda>q t k. Finished (Inr [])\<rparr>
      in fst (call_tool (snd (enforce_strict_tool_schemas (sp_server e))) stub PROBE_TOOL PROBE_ARGS (None, \<lparr>sent_http = [], log_lines = []\<rparr>)))"

text \<open>The count, or the problem that made it unknown.\<close>

(* src/taxcalc-mcp-server/src/taxcalc_mcp_server/scripts/assert_spans_visible.py:147-180 _visible_span_count *)
definition visible_span_count :: "traced_run list res \<Rightarrow> string \<Rightarrow> int \<Rightarrow> (nat \<times> string) res" where
  "visible_span_count rs project after = (case rs of
     Inr runs \<Rightarrow> Inr (length (shown PROBE_TOOL project after runs), [])
   | Inl x \<Rightarrow> (if is_langsmith_error x then bind_res (first_line (message_of x)) (\<lambda>l. Inr (0, ''LangSmithError: '' @ take 300 l)) else Inl x))"

text \<open>The loop, cut off when the fuel is used up; a result is the exit code.\<close>

(* src/taxcalc-mcp-server/src/taxcalc_mcp_server/scripts/assert_spans_visible.py:228-253 poll of main *)
fun poll_spans :: "span_env \<Rightarrow> rat \<Rightarrow> int \<Rightarrow> nat \<Rightarrow> nat \<Rightarrow> int res option" where
  "poll_spans e until after 0 i = None"
| "poll_spans e until after (Suc n) i =
     (if \<not> sp_clock e (Suc i) < until then Some (Inr 1)
      else case visible_span_count (sp_runs e i) (sp_project e) after of
        Inl x \<Rightarrow> Some (Inl x)
      | Inr (hits, problem) \<Rightarrow>
          (if problem \<noteq> [] then Some (Inr 1) else if 0 < hits then Some (Inr 0) else poll_spans e until after n (i + 1)))"

definition TRACING_OFF :: "string list" where
  "TRACING_OFF = [''0'', ''false'', ''no'', ''off'']"

(* src/taxcalc-mcp-server/src/taxcalc_mcp_server/scripts/assert_spans_visible.py:183-253 main *)
definition span_gate_main :: "span_env \<Rightarrow> nat \<Rightarrow> (string, string) dict \<Rightarrow> int res option" where
  "span_gate_main e fuel env =
     (if dict_get env ''LANGSMITH_API_KEY'' \<in> {None, Some []} then Some (Inr 0)
      else let (tracing, env1) = setdefault env ''LANGSMITH_TRACING'' ''true'' in
        if lower (strip tracing) \<in> set TRACING_OFF then Some (Inr 1)
        else case fire_one_tool_call e of
          Inl x \<Rightarrow> Some (Inl x)
        | Inr v \<Rightarrow>
            (case sp_flush e of
               Inl x \<Rightarrow> Some (if is_langsmith_error x then Inr 1 else Inl x)
             | Inr u \<Rightarrow> poll_spans e (sp_clock e 0 + POLL_DEADLINE_S) (sp_now e - CLOCK_SKEW_S) fuel 0))"

section \<open>Retrieval\<close>


definition near_rows :: "corpus_row list" where
  "near_rows = [\<lparr>row_doc = ''far'', row_idx = 0, row_text = ''f'', row_vec = [9], row_model = ''m'', row_tenant = ''a'', row_meta = [], row_hash = None\<rparr>,
     \<lparr>row_doc = ''near'', row_idx = 0, row_text = ''n'', row_vec = [2], row_model = ''m'', row_tenant = ''a'', row_meta = [], row_hash = None\<rparr>,
     \<lparr>row_doc = ''other'', row_idx = 0, row_text = ''o'', row_vec = [1], row_model = ''m'', row_tenant = ''b'', row_meta = [], row_hash = None\<rparr>]"


section \<open>Statements of a file\<close>

lemma lines_from_line: "list_all (\<lambda>c. \<not> is_break c) l \<Longrightarrow> lines_from acc (l @ [CHR 0x0A] @ s) = (acc @ l) # lines_from [] s"
  by (induction l arbitrary: acc) (auto simp: is_break_def)

lemma splitlines_unlines:
  "list_all (list_all (\<lambda>c. \<not> is_break c)) ls \<Longrightarrow> splitlines (concat (map (\<lambda>l. l @ [CHR 0x0A]) ls)) = ls"
  using lines_from_line [of _ "[]"] by (induction ls) (auto simp: splitlines_def)

lemma split_on_piece: "c \<notin> set a \<Longrightarrow> split_on c (a @ c # b) = a # split_on c b"
  by (induction a) auto

lemma split_on_none: "c \<notin> set a \<Longrightarrow> split_on c a = [a]"
  by (induction a) auto

lemma strip_gap: "list_all is_space g \<Longrightarrow> strip (g @ s) = strip s"
  by (simp add: strip_def dropWhile_append2 list_all_iff)

lemma strip_blank: "list_all is_space g \<Longrightarrow> strip g = []"
  using strip_gap [of g "[]"] by (simp add: strip_def)

lemma space_no_semicolon: "list_all is_space g \<Longrightarrow> CHR '';'' \<notin> set g"
proof -
  have "\<not> is_space CHR '';''" by (simp add: is_space_def)
  then show "list_all is_space g \<Longrightarrow> CHR '';'' \<notin> set g" unfolding list_all_iff by metis
qed

lemma split_blanks:
  assumes "list_all is_space z"
  shows "list_all (\<lambda>(g, s). list_all is_space g \<and> strip s = s \<and> s \<noteq> [] \<and> CHR '';'' \<notin> set s) sts \<Longrightarrow>
     filter (\<lambda>s. s \<noteq> []) (map strip (split_on CHR '';'' (concat (map (\<lambda>(g, s). g @ s @ '';'') sts) @ z))) = map snd sts"
proof (induction sts)
  case Nil
  then show ?case using split_on_none [OF space_no_semicolon [OF assms]] strip_blank [OF assms] by simp
next
  case (Cons p sts)
  obtain g s where p: "p = (g, s)" by (cases p)
  then have ok: "list_all is_space g" "strip s = s" "s \<noteq> []" "CHR '';'' \<notin> set s" using Cons.prems by simp_all
  have "split_on CHR '';'' ((g @ s) @ CHR '';'' # (concat (map (\<lambda>(g, s). g @ s @ '';'') sts) @ z))
      = (g @ s) # split_on CHR '';'' (concat (map (\<lambda>(g, s). g @ s @ '';'') sts) @ z)"
    using ok(4) space_no_semicolon [OF ok(1)] by (intro split_on_piece) simp
  then show ?case using Cons strip_gap [OF ok(1), of s] ok by (simp add: p)
qed

text \<open>
  Comment lines and white space around a statement change nothing: if the lines of a file that are no
  comments read, put together, as a sequence of statements, each after some white space and before its
  semicolon, the script executes exactly these statements in their order, whatever the comments say.
\<close>

theorem statements_of_file:
  assumes "list_all (list_all (\<lambda>c. \<not> is_break c)) ls"
    and "join [CHR 0x0A] (filter is_code ls) = concat (map (\<lambda>(g, s). g @ s @ '';'') sts) @ z"
    and "list_all (\<lambda>(g, s). list_all is_space g \<and> strip s = s \<and> s \<noteq> [] \<and> CHR '';'' \<notin> set s) sts" and "list_all is_space z"
  shows "split_statements (concat (map (\<lambda>l. l @ [CHR 0x0A]) ls)) = map snd sts"
  unfolding split_statements_def splitlines_unlines [OF assms(1)] assms(2) by (rule split_blanks [OF assms(4,3)])

section \<open>Seeding\<close>

lemma execute_each_cases:
  "execute_each ex ss db = (r, db') \<Longrightarrow> db_rows db' = db_rows db \<and> (\<exists>k. db_ddl db' = db_ddl db @ take k ss) \<and> (\<forall>u. r = Inr u \<longrightarrow> db_ddl db' = db_ddl db @ ss)"
proof (induction ss arbitrary: db)
  case (Cons s ss)
  show ?case
  proof (cases "ex (db_ddl db) s")
    case (Inl x)
    then show ?thesis using Cons.prems by (auto intro: exI [of _ 0])
  next
    case (Inr u)
    have run: "execute_each ex ss (db\<lparr>db_ddl := db_ddl db @ [s]\<rparr>) = (r, db')" using Cons.prems Inr by simp
    note ih = Cons.IH [OF run]
    then obtain k where k: "db_ddl db' = db_ddl db @ [s] @ take k ss" by auto
    then have "db_ddl db' = db_ddl db @ take (Suc k) (s # ss)" by simp
    then have "\<exists>k. db_ddl db' = db_ddl db @ take k (s # ss)" by blast
    then show ?thesis using ih by simp
  qed
qed simp

text \<open>
  No row is loaded into a half-migrated database: what was executed is a beginning of the two files'
  statements in their order, rows change only after the last of them, and a reported number of rows means
  that all of them were executed.
\<close>

theorem rows_after_migration:
  assumes "seed e db = (r, db')"
  shows "(\<exists>k. db_ddl db' = db_ddl db @ take k (gt_v001 e # split_statements (gt_v002 e)))
    \<and> (db_rows db' \<noteq> db_rows db \<or> (\<exists>n. r = Inr n) \<longrightarrow> db_ddl db' = db_ddl db @ gt_v001 e # split_statements (gt_v002 e))"
proof -
  obtain r1 db1 where e1: "execute_each (gt_execute e) [gt_v001 e] db = (r1, db1)" by (rule prod.exhaust)
  note c1 = execute_each_cases [OF e1]
  show ?thesis
  proof (cases r1)
    case (Inl x)
    then have d: "db' = db1" "r = Inl x" using assms e1 by (auto simp: seed_def)
    obtain k where k: "db_ddl db1 = db_ddl db @ take k [gt_v001 e]" using c1 by blast
    then have "db_ddl db1 = db_ddl db @ take (min k 1) (gt_v001 e # split_statements (gt_v002 e))"
      by (cases k) auto
    then have "\<exists>k. db_ddl db' = db_ddl db @ take k (gt_v001 e # split_statements (gt_v002 e))" unfolding d(1) by blast
    then show ?thesis using d c1 by simp
  next
    case (Inr u)
    obtain r2 db2 where e2: "execute_each (gt_execute e) (split_statements (gt_v002 e)) db1 = (r2, db2)" by (rule prod.exhaust)
    note c2 = execute_each_cases [OF e2]
    have d1: "db_ddl db1 = db_ddl db @ [gt_v001 e]" "db_rows db1 = db_rows db" using c1 Inr by simp_all
    show ?thesis
    proof (cases r2)
      case (Inl x)
      then have d: "db' = db2" "r = Inl x" using assms e1 Inr e2 by (auto simp: seed_def)
      obtain k where "db_ddl db2 = db_ddl db1 @ take k (split_statements (gt_v002 e))" using c2 by blast
      then have "db_ddl db2 = db_ddl db @ take (Suc k) (gt_v001 e # split_statements (gt_v002 e))" using d1 by simp
      then have "\<exists>k. db_ddl db' = db_ddl db @ take k (gt_v001 e # split_statements (gt_v002 e))" unfolding d(1) by blast
      then show ?thesis using d c2 d1 by simp
    next
      case r2: (Inr v)
      then have "db_ddl db' = db_ddl db2" using assms e1 Inr e2 by (auto simp: seed_def Let_def split: prod.splits sum.splits)
      then have all: "db_ddl db' = db_ddl db @ gt_v001 e # split_statements (gt_v002 e)" using c2 r2 d1 by simp
      then have "db_ddl db' = db_ddl db @ take (Suc (length (split_statements (gt_v002 e)))) (gt_v001 e # split_statements (gt_v002 e))" by simp
      then have "\<exists>k. db_ddl db' = db_ddl db @ take k (gt_v001 e # split_statements (gt_v002 e))" by blast
      then show ?thesis using all by simp
    qed
  qed
qed

section \<open>Exit codes\<close>

lemma await_ready_iff:
  "await_ready probe dsn n i = Inr () \<longleftrightarrow> (\<exists>k < n. probe (i + k) = Inr () \<and> (\<forall>j < k. \<exists>m. probe (i + j) = Inl (OtherError ''OperationalError'' m)))"
proof (induction n arbitrary: i)
  case (Suc n)
  show ?case
  proof (cases "\<exists>m. probe i = Inl (OtherError ''OperationalError'' m)")
    case True
    then have "await_ready probe dsn (Suc n) i = await_ready probe dsn n (i + 1)" by auto
    moreover have "probe i \<noteq> Inr ()" using True by auto
    ultimately show ?thesis using True Suc.IH [of "i + 1"] by (simp add: Ex_less_Suc2 All_less_Suc2)
  next
    case False
    have "await_ready probe dsn (Suc n) i = Inr () \<longleftrightarrow> probe i = Inr ()"
      using False by (cases "probe i") (auto split: exn.split)
    then show ?thesis using False by (auto simp: Ex_less_Suc2 All_less_Suc2)
  qed
qed simp

text \<open>The n-th question was answered, and with no run that counts.\<close>

definition none_shown :: "traced_run list res \<Rightarrow> string \<Rightarrow> string \<Rightarrow> int \<Rightarrow> bool" where
  "none_shown rs name project after \<longleftrightarrow> (\<exists>runs. rs = Inr runs \<and> shown name project after runs = [])"

definition some_shown :: "traced_run list res \<Rightarrow> string \<Rightarrow> string \<Rightarrow> int \<Rightarrow> bool" where
  "some_shown rs name project after \<longleftrightarrow> (\<exists>runs. rs = Inr runs \<and> shown name project after runs \<noteq> [])"

lemma poll_runs_zero:
  "poll_runs runs project after n i = Inr 0 \<longleftrightarrow>
     (\<exists>k < n. some_shown (runs (i + k)) RETRIEVER_RUN_NAME project after \<and> (\<forall>j < k. none_shown (runs (i + j)) RETRIEVER_RUN_NAME project after))"
proof (induction n arbitrary: i)
  case (Suc n)
  show ?case
  proof (cases "none_shown (runs i) RETRIEVER_RUN_NAME project after")
    case True
    then have "poll_runs runs project after (Suc n) i = poll_runs runs project after n (i + 1)"
      by (auto simp: none_shown_def visible_run_count_def)
    moreover have "\<not> some_shown (runs i) RETRIEVER_RUN_NAME project after" using True by (auto simp: none_shown_def some_shown_def)
    ultimately show ?thesis using True Suc.IH [of "i + 1"] by (simp add: Ex_less_Suc2 All_less_Suc2)
  next
    case False
    have "poll_runs runs project after (Suc n) i = Inr 0 \<longleftrightarrow> some_shown (runs i) RETRIEVER_RUN_NAME project after"
      using False by (cases "runs i") (auto simp: none_shown_def some_shown_def visible_run_count_def bind_res_def split: sum.splits)
    then show ?thesis using False by (auto simp: Ex_less_Suc2 All_less_Suc2)
  qed
qed simp

text \<open>
  The retrieval gate is green exactly when its database could be had, the upload was flushed, and one of
  twenty questions showed a run of the retriever, in the project the call was traced to, that started at
  most ten minutes before the script, every question before it having been answered with none.
\<close>

theorem trace_gate_green_iff:
  "trace_gate_main e env = Inr 0 \<longleftrightarrow>
     (\<exists>db. corpus_dsn e (snd (configure_tracing env)) = Inr db) \<and> gt_flush e = Inr ()
     \<and> (\<exists>k < 20. some_shown (gt_runs e (1 + k)) RETRIEVER_RUN_NAME (fst (configure_tracing env)) (gt_now e - 600)
          \<and> (\<forall>j < k. none_shown (gt_runs e (1 + j)) RETRIEVER_RUN_NAME (fst (configure_tracing env)) (gt_now e - 600)))"
proof -
  obtain project env2 where c: "configure_tracing env = (project, env2)" by (rule prod.exhaust)
  show ?thesis
    unfolding trace_gate_main_def c Let_def prod.case fst_conv snd_conv
    by (cases "corpus_dsn e env2"; cases "gt_flush e") (simp_all add: poll_runs_zero POLL_ATTEMPTS_def LOOKBACK_def)
qed

text \<open>A run of an earlier job turns the gate green, tracing or not, while it is younger than ten minutes.\<close>

lemma earlier_run_is_enough:
  assumes "corpus_dsn e (snd (configure_tracing env)) = Inr db" and "gt_flush e = Inr ()"
    and "gt_runs e 1 = Inr [\<lparr>tr_name = RETRIEVER_RUN_NAME, tr_project = fst (configure_tracing env), tr_start = gt_now e - 300\<rparr>]"
  shows "trace_gate_main e env = Inr 0"
  unfolding trace_gate_green_iff using assms by (intro conjI exI [of _ 0]) (auto simp: some_shown_def shown_def)

text \<open>A refusal without a text is an exception and no exit code.\<close>

lemma empty_refusal_raises:
  assumes "runs i = Inl (OtherError ''LangSmithError'' [])"
  shows "poll_runs runs project after (Suc n) i = Inl (OtherError ''IndexError'' ''list index out of range'')"
  using assms by (simp add: visible_run_count_def is_langsmith_error_def first_line_def splitlines_def)

lemma poll_spans_returns:
  assumes "\<And>i. c0 + 2 * of_nat i \<le> sp_clock e (Suc i)"
  shows "16 \<le> n + i \<Longrightarrow> i \<le> 15 \<Longrightarrow> poll_spans e (c0 + 30) after n i \<noteq> None"
proof (induction n arbitrary: i)
  case (Suc n)
  show ?case
  proof (cases "sp_clock e (Suc i) < c0 + 30")
    case True
    then have "2 * of_nat i < (30 :: rat)" using assms [of i] by linarith
    then have "(of_nat i :: rat) < of_nat 15" by simp
    then have "i < 15" by (simp only: of_nat_less_iff)
    then show ?thesis using Suc.IH [of "i + 1"] Suc.prems True by (simp split: sum.split prod.split)
  qed simp
qed simp

lemma poll_spans_more_fuel: "poll_spans e until after n i = Some r \<Longrightarrow> n \<le> m \<Longrightarrow> poll_spans e until after m i = Some r"
proof (induction n arbitrary: i m)
  case (Suc n)
  obtain m' where m: "m = Suc m'" "n \<le> m'" using Suc.prems(2) by (cases m) auto
  show ?case using Suc.prems(1) Suc.IH [OF _ m(2)] unfolding m(1) by (auto split: if_splits sum.splits prod.splits)
qed simp

lemma poll_spans_zero:
  "poll_spans e until after n i = Some (Inr 0) \<Longrightarrow>
     \<exists>k \<ge> i. sp_clock e (Suc k) < until \<and> some_shown (sp_runs e k) PROBE_TOOL (sp_project e) after"
proof (induction n arbitrary: i)
  case (Suc n)
  show ?case
  proof (cases "some_shown (sp_runs e i) PROBE_TOOL (sp_project e) after")
    case True
    then show ?thesis using Suc.prems by (auto split: if_splits)
  next
    case False
    then have "poll_spans e until after n (i + 1) = Some (Inr 0)" using Suc.prems
      by (auto simp: some_shown_def visible_span_count_def bind_res_def split: if_splits sum.splits prod.splits)
    then show ?thesis using Suc.IH [of "i + 1"] Suc_leD by fastforce
  qed
qed simp

text \<open>
  C28. The span gate comes to an end: if the monotonic clock does not run backwards and moves on by the two
  seconds of each pause, sixteen questions are enough for its thirty seconds, and more fuel changes nothing.
\<close>

theorem span_gate_returns:
  assumes "sp_clock e 0 \<le> sp_clock e 1" and "\<And>i. sp_clock e (Suc i) + POLL_INTERVAL_S \<le> sp_clock e (Suc (Suc i))"
  shows "\<exists>r. \<forall>fuel \<ge> 16. span_gate_main e fuel env = Some r"
proof -
  have "sp_clock e 0 + 2 * of_nat i \<le> sp_clock e (Suc i)" for i
  proof (induction i)
    case (Suc i)
    then show ?case using assms(2) [of i] by (simp add: POLL_INTERVAL_S_def)
  qed (use assms(1) in simp)
  then obtain r where r: "poll_spans e (sp_clock e 0 + 30) (sp_now e - CLOCK_SKEW_S) 16 0 = Some r"
    using poll_spans_returns [of "sp_clock e 0" e 16 0] by fastforce
  have more: "poll_spans e (sp_clock e 0 + 30) (sp_now e - CLOCK_SKEW_S) fuel 0 = Some r" if "16 \<le> fuel" for fuel
    by (rule poll_spans_more_fuel [OF r that])
  have "span_gate_main e fuel env = span_gate_main e 16 env" if "16 \<le> fuel" for fuel
    unfolding span_gate_main_def POLL_DEADLINE_S_def more [OF that] r by (rule refl)
  moreover have "span_gate_main e 16 env \<noteq> None"
    unfolding span_gate_main_def POLL_DEADLINE_S_def r Let_def by (simp split: prod.split sum.split)
  then obtain q where q: "span_gate_main e 16 env = Some q" by blast
  ultimately have "\<forall>fuel \<ge> 16. span_gate_main e fuel env = Some q" unfolding q by blast
  then show ?thesis by blast
qed

text \<open>
  A green span gate with a key has seen a span: tracing was not switched off, the probe call through the
  server's own dispatch succeeded, the upload was flushed, and before the deadline the service showed a run
  named after the probe's tool, in the server's project, that started at most a minute before the script.
\<close>

theorem green_span_gate_saw_a_span:
  assumes "span_gate_main e fuel env = Some (Inr 0)" and "dict_get env ''LANGSMITH_API_KEY'' = Some key" and "key \<noteq> []"
  shows "lower (strip (fst (setdefault env ''LANGSMITH_TRACING'' ''true''))) \<notin> {''0'', ''false'', ''no'', ''off''}
    \<and> (\<exists>v. fire_one_tool_call e = Inr v) \<and> sp_flush e = Inr ()
    \<and> (\<exists>k. sp_clock e (Suc k) < sp_clock e 0 + 30 \<and> some_shown (sp_runs e k) PROBE_TOOL (sp_project e) (sp_now e - 60))"
proof -
  have on: "lower (strip (fst (setdefault env ''LANGSMITH_TRACING'' ''true''))) \<notin> set TRACING_OFF"
    using assms by (auto simp: span_gate_main_def Let_def split: prod.splits if_splits)
  obtain v where v: "fire_one_tool_call e = Inr v"
    using assms on by (cases "fire_one_tool_call e") (auto simp: span_gate_main_def Let_def split: prod.splits)
  have fl: "sp_flush e = Inr ()"
    using assms on v by (cases "sp_flush e") (auto simp: span_gate_main_def Let_def split: prod.splits if_splits)
  have "poll_spans e (sp_clock e 0 + POLL_DEADLINE_S) (sp_now e - CLOCK_SKEW_S) fuel 0 = Some (Inr 0)"
    using assms on v fl by (auto simp: span_gate_main_def Let_def split: prod.splits)
  then obtain k where "sp_clock e (Suc k) < sp_clock e 0 + 30" "some_shown (sp_runs e k) PROBE_TOOL (sp_project e) (sp_now e - 60)"
    unfolding POLL_DEADLINE_S_def CLOCK_SKEW_S_def by (elim poll_spans_zero [THEN exE]) blast
  then show ?thesis using on v fl unfolding TRACING_OFF_def by auto
qed

section \<open>Witnesses\<close>

definition probe_clock :: "nat \<Rightarrow> rat" where
  "probe_clock i = 2 * of_nat i"

definition probe_runs :: "nat \<Rightarrow> traced_run list res" where
  "probe_runs i = Inr (if i < 2 then [] else [\<lparr>tr_name = PROBE_TOOL, tr_project = ''p'', tr_start = 100\<rparr>])"

definition probe_env :: span_env where
  "probe_env = \<lparr>sp_tools = replay_env, sp_server = mcp_server, sp_fr = (\<lambda>r. []), sp_project = ''p'', sp_now = 100, sp_flush = Inr (),
     sp_clock = probe_clock, sp_runs = probe_runs\<rparr>"

lemma probe_call: "\<exists>v. fire_one_tool_call probe_env = Inr v"
proof -
  have "case fire_one_tool_call probe_env of Inr v \<Rightarrow> True | Inl x \<Rightarrow> False" by code_simp
  then show ?thesis by (auto split: sum.splits)
qed

lemma probe_green: "span_gate_main probe_env 16 [(''LANGSMITH_API_KEY'', ''k'')] = Some (Inr 0)"
  by code_simp

theorem span_gate_returns_witness: "\<exists>r. span_gate_main probe_env 20 [(''LANGSMITH_API_KEY'', ''k'')] = Some r"
  using span_gate_returns [of probe_env "[(''LANGSMITH_API_KEY'', ''k'')]"] by (auto simp: probe_env_def probe_clock_def POLL_INTERVAL_S_def)

theorem green_span_gate_saw_a_span_witness:
  "\<exists>k. sp_clock probe_env (Suc k) < 30 \<and> some_shown (sp_runs probe_env k) PROBE_TOOL ''p'' 40"
  using green_span_gate_saw_a_span [OF probe_green, of "''k''"] by (simp add: dict_get_def) (simp add: probe_env_def probe_clock_def)

theorem statements_of_file_witness:
  "split_statements (''-- a; b'' @ [CHR 0x0A] @ ''CREATE X;'' @ [CHR 0x0A] @ ''  -- c'' @ [CHR 0x0A] @ ''DROP Y;'' @ [CHR 0x0A]) = [''CREATE X'', ''DROP Y'']"
proof -
  have a: "list_all (list_all (\<lambda>c. \<not> is_break c)) [''-- a; b'', ''CREATE X;'', ''  -- c'', ''DROP Y;'']" by code_simp
  have b: "join [CHR 0x0A] (filter is_code [''-- a; b'', ''CREATE X;'', ''  -- c'', ''DROP Y;''])
      = concat (map (\<lambda>(g, s). g @ s @ '';'') [([], ''CREATE X''), ([CHR 0x0A], ''DROP Y'')]) @ []" by code_simp
  have c: "list_all (\<lambda>(g, s). list_all is_space g \<and> strip s = s \<and> s \<noteq> [] \<and> CHR '';'' \<notin> set s) [([], ''CREATE X''), ([CHR 0x0A], ''DROP Y'')]"
    by code_simp
  show ?thesis using statements_of_file [OF a b c] by simp
qed

text \<open>A container that answers at the third probe, and a database that refuses the last statement of the migration.\<close>

definition demo_gate :: gate_env where
  "demo_gate = \<lparr>gt_container = Inr ''postgresql+psycopg2://h'', gt_probe = (\<lambda>i. if i < 2 then Inl (OtherError ''OperationalError'' ''starting'') else Inr ()),
     gt_execute = (\<lambda>ss s. if s = ''BAD'' then Inl (OtherError ''UndefinedColumn'' s) else Inr ()), gt_v001 = ''CREATE T'', gt_v002 = ''ALTER T; BAD;'',
     gt_seed = (''.jsonl'', REQUIRED_COLUMNS, [\<lparr>f_doc = ''d'', f_idx = 0, f_text = ''x'', f_tenant = ''tenant-a''\<rparr>]), gt_sha = (\<lambda>s. s),
     gt_encode = (\<lambda>s. [1]), gt_dist = (\<lambda>a b. 0), gt_model = ''m'', gt_stored = (\<lambda>d. Inr \<lparr>db_ddl = [], db_rows = []\<rparr>), gt_flush = Inr (), gt_now = 1000,
     gt_runs = (\<lambda>i. Inr (if i < 3 then [] else [\<lparr>tr_name = RETRIEVER_RUN_NAME, tr_project = ''p'', tr_start = 990\<rparr>]))\<rparr>"

theorem rows_after_migration_witness:
  "let (r, db) = seed demo_gate \<lparr>db_ddl = [], db_rows = []\<rparr>
   in db_rows db = [] \<and> (\<exists>k. db_ddl db = take k [''CREATE T'', ''ALTER T'', ''BAD''])"
proof -
  obtain r db where s: "seed demo_gate \<lparr>db_ddl = [], db_rows = []\<rparr> = (r, db)" by (rule prod.exhaust)
  have st: "gt_v001 demo_gate # split_statements (gt_v002 demo_gate) = [''CREATE T'', ''ALTER T'', ''BAD'']" by code_simp
  have "db_ddl db \<noteq> [''CREATE T'', ''ALTER T'', ''BAD'']"
  proof -
    have "db_ddl (snd (seed demo_gate \<lparr>db_ddl = [], db_rows = []\<rparr>)) = [''CREATE T'', ''ALTER T'']" by code_simp
    then show ?thesis by (simp add: s)
  qed
  then show ?thesis using rows_after_migration [OF s] unfolding st s by auto
qed

theorem trace_gate_green_iff_witness:
  "trace_gate_main demo_gate [(''TAXCALC_AI_PG_DSN'', ''d''), (''LANGSMITH_PROJECT'', ''p'')] = Inr 0"
proof -
  let ?env = "[(''TAXCALC_AI_PG_DSN'', ''d''), (''LANGSMITH_PROJECT'', ''p'')]"
  have c: "fst (configure_tracing ?env) = ''p''" "dict_get (snd (configure_tracing ?env)) ''TAXCALC_AI_PG_DSN'' = Some ''d''" by code_simp+
  have "corpus_dsn demo_gate (snd (configure_tracing ?env)) = Inr \<lparr>db_ddl = [], db_rows = []\<rparr>"
    unfolding corpus_dsn_def c by (simp add: demo_gate_def)
  moreover have "some_shown (gt_runs demo_gate (1 + 2)) RETRIEVER_RUN_NAME ''p'' (gt_now demo_gate - 600)"
    and "\<forall>j < 2. none_shown (gt_runs demo_gate (1 + j)) RETRIEVER_RUN_NAME ''p'' (gt_now demo_gate - 600)"
    by (simp_all add: demo_gate_def some_shown_def none_shown_def shown_def)
  moreover have "gt_flush demo_gate = Inr ()" by (simp add: demo_gate_def)
  ultimately show ?thesis unfolding trace_gate_green_iff c by (intro conjI exI [of _ 2]) auto
qed

end
