(* ===== verification/EcrShim.thy ===== *)
theory EcrShim
  imports PolicyMatch
begin

text \<open>
  \<open>scripts/ecr-describe-images-shim.py\<close>: the two read-only image calls of the container registry,
  answered from what a plain registry holds. The registry is what one request reads of it: \<open>sh_fetch\<close>
  is a GET of a URL with an \<open>Accept\<close> header, as it is while the request is served. The decoding of a
  body's bytes, float rounding, \<open>repr\<close>, \<open>int\<close> of a text, the seconds of an ISO timestamp, and addition
  where an operand is no integer (the sizes of a manifest are integers) are arguments.
\<close>

section \<open>Values\<close>

text \<open>\<open>a == b\<close>: booleans and numbers compare as numbers, dictionaries without regard to order.\<close>

definition num_of :: "json \<Rightarrow> rat option" where
  "num_of v = (case v of JBool b \<Rightarrow> Some (if b then 1 else 0) | JInt i \<Rightarrow> Some (of_int i) | JFloat r \<Rightarrow> Some r | _ \<Rightarrow> None)"

fun py_eq :: "json \<Rightarrow> json \<Rightarrow> bool" and py_eq_all :: "json list \<Rightarrow> json list \<Rightarrow> bool"
  and py_sub :: "(string \<times> json) list \<Rightarrow> (string \<times> json) list \<Rightarrow> bool" where
  "py_eq (JList xs) w = (case w of JList ys \<Rightarrow> py_eq_all xs ys | _ \<Rightarrow> False)"
| "py_eq (JObj d) w = (case w of JObj e \<Rightarrow> length d = length e \<and> py_sub d e | _ \<Rightarrow> False)"
| "py_eq (JStr s) w = (w = JStr s)"
| "py_eq JNull w = (w = JNull)"
| "py_eq v w = (num_of w = num_of v)"
| "py_eq_all [] ys = (ys = [])"
| "py_eq_all (x # xs) ys = (case ys of [] \<Rightarrow> False | y # ys' \<Rightarrow> py_eq x y \<and> py_eq_all xs ys')"
| "py_sub [] e = True"
| "py_sub ((k, v) # d) e = (case dict_get e k of None \<Rightarrow> False | Some w \<Rightarrow> py_eq v w \<and> py_sub d e)"

text \<open>\<open>x in v\<close> for an \<open>x\<close> of any type.\<close>

definition py_in :: "json \<Rightarrow> json \<Rightarrow> bool res" where
  "py_in x v = (case v of
      JList xs \<Rightarrow> Inr (list_ex (py_eq x) xs)
    | JObj d \<Rightarrow> (case x of JStr s \<Rightarrow> Inr (dict_get d s \<noteq> None) | JList _ \<Rightarrow> Inl (TypeError ''unhashable'')
        | JObj _ \<Rightarrow> Inl (TypeError ''unhashable'') | _ \<Rightarrow> Inr False)
    | JStr s \<Rightarrow> (case x of JStr t \<Rightarrow> Inr (contains s t) | _ \<Rightarrow> Inl (TypeError ''in''))
    | _ \<Rightarrow> Inl (TypeError ''in''))"

definition int_of :: "json \<Rightarrow> int option" where
  "int_of v = (case v of JInt i \<Rightarrow> Some i | JBool b \<Rightarrow> Some (if b then 1 else 0) | _ \<Rightarrow> None)"

definition somes :: "'a option list \<Rightarrow> 'a list" where
  "somes xs = concat (map (\<lambda>x. case x of None \<Rightarrow> [] | Some y \<Rightarrow> [y]) xs)"

section \<open>The registry\<close>

type_synonym headers = "(string, string) dict"

record registry =
  sh_host :: string
  sh_fetch :: "string \<Rightarrow> string option \<Rightarrow> (string \<times> headers) res"
  sh_decode :: "string \<Rightarrow> string res"
  sh_fl :: "rat \<Rightarrow> rat"
  sh_rp :: "json \<Rightarrow> string"
  sh_int :: "string \<Rightarrow> int option"
  sh_stamp :: "string \<Rightarrow> rat res"
  sh_plus :: "json \<Rightarrow> json \<Rightarrow> json res"

definition json_of :: "registry \<Rightarrow> string \<Rightarrow> json res" where
  "json_of r b = bind_res (sh_decode r b) (loads (sh_fl r))"

(* src/scripts/ecr-describe-images-shim.py:50-53 MANIFEST_ACCEPT *)
definition MANIFEST_ACCEPT :: string where
  "MANIFEST_ACCEPT = join '', '' [''application/vnd.docker.distribution.manifest.v2+json'', ''application/vnd.oci.image.manifest.v1+json'']"

text \<open>\<open>OSError\<close> stands for itself and its subclasses.\<close>

definition is_net_error :: "exn \<Rightarrow> bool" where
  "is_net_error e = (case e of TimeoutError \<Rightarrow> True
     | OtherError c m \<Rightarrow> c \<in> set [''HTTPError'', ''URLError'', ''OSError''] | _ \<Rightarrow> False)"

(* src/scripts/ecr-describe-images-shim.py:57-66 _get *)
definition registry_get :: "registry \<Rightarrow> string \<Rightarrow> string option \<Rightarrow> (string \<times> headers) option res" where
  "registry_get r path accept = (case sh_fetch r (''http://'' @ sh_host r @ path) accept of
      Inr reply \<Rightarrow> Inr (Some reply)
    | Inl e \<Rightarrow> if is_net_error e then Inr None else Inl e)"

definition plus :: "registry \<Rightarrow> json \<Rightarrow> json \<Rightarrow> json res" where
  "plus r a b = (case (int_of a, int_of b) of (Some i, Some j) \<Rightarrow> Inr (JInt (i + j)) | _ \<Rightarrow> sh_plus r a b)"

fun add_sizes :: "registry \<Rightarrow> json \<Rightarrow> json list \<Rightarrow> json res" where
  "add_sizes r acc [] = Inr acc"
| "add_sizes r acc (l # ls) = bind_res (json_get l ''size'' (JInt 0)) (\<lambda>s. bind_res (plus r acc s) (\<lambda>a. add_sizes r a ls))"

(* src/scripts/ecr-describe-images-shim.py:77-79 size of _image_detail *)
definition manifest_size :: "registry \<Rightarrow> json \<Rightarrow> json res" where
  "manifest_size r man =
     bind_res (json_get man ''layers'' (JList [])) (\<lambda>layers. bind_res (json_iter layers) (\<lambda>ls.
     bind_res (add_sizes r (JInt 0) ls) (\<lambda>nbytes.
     bind_res (json_get man ''config'' (JObj [])) (\<lambda>c. bind_res (json_get c ''size'' (JInt 0)) (plus r nbytes)))))"

definition utc_offset :: "string \<Rightarrow> string" where
  "utc_offset s = concat (map (\<lambda>c. if c = CHR ''Z'' then ''+00:00'' else [c]) s)"

definition is_value_error :: "exn \<Rightarrow> bool" where
  "is_value_error e = (case e of ValueError _ \<Rightarrow> True | OtherError c m \<Rightarrow> c = ''UnicodeDecodeError'' | _ \<Rightarrow> False)"

definition created_at :: "registry \<Rightarrow> string \<Rightarrow> rat option res" where
  "created_at r raw = bind_res (json_of r raw) (\<lambda>j. bind_res (json_get j ''created'' JNull) (\<lambda>c.
     if truthy c then (case c of JStr s \<Rightarrow> bind_res (sh_stamp r (utc_offset s)) (\<lambda>t. Inr (Some t))
                       | _ \<Rightarrow> Inl (OtherError ''AttributeError'' ''replace''))
     else Inr None))"

(* src/scripts/ecr-describe-images-shim.py:84-95 pushed_at of _image_detail *)
definition pushed_at :: "registry \<Rightarrow> json \<Rightarrow> json \<Rightarrow> rat option res" where
  "pushed_at r repo man =
     bind_res (json_get man ''config'' (JObj [])) (\<lambda>c. bind_res (json_get c ''digest'' JNull) (\<lambda>d.
       if truthy d then
         bind_res (registry_get r (''/v2/'' @ py_str (sh_rp r) repo @ ''/blobs/'' @ py_str (sh_rp r) d) None) (\<lambda>g. case g of
           None \<Rightarrow> Inr None
         | Some (raw, _) \<Rightarrow> (case created_at r raw of Inl e \<Rightarrow> if is_value_error e then Inr None else Inl e | Inr t \<Rightarrow> Inr t))
       else Inr None))"

definition tag_path :: "registry \<Rightarrow> json \<Rightarrow> json \<Rightarrow> string" where
  "tag_path r repo tag = ''/v2/'' @ py_str (sh_rp r) repo @ ''/manifests/'' @ py_str (sh_rp r) tag"

definition header_or :: "headers \<Rightarrow> string \<Rightarrow> string" where
  "header_or hs k = (case dict_get hs k of None \<Rightarrow> [] | Some v \<Rightarrow> v)"

definition detail_of :: "json \<Rightarrow> json \<Rightarrow> string \<Rightarrow> json \<Rightarrow> json \<Rightarrow> rat option \<Rightarrow> json" where
  "detail_of repo tag digest nbytes media pushed = JObj ([(''registryId'', JStr ''000000000000''), (''repositoryName'', repo),
     (''imageDigest'', JStr digest), (''imageTags'', JList [tag]), (''imageSizeInBytes'', nbytes),
     (''imageManifestMediaType'', media)] @ (case pushed of None \<Rightarrow> [] | Some t \<Rightarrow> [(''imagePushedAt'', JFloat t)]))"

(* src/scripts/ecr-describe-images-shim.py:69-107 _image_detail *)
definition image_detail :: "registry \<Rightarrow> json \<Rightarrow> json \<Rightarrow> json option res" where
  "image_detail r repo tag =
     bind_res (registry_get r (tag_path r repo tag) (Some MANIFEST_ACCEPT)) (\<lambda>g. case g of
       None \<Rightarrow> Inr None
     | Some (raw, hs) \<Rightarrow>
         bind_res (json_of r raw) (\<lambda>man.
         bind_res (manifest_size r man) (\<lambda>nbytes.
         bind_res (pushed_at r repo man) (\<lambda>pushed.
         bind_res (json_get man ''mediaType'' (JStr [])) (\<lambda>media.
           Inr (Some (detail_of repo tag (header_or hs ''Docker-Content-Digest'') nbytes media pushed)))))))"

(* src/scripts/ecr-describe-images-shim.py:110-114 _tags *)
definition tags :: "registry \<Rightarrow> json \<Rightarrow> json res" where
  "tags r repo = bind_res (registry_get r (''/v2/'' @ py_str (sh_rp r) repo @ ''/tags/list'') None) (\<lambda>g. case g of
       None \<Rightarrow> Inr (JList [])
     | Some (raw, _) \<Rightarrow> bind_res (json_of r raw) (\<lambda>j. bind_res (json_get j ''tags'' JNull) (\<lambda>t. Inr (or_else t (JList [])))))"

section \<open>The two calls\<close>

definition wanted_tags :: "json \<Rightarrow> json list res" where
  "wanted_tags body = bind_res (json_get body ''imageIds'' JNull) (\<lambda>ids. bind_res (json_iter (or_else ids (JList []))) (\<lambda>xs.
     bind_res (map_res (\<lambda>i. json_get i ''imageTag'' JNull) xs) (\<lambda>ts. Inr (List.filter truthy ts))))"

(* src/scripts/ecr-describe-images-shim.py:117-124 describe_images *)
definition describe_images :: "registry \<Rightarrow> json \<Rightarrow> json res" where
  "describe_images r body =
     bind_res (json_get body ''repositoryName'' JNull) (\<lambda>repo.
     bind_res (wanted_tags body) (\<lambda>wanted.
     bind_res (tags r repo) (\<lambda>all_tags. bind_res (json_iter all_tags) (\<lambda>ts.
     bind_res (map_res (image_detail r repo) (if wanted \<noteq> [] then List.filter (\<lambda>t. list_ex (py_eq t) wanted) ts else ts)) (\<lambda>ds.
       Inr (JObj [(''imageDetails'', JList (somes ds))]))))))"

definition image_id :: "registry \<Rightarrow> json \<Rightarrow> json \<Rightarrow> json option res" where
  "image_id r repo tag = bind_res (image_detail r repo tag) (\<lambda>d. case d of
       None \<Rightarrow> Inr None
     | Some detail \<Rightarrow> bind_res (json_item detail ''imageDigest'') (\<lambda>g.
         Inr (Some (JObj [(''imageDigest'', g), (''imageTag'', tag)]))))"

(* src/scripts/ecr-describe-images-shim.py:127-134 list_images *)
definition list_images :: "registry \<Rightarrow> json \<Rightarrow> json res" where
  "list_images r body =
     bind_res (json_get body ''repositoryName'' JNull) (\<lambda>repo.
     bind_res (tags r repo) (\<lambda>all_tags. bind_res (json_iter all_tags) (\<lambda>ts.
     bind_res (map_res (image_id r repo) ts) (\<lambda>ids. Inr (JObj [(''imageIds'', JList (somes ids))])))))"

(* src/scripts/ecr-describe-images-shim.py:137-137 ACTIONS *)
definition ACTIONS :: "(string, registry \<Rightarrow> json \<Rightarrow> json res) dict" where
  "ACTIONS = [(''DescribeImages'', describe_images), (''ListImages'', list_images)]"

(* src/scripts/ecr-describe-images-shim.py:179-183 _repositories *)
definition repositories :: "registry \<Rightarrow> json option res" where
  "repositories r = bind_res (registry_get r ''/v2/_catalog'' None) (\<lambda>g. case g of
       None \<Rightarrow> Inr None
     | Some (raw, _) \<Rightarrow> bind_res (json_of r raw) (\<lambda>j. bind_res (json_get j ''repositories'' JNull) (\<lambda>v. Inr (Some (or_else v (JList []))))))"

text \<open>\<open>repo and repo not in (_repositories() or [repo])\<close>: a value is in the list that holds it.\<close>

(* src/scripts/ecr-describe-images-shim.py:159-159 guard of do_POST *)
definition repo_unknown :: "registry \<Rightarrow> json \<Rightarrow> bool res" where
  "repo_unknown r repo = (if truthy repo then
       bind_res (repositories r) (\<lambda>rs. case rs of
           None \<Rightarrow> Inr False
         | Some v \<Rightarrow> if truthy v then bind_res (py_in repo v) (\<lambda>b. Inr (\<not> b)) else Inr False)
     else Inr False)"

record shim_request =
  rq_target :: "string option"
  rq_length :: "string option"
  rq_body :: string

definition body_length :: "registry \<Rightarrow> string option \<Rightarrow> int res" where
  "body_length r l = (case l of None \<Rightarrow> Inr 0 | Some s \<Rightarrow> if s = [] then Inr 0
     else (case sh_int r s of None \<Rightarrow> Inl (ValueError s) | Some n \<Rightarrow> Inr n))"

text \<open>\<open>rfile.read(n)\<close>: a negative length reads to the end.\<close>

definition read_body :: "int \<Rightarrow> string \<Rightarrow> string" where
  "read_body n s = (if n < 0 then s else take (nat n) s)"

(* src/scripts/ecr-describe-images-shim.py:144-148 body of do_POST *)
definition request_body :: "registry \<Rightarrow> shim_request \<Rightarrow> json res" where
  "request_body r q = bind_res (body_length r (rq_length q)) (\<lambda>n.
     let raw = read_body n (rq_body q) in
     (case json_of r (if raw = [] then ''{}'' else raw) of
        Inl (ValueError m) \<Rightarrow> Inr (JObj []) | Inl e \<Rightarrow> Inl e | Inr j \<Rightarrow> Inr j))"

definition action_of :: "shim_request \<Rightarrow> string" where
  "action_of q = (let target = (case rq_target q of None \<Rightarrow> [] | Some t \<Rightarrow> t) in
     case rsplit1 ''.'' target of None \<Rightarrow> target | Some (a, b) \<Rightarrow> b)"

definition QUOTE :: string where "QUOTE = [CHR 0x27]"

definition unsupported :: "registry \<Rightarrow> string \<Rightarrow> json" where
  "unsupported r action = JObj [(''__type'', JStr ''UnsupportedOperation''),
     (''message'', JStr (''This shim implements only ['' @ join '', '' (map (\<lambda>a. sh_rp r (JStr a)) (sort (dict_keys ACTIONS)))
        @ '']; got '' @ sh_rp r (JStr action) @ ''.''))]"

definition no_repository :: "registry \<Rightarrow> json \<Rightarrow> json" where
  "no_repository r repo = JObj [(''__type'', JStr ''RepositoryNotFoundException''),
     (''message'', JStr (''The repository with name '' @ QUOTE @ py_str (sh_rp r) repo @ QUOTE @ '' does not exist''))]"

text \<open>An exception leaves the handler: the connection is closed with no reply.\<close>

(* src/scripts/ecr-describe-images-shim.py:141-165 do_POST *)
definition do_POST :: "registry \<Rightarrow> shim_request \<Rightarrow> (nat \<times> json) res" where
  "do_POST r q = bind_res (request_body r q) (\<lambda>body.
     case dict_get ACTIONS (action_of q) of
       None \<Rightarrow> Inr (400, unsupported r (action_of q))
     | Some handler \<Rightarrow>
         bind_res (json_get body ''repositoryName'' JNull) (\<lambda>repo.
         bind_res (repo_unknown r repo) (\<lambda>missing.
           if missing then Inr (400, no_repository r repo)
           else bind_res (handler r body) (\<lambda>payload. Inr (200, payload)))))"

(* src/scripts/ecr-describe-images-shim.py:167-173 _reply *)
definition shim_reply :: "(rat \<Rightarrow> string) \<Rightarrow> nat \<Rightarrow> json \<Rightarrow> nat \<times> headers \<times> string" where
  "shim_reply fr code payload = (let raw = dumps fr payload in
     (code, [(''Content-Type'', ''application/x-amz-json-1.1''), (''Content-Length'', nat_str (length raw))], raw))"

section \<open>What a reply says of the registry\<close>

text \<open>A manifest is served for the tag, and the entry is read off it.\<close>

definition served :: "registry \<Rightarrow> json \<Rightarrow> json \<Rightarrow> bool" where
  "served r repo tag \<longleftrightarrow> (\<exists>reply. sh_fetch r (''http://'' @ sh_host r @ tag_path r repo tag) (Some MANIFEST_ACCEPT) = Inr reply)"

definition backed :: "registry \<Rightarrow> json \<Rightarrow> json \<Rightarrow> json \<Rightarrow> bool" where
  "backed r repo tag d \<longleftrightarrow> (\<exists>raw hs man nbytes pushed media.
     sh_fetch r (''http://'' @ sh_host r @ tag_path r repo tag) (Some MANIFEST_ACCEPT) = Inr (raw, hs)
     \<and> json_of r raw = Inr man \<and> manifest_size r man = Inr nbytes \<and> pushed_at r repo man = Inr pushed
     \<and> json_get man ''mediaType'' (JStr []) = Inr media
     \<and> d = detail_of repo tag (header_or hs ''Docker-Content-Digest'') nbytes media pushed)"

definition asked :: "json list \<Rightarrow> json \<Rightarrow> bool" where
  "asked wanted t \<longleftrightarrow> wanted = [] \<or> list_ex (py_eq t) wanted"

definition tag_of :: "json \<Rightarrow> json" where
  "tag_of d = (case json_item d ''imageTags'' of Inr (JList [t]) \<Rightarrow> t | _ \<Rightarrow> JNull)"

lemma somes_simps [simp]: "somes [] = []" "somes (None # xs) = somes xs" "somes (Some x # xs) = x # somes xs"
  by (simp_all add: somes_def)

lemma set_somes: "x \<in> set (somes xs) \<longleftrightarrow> Some x \<in> set xs"
  by (auto simp: somes_def split: option.splits)

lemma image_detail_backed: "image_detail r repo tag = Inr (Some d) \<Longrightarrow> backed r repo tag d"
  unfolding image_detail_def backed_def registry_get_def
  by (auto simp: bind_res_eq_Inr split: sum.splits option.splits if_splits)

lemma image_detail_served: "image_detail r repo tag = Inr None \<Longrightarrow> \<not> served r repo tag"
  unfolding image_detail_def served_def registry_get_def
  by (auto simp: bind_res_eq_Inr split: sum.splits option.splits if_splits)

lemma tag_of_detail: "tag_of (detail_of repo tag g nbytes media pushed) = tag"
  by (simp add: tag_of_def detail_of_def json_item_def)

lemma digest_of_detail: "json_item (detail_of repo tag g nbytes media pushed) ''imageDigest'' = Inr (JStr g)"
  by (simp add: detail_of_def json_item_def)

lemma backed_tag: "backed r repo tag d \<Longrightarrow> tag_of d = tag"
  by (auto simp: backed_def tag_of_detail)

lemma filter_asked: "(if wanted \<noteq> [] then List.filter (\<lambda>t. list_ex (py_eq t) wanted) ts else ts) = List.filter (asked wanted) ts"
  by (auto simp: asked_def [abs_def])

lemma described_entries:
  assumes "describe_images r body = Inr payload"
  obtains repo wanted ts ds where "json_get body ''repositoryName'' JNull = Inr repo" "wanted_tags body = Inr wanted"
    "bind_res (tags r repo) json_iter = Inr ts" "map_res (image_detail r repo) (List.filter (asked wanted) ts) = Inr ds"
    "payload = JObj [(''imageDetails'', JList (somes ds))]"
  using assms unfolding describe_images_def filter_asked by (auto simp: bind_res_eq_Inr)

lemma asked_all [simp]: "asked [] t" by (simp add: asked_def)

lemma described_all:
  assumes "describe_images r body = Inr (JObj [(''imageDetails'', JList ds)])" and "wanted_tags body = Inr []"
    and "json_get body ''repositoryName'' JNull = Inr repo"
  obtains ts es where "bind_res (tags r repo) json_iter = Inr ts" "map_res (image_detail r repo) ts = Inr es" "ds = somes es"
proof -
  obtain repo' wanted ts es where e: "json_get body ''repositoryName'' JNull = Inr repo'" "wanted_tags body = Inr wanted"
    "bind_res (tags r repo') json_iter = Inr ts" "map_res (image_detail r repo') (List.filter (asked wanted) ts) = Inr es"
    "JObj [(''imageDetails'', JList ds)] = JObj [(''imageDetails'', JList (somes es))]" by (rule described_entries [OF assms(1)])
  then have "repo' = repo" "wanted = []" using assms(2,3) by simp_all
  then show thesis using e that by simp
qed

lemma posted:
  assumes "do_POST r q = Inr (200, payload)"
  obtains body handler repo where "request_body r q = Inr body" "dict_get ACTIONS (action_of q) = Some handler"
    "json_get body ''repositoryName'' JNull = Inr repo" "repo_unknown r repo = Inr False" "handler r body = Inr payload"
  using assms unfolding do_POST_def by (auto simp: bind_res_eq_Inr split: option.splits if_splits)

lemma actions [simp]:
  "dict_get ACTIONS ''DescribeImages'' = Some describe_images" "dict_get ACTIONS ''ListImages'' = Some list_images"
  by (simp_all add: ACTIONS_def)

text \<open>
  C25. A successful DescribeImages reply is about what the registry holds: every entry is read off a
  manifest the registry served for a tag it lists and the caller asked for, and every listed and
  asked-for tag whose manifest it serves has its entry.
\<close>

theorem describe_sound_complete:
  assumes "do_POST r q = Inr (200, payload)" and "action_of q = ''DescribeImages''"
  shows "\<exists>body repo wanted ts ds. request_body r q = Inr body \<and> json_get body ''repositoryName'' JNull = Inr repo
    \<and> wanted_tags body = Inr wanted \<and> bind_res (tags r repo) json_iter = Inr ts
    \<and> payload = JObj [(''imageDetails'', JList ds)]
    \<and> (\<forall>d \<in> set ds. \<exists>tag \<in> set ts. asked wanted tag \<and> backed r repo tag d)
    \<and> (\<forall>tag \<in> set ts. asked wanted tag \<longrightarrow> served r repo tag \<longrightarrow> (\<exists>d \<in> set ds. backed r repo tag d))"
proof -
  obtain body handler repo0 where "request_body r q = Inr body" "dict_get ACTIONS (action_of q) = Some handler"
    "json_get body ''repositoryName'' JNull = Inr repo0" "repo_unknown r repo0 = Inr False" "handler r body = Inr payload"
    by (rule posted [OF assms(1)])
  then have b: "request_body r q = Inr body" "describe_images r body = Inr payload" using assms(2) by simp_all
  obtain repo wanted ts ds where d: "json_get body ''repositoryName'' JNull = Inr repo" "wanted_tags body = Inr wanted"
    "bind_res (tags r repo) json_iter = Inr ts" and m: "map_res (image_detail r repo) (List.filter (asked wanted) ts) = Inr ds"
    and p: "payload = JObj [(''imageDetails'', JList (somes ds))]" by (rule described_entries [OF b(2)])
  have "\<exists>tag \<in> set ts. asked wanted tag \<and> backed r repo tag e" if "e \<in> set (somes ds)" for e
  proof -
    have "Some e \<in> set ds" using that by (simp add: set_somes)
    then obtain i where i: "i < length ds" "ds ! i = Some e" by (metis in_set_conv_nth)
    let ?t = "List.filter (asked wanted) ts ! i"
    have l: "i < length (List.filter (asked wanted) ts)" using i map_res_length [OF m] by simp
    then have "?t \<in> set (List.filter (asked wanted) ts)" by (rule nth_mem)
    then show ?thesis using image_detail_backed map_res_nth [OF m l] i by fastforce
  qed
  moreover have "\<exists>e \<in> set (somes ds). backed r repo tag e" if "tag \<in> set ts" "asked wanted tag" "served r repo tag" for tag
  proof -
    have "tag \<in> set (List.filter (asked wanted) ts)" using that by simp
    then obtain o' where "o' \<in> set ds" "image_detail r repo tag = Inr o'" using map_res_mem [OF m] by blast
    then obtain e where "o' = Some e" using image_detail_served \<open>served r repo tag\<close> by (metis option.exhaust)
    then show ?thesis using \<open>o' \<in> set ds\<close> \<open>image_detail r repo tag = Inr o'\<close> image_detail_backed set_somes by fastforce
  qed
  ultimately show ?thesis using b d p by blast
qed

section \<open>The two calls agree, and the filter selects\<close>

definition id_of :: "json \<Rightarrow> json" where
  "id_of d = JObj [(''imageDigest'', projr (json_item d ''imageDigest'')), (''imageTag'', tag_of d)]"

lemma image_id_detail: "image_detail r repo tag = Inr d \<Longrightarrow> image_id r repo tag = Inr (map_option id_of d)"
proof (cases d)
  case (Some e)
  assume "image_detail r repo tag = Inr d"
  with Some obtain g nbytes media pushed where "image_detail r repo tag = Inr (Some e)" "e = detail_of repo tag g nbytes media pushed"
    using image_detail_backed by (metis backed_def)
  then show ?thesis using Some by (simp add: image_id_def digest_of_detail id_of_def tag_of_detail)
qed (simp add: image_id_def)

lemma map_res_image_id:
  "map_res (image_detail r repo) ts = Inr ds \<Longrightarrow> map_res (image_id r repo) ts = Inr (map (map_option id_of) ds)"
  by (induction ts arbitrary: ds) (auto simp: image_id_detail split: sum.splits)

lemma somes_map_option: "somes (map (map_option f) ds) = map f (somes ds)"
  by (induction ds) (auto simp: somes_def split: option.splits)

text \<open>
  ListImages answers with the digest and the tag of exactly the images DescribeImages describes, in
  the same order, when no image is singled out.
\<close>

theorem list_is_projection:
  assumes "do_POST r q = Inr (200, JObj [(''imageDetails'', JList ds)])" and "action_of q = ''DescribeImages''"
    and "request_body r q = Inr body" and "wanted_tags body = Inr []" and "action_of q' = ''ListImages''"
    and "rq_length q' = rq_length q" and "rq_body q' = rq_body q"
  shows "do_POST r q' = Inr (200, JObj [(''imageIds'', JList (map id_of ds))])"
proof -
  have q': "request_body r q' = Inr body" using assms(3,6,7) by (simp add: request_body_def)
  obtain body' handler repo where p: "request_body r q = Inr body'" "dict_get ACTIONS (action_of q) = Some handler"
    "json_get body' ''repositoryName'' JNull = Inr repo" "repo_unknown r repo = Inr False"
    "handler r body' = Inr (JObj [(''imageDetails'', JList ds)])" by (rule posted [OF assms(1)])
  then have repo: "json_get body ''repositoryName'' JNull = Inr repo" "repo_unknown r repo = Inr False"
    "describe_images r body = Inr (JObj [(''imageDetails'', JList ds)])" using assms(2,3) by simp_all
  obtain ts es where m: "bind_res (tags r repo) json_iter = Inr ts" "map_res (image_detail r repo) ts = Inr es" "ds = somes es"
    by (rule described_all [OF repo(3) assms(4) repo(1)]) blast
  then have "list_images r body = Inr (JObj [(''imageIds'', JList (map id_of ds))])"
    using repo(1) map_res_image_id [OF m(2)] unfolding list_images_def by (auto simp: bind_res_eq_Inr somes_map_option)
  then show ?thesis using q' repo assms(5) by (simp add: do_POST_def)
qed

lemma py_eq_str [simp]: "py_eq v (JStr s) \<longleftrightarrow> v = JStr s"
  by (cases v) (auto simp: num_of_def)

lemma map_res_filter:
  "map_res f ts = Inr ds \<Longrightarrow> map_res f (List.filter p ts) = Inr (map snd (List.filter (\<lambda>(t, d). p t) (zip ts ds)))"
  by (induction ts arbitrary: ds) (auto split: sum.splits)

lemma somes_tagged:
  "map_res (image_detail r repo) ts = Inr ds \<Longrightarrow>
     somes (map snd (List.filter (\<lambda>(t, d). p t) (zip ts ds))) = List.filter (\<lambda>d. p (tag_of d)) (somes ds)"
proof (induction ts arbitrary: ds)
  case (Cons t ts)
  then obtain o' rest where o: "image_detail r repo t = Inr o'" "map_res (image_detail r repo) ts = Inr rest" "ds = o' # rest"
    by (auto split: sum.splits)
  then show ?case using Cons.IH [OF o(2)] backed_tag [OF image_detail_backed] by (cases o') auto
qed simp

lemma wanted_strs:
  "[] \<notin> set names \<Longrightarrow> wanted_tags (JObj (dict_set ''imageIds'' (JList (map (\<lambda>n. JObj [(''imageTag'', JStr n)]) names)) b))
     = Inr (map JStr names)"
proof -
  assume "[] \<notin> set names"
  then have f: "List.filter truthy (map JStr names) = map JStr names" by (induction names) auto
  have g: "json_get (JObj [(''imageTag'', JStr n)]) ''imageTag'' JNull = Inr (JStr n)" for n
    by (simp add: json_get_def get_or_def)
  have "map_res (\<lambda>i. json_get i ''imageTag'' JNull) (map (\<lambda>n. JObj [(''imageTag'', JStr n)]) names) = Inr (map JStr names)"
    by (induction names) (simp_all add: g)
  moreover have "json_get (JObj (dict_set ''imageIds'' (JList (map (\<lambda>n. JObj [(''imageTag'', JStr n)]) names)) b)) ''imageIds'' JNull
      = Inr (JList (map (\<lambda>n. JObj [(''imageTag'', JStr n)]) names))" by (simp add: json_get_def get_or_def)
  moreover have "or_else (JList xs) (JList []) = JList xs" for xs by (simp add: or_else_def)
  ultimately show ?thesis using f unfolding wanted_tags_def by (simp add: json_iter_def)
qed

text \<open>
  Naming tags selects: the entries of the named tags out of the reply without a selection, in the
  registry's order, whatever the order they were named in; a tag that does not exist adds nothing.
\<close>

theorem filter_selects:
  assumes "describe_images r (JObj b) = Inr (JObj [(''imageDetails'', JList ds)])"
    and "dict_get b ''imageIds'' = None" and "names \<noteq> []" and "[] \<notin> set names"
  shows "describe_images r (JObj (dict_set ''imageIds'' (JList (map (\<lambda>n. JObj [(''imageTag'', JStr n)]) names)) b))
    = Inr (JObj [(''imageDetails'', JList (List.filter (\<lambda>d. tag_of d \<in> JStr ` set names) ds))])"
proof -
  let ?b = "JObj (dict_set ''imageIds'' (JList (map (\<lambda>n. JObj [(''imageTag'', JStr n)]) names)) b)"
  have w: "wanted_tags (JObj b) = Inr []"
    using assms(2) by (simp add: wanted_tags_def json_get_def get_or_def or_else_def json_iter_def)
  obtain repo where repo: "json_get (JObj b) ''repositoryName'' JNull = Inr repo" by (simp add: json_get_def)
  obtain ts es where m: "bind_res (tags r repo) json_iter = Inr ts" "map_res (image_detail r repo) ts = Inr es" "ds = somes es"
    by (rule described_all [OF assms(1) w repo]) blast
  have "json_get ?b ''repositoryName'' JNull = Inr repo" using repo by (simp add: json_get_def get_or_def)
  moreover have "asked (map JStr names) = (\<lambda>t. t \<in> JStr ` set names)"
    using assms(3) by (auto simp: asked_def [abs_def] list_ex_iff fun_eq_iff)
  moreover have "map_res (image_detail r repo) (List.filter (\<lambda>t. t \<in> JStr ` set names) ts)
      = Inr (map snd (List.filter (\<lambda>(t, d). t \<in> JStr ` set names) (zip ts es)))" by (rule map_res_filter [OF m(2)])
  ultimately show ?thesis
    using m(1,3) wanted_strs [OF assms(4), of b] somes_tagged [OF m(2), of "\<lambda>t. t \<in> JStr ` set names"]
    unfolding describe_images_def filter_asked by (auto simp: bind_res_eq_Inr)
qed

section \<open>A repository the registry does not have\<close>

text \<open>
  An unknown repository is refused only while the catalogue lists some repository: with an empty
  catalogue, or one that cannot be read, the reply is a success with no image.
\<close>

theorem unknown_repository_passes:
  assumes "request_body r q = Inr (JObj b)" and "action_of q = ''DescribeImages''"
    and "dict_get b ''repositoryName'' = Some (JStr n)" and "n \<noteq> []" and "dict_get b ''imageIds'' = None"
    and "registry_get r (''/v2/'' @ n @ ''/tags/list'') None = Inr None"
  shows "(repositories r \<in> {Inr None, Inr (Some (JList []))} \<longrightarrow> do_POST r q = Inr (200, JObj [(''imageDetails'', JList [])]))
    \<and> (\<forall>rs. repositories r = Inr (Some (JList rs)) \<and> rs \<noteq> [] \<and> JStr n \<notin> set rs \<longrightarrow>
         do_POST r q = Inr (400, no_repository r (JStr n)))"
proof -
  have repo: "json_get (JObj b) ''repositoryName'' JNull = Inr (JStr n)" using assms(3) by (simp add: json_get_def get_or_def)
  have "wanted_tags (JObj b) = Inr []"
    using assms(5) by (simp add: wanted_tags_def json_get_def get_or_def or_else_def json_iter_def)
  moreover have "tags r (JStr n) = Inr (JList [])" using assms(6) by (simp add: tags_def py_str_def)
  ultimately have "describe_images r (JObj b) = Inr (JObj [(''imageDetails'', JList [])])"
    using repo by (simp add: describe_images_def json_iter_def)
  then show ?thesis using assms(1,2,4) repo
    by (auto simp: do_POST_def repo_unknown_def py_in_def list_ex_iff)
qed

section \<open>A registry with one image\<close>

definition demo_fetch :: "string \<Rightarrow> string option \<Rightarrow> (string \<times> headers) res" where
  "demo_fetch url accept =
     (if url = ''http://reg/v2/_catalog'' then Inr (''{\"repositories\":[\"api\"]}'', [])
      else if url = ''http://reg/v2/api/tags/list'' then Inr (''{\"tags\":[\"gone\",\"v1\"]}'', [])
      else if url = ''http://reg/v2/api/manifests/v1'' then
        Inr (''{\"layers\":[{\"size\":5},{\"size\":7}],\"config\":{\"size\":2}}'', [(''Docker-Content-Digest'', ''sha256:d'')])
      else Inl (OtherError ''HTTPError'' ''404''))"

definition demo_registry :: registry where
  "demo_registry = \<lparr>sh_host = ''reg'', sh_fetch = demo_fetch, sh_decode = Inr, sh_fl = (\<lambda>x. x), sh_rp = (\<lambda>v. ''repr''), sh_int = (\<lambda>s. Some 99),
     sh_stamp = (\<lambda>s. Inl (ValueError s)), sh_plus = (\<lambda>a b. Inl (TypeError ''+''))\<rparr>"

definition demo_request :: "string \<Rightarrow> shim_request" where
  "demo_request action = \<lparr>rq_target = Some (''AmazonEC2ContainerRegistry_V20150921.'' @ action), rq_length = Some ''24'',
     rq_body = ''{\"repositoryName\":\"api\"}''\<rparr>"

definition demo_detail :: json where
  "demo_detail = detail_of (JStr ''api'') (JStr ''v1'') ''sha256:d'' (JInt 14) (JStr []) None"

lemma demo_described: "do_POST demo_registry (demo_request ''DescribeImages'') = Inr (200, JObj [(''imageDetails'', JList [demo_detail])])"
  by code_simp

lemma demo_body: "request_body demo_registry (demo_request ''DescribeImages'') = Inr (JObj [(''repositoryName'', JStr ''api'')])"
  by code_simp

lemma demo_action: "action_of (demo_request ''DescribeImages'') = ''DescribeImages''" "action_of (demo_request ''ListImages'') = ''ListImages''"
  by code_simp+

theorem describe_sound_complete_witness:
  "do_POST demo_registry (demo_request ''DescribeImages'') = Inr (200, JObj [(''imageDetails'', JList [demo_detail])])
   \<and> (\<exists>repo tag. backed demo_registry repo tag demo_detail)"
  using describe_sound_complete [OF demo_described demo_action(1)] demo_described by auto

theorem list_is_projection_witness:
  "do_POST demo_registry (demo_request ''ListImages'')
   = Inr (200, JObj [(''imageIds'', JList [JObj [(''imageDigest'', JStr ''sha256:d''), (''imageTag'', JStr ''v1'')]])])"
proof -
  have "wanted_tags (JObj [(''repositoryName'', JStr ''api'')]) = Inr []" by code_simp
  moreover have "id_of demo_detail = JObj [(''imageDigest'', JStr ''sha256:d''), (''imageTag'', JStr ''v1'')]" by code_simp
  ultimately show ?thesis
    using list_is_projection [OF demo_described demo_action(1) demo_body _ demo_action(2)] by (simp add: demo_request_def)
qed

theorem filter_selects_witness:
  "describe_images demo_registry (JObj (dict_set ''imageIds'' (JList (map (\<lambda>n. JObj [(''imageTag'', JStr n)]) [''v9'', ''v1''])) [(''repositoryName'', JStr ''api'')]))
   = Inr (JObj [(''imageDetails'', JList [demo_detail])])"
proof -
  have "describe_images demo_registry (JObj [(''repositoryName'', JStr ''api'')]) = Inr (JObj [(''imageDetails'', JList [demo_detail])])" by code_simp
  moreover have "tag_of demo_detail = JStr ''v1''" by code_simp
  ultimately show ?thesis
    using filter_selects [of demo_registry "[(''repositoryName'', JStr ''api'')]" "[demo_detail]" "[''v9'', ''v1'']"] by simp
qed

end
