(* ===== verification/OpsScripts.thy ===== *)
theory OpsScripts
  imports McpEdge AgentGraph PolicyMatch
begin

text \<open>
  The operational scripts: the container probe of the tool server (\<open>scripts/healthcheck.py\<close>), the
  checkpoint smoke test of the agent (\<open>scripts/smoke.py\<close>), the recorded inspector session
  (\<open>scripts/inspector_session.py\<close>) and the offline template transform (\<open>scripts/sam-transform.py\<close>).
  The checkpoint saver, the processes a script starts and the template translator are arguments.
\<close>

section \<open>The container probe\<close>

(* src/taxcalc-mcp-server/src/taxcalc_mcp_server/scripts/healthcheck.py:27-28 HEALTHY_STATUSES *)
definition HEALTHY_STATUSES :: "int list" where "HEALTHY_STATUSES = [200, 401]"

text \<open>What \<open>urlopen\<close> does: a response, an \<open>HTTPError\<close> with its code, another \<open>OSError\<close>, or anything else.\<close>

datatype url_reply = Opened int | HttpError int | OsError | Escapes exn

(* src/taxcalc-mcp-server/src/taxcalc_mcp_server/scripts/healthcheck.py:35-48 probe *)
definition probe :: "(string \<Rightarrow> url_reply) \<Rightarrow> string \<Rightarrow> int res" where
  "probe urlopen url = (case urlopen url of
      Opened status \<Rightarrow> Inr (if status \<in> set HEALTHY_STATUSES then 0 else 1)
    | HttpError code \<Rightarrow> Inr (if code \<in> set HEALTHY_STATUSES then 0 else 1)
    | OsError \<Rightarrow> Inr 1
    | Escapes e \<Rightarrow> Inl e)"

(* src/taxcalc-mcp-server/src/taxcalc_mcp_server/scripts/healthcheck.py:51-59 main *)
definition healthcheck_main :: "(string \<Rightarrow> url_reply) \<Rightarrow> string list \<Rightarrow> int res" where
  "healthcheck_main urlopen args = probe urlopen (case args of [] \<Rightarrow> ''http://127.0.0.1:8080/sse'' | a # _ \<Rightarrow> a)"

text \<open>The tool server as the probe sees it: the gate on a request with no credential, before the transport.\<close>

definition gated :: "mcp_settings \<Rightarrow> (string \<Rightarrow> jdict res) \<Rightarrow> (json \<Rightarrow> string) \<Rightarrow> url_reply \<Rightarrow> url_reply" where
  "gated s decode rp transport = (case bearer_middleware s decode rp ''http'' None of
      Inr (Refuse status body) \<Rightarrow> HttpError status
    | Inr (PassOn _) \<Rightarrow> transport
    | Inl e \<Rightarrow> HttpError 500)"

text \<open>
  The probe passes on a server whose gate is up, however the gate is configured and whatever is behind
  it: the probe does not reach the transport.
\<close>

theorem gate_alone_is_healthy:
  "healthcheck_main (\<lambda>url. gated s decode rp transport) args = Inr 0"
proof -
  have "parse_bearer None = []" by (simp add: parse_bearer_def)
  then show ?thesis
    by (simp add: healthcheck_main_def probe_def gated_def bearer_middleware_def refuse_def HEALTHY_STATUSES_def)
qed

section \<open>The checkpoint smoke test\<close>

(* src/taxcalc-agent-svc/src/taxcalc_agent_svc/scripts/smoke.py:46-57 fake_retrieval *)
definition fake_retrieval :: partial_state where
  "fake_retrieval = empty_update\<lparr>p_docs := Some [\<lparr>chunk_id = ''chunk-doc-1-p0'', doc_id = ''doc-1'', score = 9 / 10\<rparr>],
     p_cost := Some 10, p_visited := Some [RETRIEVAL_AGENT]\<rparr>"

(* src/taxcalc-agent-svc/src/taxcalc_agent_svc/scripts/smoke.py:59-70 fake_api *)
definition fake_api :: partial_state where
  "fake_api = empty_update\<lparr>p_tool_results := Some [(''orders.get_order'', JObj [(''id'', JStr ''ord-synth-9001''), (''status'', JStr ''SHIPPED'')])],
     p_cost := Some 20, p_visited := Some [API_AGENT]\<rparr>"

(* src/taxcalc-agent-svc/src/taxcalc_agent_svc/scripts/smoke.py:72-83 fake_synthesis *)
definition fake_synthesis :: partial_state where
  "fake_synthesis = empty_update\<lparr>p_answer := Some ''{\"text\":\"offline smoke answer\",\"citations\":[],\"confidence\":0.9}'',
     p_cost := Some 30, p_visited := Some [SYNTHESIS_AGENT]\<rparr>"

(* src/taxcalc-agent-svc/src/taxcalc_agent_svc/scripts/smoke.py:38-87 _install_offline_nodes *)
definition offline_nodes :: "string \<Rightarrow> agent_state \<Rightarrow> partial_state body_run" where
  "offline_nodes t s = Finished (Inr (if t = RETRIEVAL_AGENT then fake_retrieval else if t = API_AGENT then fake_api else fake_synthesis))"

text \<open>
  The saver of checkpoints. \<open>ck_load\<close> reads a thread's state out of the stored rows, \<open>ck_save\<close> stores what
  one invocation, from the state it resumed to the state it ended in, leaves behind.
\<close>

record 'db saver =
  ck_load :: "'db \<Rightarrow> string \<Rightarrow> agent_state option"
  ck_save :: "'db \<Rightarrow> string \<Rightarrow> agent_state \<Rightarrow> agent_state \<Rightarrow> 'db"
  ck_rows :: "'db \<Rightarrow> string \<Rightarrow> nat"

record smoke_env =
  sk_messages :: "json list \<Rightarrow> json list \<Rightarrow> json list"
  sk_dump :: "final_answer \<Rightarrow> string"
  sk_steps :: nat
  sk_nodes :: "string \<Rightarrow> agent_state \<Rightarrow> partial_state body_run"

definition resumed :: "'db saver \<Rightarrow> string \<Rightarrow> string \<Rightarrow> 'db \<Rightarrow> agent_state" where
  "resumed ck thread q db =
     resume (case ck_load ck db thread of None \<Rightarrow> entry_state q ''tenant-a'' thread | Some s \<Rightarrow> s) q ''tenant-a'' thread"

definition invoke :: "smoke_env \<Rightarrow> 'db saver \<Rightarrow> string \<Rightarrow> string \<Rightarrow> 'db \<Rightarrow> (agent_state \<times> 'db) res" where
  "invoke e ck thread q db =
     (let s = resumed ck thread q db
      in bind_res (outcome (run_graph (sk_messages e) (wrapped (sk_dump e) (sk_nodes e)) (sk_steps e) s))
           (\<lambda>s'. Inr (s', ck_save ck db thread s s')))"

(* src/taxcalc-agent-svc/src/taxcalc_agent_svc/scripts/smoke.py:90-100 count_checkpoints *)
definition count_checkpoints :: "'db saver \<Rightarrow> 'db \<Rightarrow> string \<Rightarrow> nat" where
  "count_checkpoints ck db thread = ck_rows ck db thread"

text \<open>The states printed after the two invocations, and the exit code.\<close>

(* src/taxcalc-agent-svc/src/taxcalc_agent_svc/scripts/smoke.py:103-137 _run *)
definition smoke_run :: "smoke_env \<Rightarrow> 'db saver \<Rightarrow> bool \<Rightarrow> string \<Rightarrow> string \<Rightarrow> 'db \<Rightarrow> (agent_state list \<times> int) res" where
  "smoke_run e ck offline thread q db =
     (let e' = (if offline then e\<lparr>sk_nodes := offline_nodes\<rparr> else e) in
      bind_res (invoke e' ck thread q db) (\<lambda>(s1, db1).
      bind_res (invoke e' ck thread q db1) (\<lambda>(s2, db2).
        Inr ([s1, s2], if count_checkpoints ck db2 thread < 2 then 1 else 0))))"

text \<open>A thread's state is what its last invocation ended in.\<close>

definition keeps_state :: "'db saver \<Rightarrow> bool" where
  "keeps_state ck \<longleftrightarrow> (\<forall>db th s s'. ck_load ck (ck_save ck db th s s') th = Some s')"

definition offline_visits :: "string \<Rightarrow> string list" where
  "offline_visits q = supervisor (entry_state q [] []) @ [SYNTHESIS_AGENT]"

definition offline_cost :: "string \<Rightarrow> int" where
  "offline_cost q = sum_list (map (\<lambda>t. if t = RETRIEVAL_AGENT then 10 else if t = API_AGENT then 20 else 30) (offline_visits q))"

lemma supervisor_reads_question: "question s = question s' \<Longrightarrow> supervisor s = supervisor s'"
  by (simp add: supervisor_def)

lemma offline_invoke:
  assumes "2 \<le> sk_steps e" and "sk_nodes e = offline_nodes"
  obtains s' where "invoke e ck thread q db = Inr (s', ck_save ck db thread (resumed ck thread q db) s')"
    "visited_nodes s' = visited_nodes (resumed ck thread q db) @ offline_visits q" "cost_usd_e5 s' = cost_usd_e5 (resumed ck thread q db) + offline_cost q"
    "answer s' = p_answer fake_synthesis"
proof -
  obtain n where n: "sk_steps e = Suc (Suc n)" using assms(1) by (metis Suc_le_D numeral_2_eq_2 Suc_le_mono)
  define upd where "upd = (\<lambda>t. if t = RETRIEVAL_AGENT then fake_retrieval else if t = API_AGENT then fake_api else fake_synthesis)"
  have w: "wrapped (sk_dump e) (sk_nodes e) t s = Inr (upd t)" for t s
    by (simp add: assms(2) wrapped_def offline_nodes_def deadline_finished upd_def)
  let ?s = "resumed ck thread q db"
  have plan: "supervisor ?s @ [SYNTHESIS_AGENT] = offline_visits q"
    unfolding offline_visits_def
    using supervisor_reads_question [of ?s "entry_state q [] []"] by (simp add: resumed_def resume_def entry_state_def)
  have run: "outcome (run_graph (sk_messages e) (wrapped (sk_dump e) (sk_nodes e)) (sk_steps e) ?s)
      = Inr (fan_in (sk_messages e) ?s (map upd (supervisor ?s @ [SYNTHESIS_AGENT])))"
    unfolding n run_graph_two_steps by (simp add: w map_res_Inr_map [of _ _ upd])
  let ?s' = "fan_in (sk_messages e) ?s (map upd (offline_visits q))"
  have sub: "set (offline_visits q) \<subseteq> {RETRIEVAL_AGENT, API_AGENT, SYNTHESIS_AGENT}"
    unfolding offline_visits_def by (cases "entry_state q [] []" rule: supervisor_cases) auto
  have v: "concat (map (\<lambda>u. contrib (p_visited u)) (map upd ts)) = ts" if "set ts \<subseteq> {RETRIEVAL_AGENT, API_AGENT, SYNTHESIS_AGENT}" for ts
    using that by (induction ts) (auto simp: upd_def contrib_def fake_retrieval_def fake_api_def fake_synthesis_def)
  have c: "map (\<lambda>u. contrib_cost (p_cost u)) (map upd ts)
      = map (\<lambda>t. if t = RETRIEVAL_AGENT then 10 else if t = API_AGENT then 20 else 30) ts" for ts
    by (induction ts) (auto simp: upd_def contrib_cost_def fake_retrieval_def fake_api_def fake_synthesis_def)
  have "answer ?s' = p_answer fake_synthesis"
    by (simp add: offline_visits_def fan_in_def upd_def apply_update_def fake_synthesis_def)
  moreover have "invoke e ck thread q db = Inr (?s', ck_save ck db thread ?s ?s')"
    using run unfolding invoke_def Let_def plan by simp
  ultimately show thesis
    using that [of ?s'] by (simp add: fan_in_visited fan_in_cost v [OF sub] c offline_cost_def del: map_map)
qed

text \<open>
  C27. The offline smoke run on a new thread shows the resumption it is about: with a saver that keeps a
  thread's state, the second state has the visits of the first twice and twice its cost, whatever the
  question; it ends with exit code 0 exactly when the saver counts two rows.
\<close>

theorem smoke_resumes:
  assumes "2 \<le> sk_steps e" and "keeps_state ck" and "ck_load ck db thread = None"
  shows "\<exists>s1 s2 db2. smoke_run e ck True thread q db = Inr ([s1, s2], if ck_rows ck db2 thread < 2 then 1 else 0)
    \<and> ck_load ck db2 thread = Some s2
    \<and> visited_nodes s1 = offline_visits q \<and> visited_nodes s2 = offline_visits q @ offline_visits q
    \<and> cost_usd_e5 s1 = offline_cost q \<and> cost_usd_e5 s2 = 2 * offline_cost q"
proof -
  let ?e = "e\<lparr>sk_nodes := offline_nodes\<rparr>"
  have e: "2 \<le> sk_steps ?e" "sk_nodes ?e = offline_nodes" using assms(1) by simp_all
  obtain s1 where s1: "invoke ?e ck thread q db = Inr (s1, ck_save ck db thread (resume (entry_state q ''tenant-a'' thread) q ''tenant-a'' thread) s1)"
    "visited_nodes s1 = offline_visits q" "cost_usd_e5 s1 = offline_cost q"
  proof -
    have r: "resumed ck thread q db = resume (entry_state q ''tenant-a'' thread) q ''tenant-a'' thread" by (simp add: resumed_def assms(3))
    show thesis by (rule offline_invoke [OF e, of ck thread q db]) (rule that, simp_all add: r, simp_all add: resume_def entry_state_def)
  qed
  let ?db1 = "ck_save ck db thread (resume (entry_state q ''tenant-a'' thread) q ''tenant-a'' thread) s1"
  have l: "ck_load ck ?db1 thread = Some s1" using assms(2) by (simp add: keeps_state_def)
  obtain s2 where s2: "invoke ?e ck thread q ?db1 = Inr (s2, ck_save ck ?db1 thread (resume s1 q ''tenant-a'' thread) s2)"
    "visited_nodes s2 = visited_nodes s1 @ offline_visits q" "cost_usd_e5 s2 = cost_usd_e5 s1 + offline_cost q"
  proof -
    have r: "resumed ck thread q ?db1 = resume s1 q ''tenant-a'' thread" by (simp add: resumed_def l)
    show thesis by (rule offline_invoke [OF e, of ck thread q ?db1]) (rule that, simp_all add: r, simp_all add: resume_def)
  qed
  let ?db2 = "ck_save ck ?db1 thread (resume s1 q ''tenant-a'' thread) s2"
  have "smoke_run e ck True thread q db = Inr ([s1, s2], if ck_rows ck ?db2 thread < 2 then 1 else 0)"
    by (simp add: smoke_run_def s1(1) s2(1) count_checkpoints_def)
  moreover have "ck_load ck ?db2 thread = Some s2" using assms(2) by (simp add: keeps_state_def)
  ultimately show ?thesis using s1 s2 by (intro exI conjI) auto
qed

definition list_saver :: "agent_state list saver" where
  "list_saver = \<lparr>ck_load = (\<lambda>db th. if db = [] then None else Some (last db)), ck_save = (\<lambda>db th s s'. db @ [s']),
     ck_rows = (\<lambda>db th. 2 * length db)\<rparr>"

definition demo_smoke :: smoke_env where
  "demo_smoke = \<lparr>sk_messages = (@), sk_dump = (\<lambda>a. []), sk_steps = 2, sk_nodes = (\<lambda>t s. CutOff)\<rparr>"

theorem smoke_resumes_witness:
  "\<exists>s1 s2. smoke_run demo_smoke list_saver True ''t1'' ''show order ord-synth-9001'' [] = Inr ([s1, s2], 0)
     \<and> visited_nodes s2 = [API_AGENT, SYNTHESIS_AGENT, API_AGENT, SYNTHESIS_AGENT] \<and> cost_usd_e5 s2 = 100"
proof -
  let ?q = "''show order ord-synth-9001''"
  have q: "offline_visits ?q = [API_AGENT, SYNTHESIS_AGENT]" "offline_cost ?q = 50" by code_simp+
  have "2 \<le> sk_steps demo_smoke" by (simp add: demo_smoke_def)
  moreover have "keeps_state list_saver" by (simp add: keeps_state_def list_saver_def)
  moreover have "ck_load list_saver [] ''t1'' = None" by (simp add: list_saver_def)
  ultimately obtain s1 s2 db2 where r: "smoke_run demo_smoke list_saver True ''t1'' ?q [] = Inr ([s1, s2], if ck_rows list_saver db2 ''t1'' < 2 then 1 else 0)"
    "ck_load list_saver db2 ''t1'' = Some s2" "visited_nodes s2 = offline_visits ?q @ offline_visits ?q" "cost_usd_e5 s2 = 2 * offline_cost ?q"
    using smoke_resumes [of demo_smoke list_saver "[]" "''t1''" ?q] by blast
  have "\<not> ck_rows list_saver db2 ''t1'' < 2" using r(2) by (cases db2) (simp_all add: list_saver_def)
  then show ?thesis using r q by (intro exI [of _ s1] exI [of _ s2]) simp
qed

text \<open>
  The exit code does not tell: with a saver that writes rows and never gives a state back, so that the
  second invocation starts afresh, the run reports success, since one invocation leaves two rows already.
\<close>

theorem rows_do_not_show_resumption:
  assumes "2 \<le> sk_steps e" and "\<And>db th. ck_load ck db th = None" and "\<And>db th s s'. 2 \<le> ck_rows ck (ck_save ck db th s s') th"
  shows "\<exists>s1 s2. smoke_run e ck True thread q db = Inr ([s1, s2], 0)
    \<and> visited_nodes s1 = offline_visits q \<and> visited_nodes s2 = offline_visits q \<and> cost_usd_e5 s2 = cost_usd_e5 s1"
proof -
  let ?e = "e\<lparr>sk_nodes := offline_nodes\<rparr>"
  let ?s = "resume (entry_state q ''tenant-a'' thread) q ''tenant-a'' thread"
  have e: "2 \<le> sk_steps ?e" "sk_nodes ?e = offline_nodes" using assms(1) by simp_all
  have i: "\<exists>s'. invoke ?e ck thread q d = Inr (s', ck_save ck d thread ?s s') \<and> visited_nodes s' = offline_visits q \<and> cost_usd_e5 s' = offline_cost q" for d
  proof -
    have r: "resumed ck thread q d = ?s" by (simp add: resumed_def assms(2))
    obtain s' where "invoke ?e ck thread q d = Inr (s', ck_save ck d thread (resumed ck thread q d) s')"
      "visited_nodes s' = visited_nodes (resumed ck thread q d) @ offline_visits q"
      "cost_usd_e5 s' = cost_usd_e5 (resumed ck thread q d) + offline_cost q" by (rule offline_invoke [OF e, of ck thread q d])
    then show ?thesis unfolding r by (simp add: resume_def entry_state_def)
  qed
  obtain s1 where s1: "invoke ?e ck thread q db = Inr (s1, ck_save ck db thread ?s s1)" "visited_nodes s1 = offline_visits q" "cost_usd_e5 s1 = offline_cost q"
    using i by blast
  obtain s2 where s2: "invoke ?e ck thread q (ck_save ck db thread ?s s1) = Inr (s2, ck_save ck (ck_save ck db thread ?s s1) thread ?s s2)"
    "visited_nodes s2 = offline_visits q" "cost_usd_e5 s2 = offline_cost q"
    using i by blast
  have "\<not> ck_rows ck (ck_save ck (ck_save ck db thread ?s s1) thread ?s s2) thread < 2" using assms(3) by (simp add: not_less)
  then have "smoke_run e ck True thread q db = Inr ([s1, s2], 0)" by (simp add: smoke_run_def s1(1) s2(1) count_checkpoints_def)
  then show ?thesis using s1(2,3) s2(2,3) by (intro exI [of _ s1] exI [of _ s2]) simp
qed

section \<open>The inspector session\<close>

(* src/taxcalc-mcp-server/scripts/inspector_session.py:42-44 STUB_PORT *)
definition STUB_PORT :: nat where "STUB_PORT = 8791"

(* src/taxcalc-mcp-server/scripts/inspector_session.py:46-48 INSPECTOR *)
definition INSPECTOR :: "string list" where
  "INSPECTOR = [''npx'', ''-y'', ''@modelcontextprotocol/inspector'', ''--cli'']"

(* src/taxcalc-mcp-server/scripts/inspector_session.py:50-60 SERVER_NAME *)
definition SERVER_NAME :: string where "SERVER_NAME = ''taxcalc-mcp-server''"

(* src/taxcalc-mcp-server/scripts/inspector_session.py:63-86 _session_config *)
definition session_config :: json where
  "session_config = JObj [(''mcpServers'', JObj [(SERVER_NAME, JObj [(''command'', JStr ''uv''),
     (''args'', JList (map JStr [''run'', ''python'', ''-m'', ''taxcalc_mcp_server.transports.stdio''])),
     (''env'', JObj [(''TAXCALC_MCP_ORDERS_SVC_URL'', JStr (''http://127.0.0.1:'' @ nat_str STUB_PORT)),
       (''TAXCALC_MCP_BEARER_JWT'', JStr ''inspector-bearer-token''), (''LANGSMITH_TRACING'', JStr ''false''),
       (''LANGSMITH_API_KEY'', JStr ''inspector-not-a-real-key'')])])])]"

record process_result =
  pr_stdout :: string
  pr_stderr :: string
  pr_code :: int

text \<open>\<open>run\<close> is what a process started with these arguments does, by its number in the session.\<close>

(* src/taxcalc-mcp-server/scripts/inspector_session.py:89-117 _inspector *)
definition inspector :: "(string list \<Rightarrow> process_result res) \<Rightarrow> string \<Rightarrow> string list \<Rightarrow> string res" where
  "inspector run config args =
     bind_res (run (INSPECTOR @ [''--config'', config, ''--server'', SERVER_NAME] @ args)) (\<lambda>proc.
       let combined = strip (pr_stdout proc @ pr_stderr proc) in
       if pr_code proc \<noteq> 0
       then Inl (OtherError ''SystemExit'' (''inspector failed ('' @ int_str (pr_code proc) @ ''):'' @ [CHR 0x0A] @ combined))
       else Inr combined)"

(* src/taxcalc-mcp-server/scripts/inspector_session.py:120-143 METHODS *)
definition METHODS :: "(string \<times> string list) list" where
  "METHODS = [(''tools/list'', [''--method'', ''tools/list'']),
     (''resources/list'', [''--method'', ''resources/list'']),
     (''tools/call orders.get_order'', [''--method'', ''tools/call'', ''--tool-name'', ''orders.get_order'',
        ''--tool-arg'', ''order_id=ord-synth-9001'', ''tenant_id=tenant-a'']),
     (''resources/read taxcalc://catalogue'', [''--method'', ''resources/read'', ''--uri'', ''taxcalc://catalogue''])]"

definition heading :: "string \<Rightarrow> string" where
  "heading label = [CHR 0x0A] @ ''$ npx @modelcontextprotocol/inspector --cli --method '' @ label"

text \<open>What was printed, how the loop ended, and whether the stub is still up.\<close>

record session_run =
  ss_printed :: "string list"
  ss_result :: "unit res"
  ss_stub_up :: bool

fun call_methods :: "(nat \<Rightarrow> string list \<Rightarrow> process_result res) \<Rightarrow> string \<Rightarrow> nat \<Rightarrow> (string \<times> string list) list \<Rightarrow> string list \<times> unit res" where
  "call_methods run config i [] = ([], Inr ())"
| "call_methods run config i ((label, args) # ms) = (case inspector (run i) config args of
      Inl e \<Rightarrow> ([heading label], Inl e)
    | Inr text \<Rightarrow> (let (out, r) = call_methods run config (Suc i) ms in (heading label # text # out, r)))"

(* src/taxcalc-mcp-server/scripts/inspector_session.py:146-162 main *)
definition inspector_main :: "(nat \<Rightarrow> string list \<Rightarrow> process_result res) \<Rightarrow> string \<Rightarrow> session_run" where
  "inspector_main run config = (let (out, r) = call_methods run config 0 METHODS in
     \<lparr>ss_printed = out, ss_result = r, ss_stub_up = False\<rparr>)"

lemma call_methods_headings:
  "call_methods run config i ms = (out, r) \<Longrightarrow>
     (r = Inr () \<longleftrightarrow> (\<forall>j < length ms. \<exists>t. inspector (run (i + j)) config (snd (ms ! j)) = Inr t))
     \<and> (r = Inr () \<longrightarrow> length out = 2 * length ms
          \<and> (\<forall>j < length ms. out ! (2 * j) = heading (fst (ms ! j)) \<and> inspector (run (i + j)) config (snd (ms ! j)) = Inr (out ! (2 * j + 1))))
     \<and> (r \<noteq> Inr () \<longrightarrow> odd (length out) \<and> out \<noteq> [] \<and> last out \<in> heading ` fst ` set ms)"
proof (induction run config i ms arbitrary: out r rule: call_methods.induct)
  case (2 run config i label args ms)
  show ?case
  proof (cases "inspector (run i) config args")
    case (Inl e)
    then show ?thesis using 2(2) by auto
  next
    case (Inr shown)
    then obtain out' where rest: "call_methods run config (Suc i) ms = (out', r)" "out = heading label # shown # out'"
      using 2(2) by (auto split: prod.splits)
    note ih = 2(1) [OF Inr rest(1)]
    show ?thesis using ih unfolding rest(2) by (auto simp: Inr less_Suc_eq_0_disj nth_Cons split: nat.splits)
  qed
qed simp

text \<open>
  The session succeeds exactly when all four calls exit with 0, and then the transcript is every call's
  heading followed by what it printed, in order; otherwise it ends at the heading of the call that
  failed. The stub is down afterwards either way.
\<close>

theorem inspector_transcript:
  "let s = inspector_main run config in
     (ss_result s = Inr () \<longleftrightarrow> (\<forall>j < 4. \<exists>t. inspector (run j) config (snd (METHODS ! j)) = Inr t))
     \<and> (ss_result s = Inr () \<longrightarrow> length (ss_printed s) = 8
          \<and> (\<forall>j < 4. ss_printed s ! (2 * j) = heading (fst (METHODS ! j)) \<and> inspector (run j) config (snd (METHODS ! j)) = Inr (ss_printed s ! (2 * j + 1))))
     \<and> (ss_result s \<noteq> Inr () \<longrightarrow> last (ss_printed s) \<in> heading ` fst ` set METHODS) \<and> \<not> ss_stub_up s"
proof -
  obtain out r where c: "call_methods run config 0 METHODS = (out, r)" by (cases "call_methods run config 0 METHODS")
  have n: "length METHODS = 4" by (simp add: METHODS_def)
  show ?thesis using call_methods_headings [OF c] by (auto simp: inspector_main_def c n Let_def)
qed

section \<open>The offline transform\<close>

text \<open>\<open>res["Properties"]["CodeUri"] = uri\<close>: item assignment on a dictionary.\<close>

definition PACKAGED :: json where "PACKAGED = JStr ''s3://taxcalc-sam-artifacts/packaged-artifact-placeholder''"

definition package_resource :: "json \<Rightarrow> json res" where
  "package_resource res = bind_res (json_get res ''Type'' JNull) (\<lambda>ty.
     if ty = JStr ''AWS::Serverless::Function''
     then bind_res (json_item res ''Properties'') (\<lambda>props. case (res, props) of
            (JObj r, JObj ps) \<Rightarrow> Inr (JObj (dict_set ''Properties'' (JObj (dict_set ''CodeUri'' PACKAGED ps)) r))
          | _ \<Rightarrow> Inl (TypeError ''item assignment''))
     else Inr res)"

(* src/scripts/sam-transform.py:28-38 OfflineManagedPolicyLoader.load *)
definition MANAGED_POLICIES :: "(string, string) dict" where
  "MANAGED_POLICIES =
     [(''AWSLambdaBasicExecutionRole'', ''arn:aws:iam::aws:policy/service-role/AWSLambdaBasicExecutionRole''),
      (''AWSLambdaRole'', ''arn:aws:iam::aws:policy/service-role/AWSLambdaRole''),
      (''AWSXrayWriteOnlyAccess'', ''arn:aws:iam::aws:policy/AWSXrayWriteOnlyAccess''),
      (''AWSLambdaVPCAccessExecutionRole'', ''arn:aws:iam::aws:policy/service-role/AWSLambdaVPCAccessExecutionRole'')]"

text \<open>\<open>for res in template.get("Resources", {}).values()\<close>: each resource is changed in place.\<close>

definition json_values :: "json \<Rightarrow> (string \<times> json) list res" where
  "json_values v = (case v of JObj d \<Rightarrow> Inr d | _ \<Rightarrow> Inl (OtherError ''AttributeError'' ''values''))"

(* src/scripts/sam-transform.py:45-50 packaging of main *)
definition package_template :: "json \<Rightarrow> json res" where
  "package_template template =
     bind_res (json_get template ''Resources'' (JObj [])) (\<lambda>rs. bind_res (json_values rs) (\<lambda>d.
     bind_res (map_res (\<lambda>(k, res). bind_res (package_resource res) (\<lambda>r. Inr (k, r))) d) (\<lambda>d'.
       case template of JObj t \<Rightarrow> Inr (JObj (if dict_get t ''Resources'' = None then t else dict_set ''Resources'' (JObj d') t))
         | _ \<Rightarrow> Inr template)))"

(* src/scripts/sam-transform.py:41-60 main *)
definition sam_main :: "((string, string) dict \<Rightarrow> json \<Rightarrow> (string, string) dict \<Rightarrow> json res) \<Rightarrow> json res \<Rightarrow> json res" where
  "sam_main translate template = bind_res template (\<lambda>t. bind_res (package_template t) (\<lambda>packaged.
     translate MANAGED_POLICIES packaged [(''StageName'', ''dev''), (''LogRetentionDays'', ''14'')]))"

text \<open>
  What reaches the translator has the packaged location in every function, the same resources under the
  same names in the same order, and every resource that is no function unchanged.
\<close>

lemma packaged_names:
  "map_res (\<lambda>(k, res). bind_res (package_resource res) (\<lambda>r. Inr (k, r))) d = Inr d' \<Longrightarrow> map fst d' = map fst d"
  by (induction d arbitrary: d') (auto simp: bind_res_def split: sum.splits)

lemma packaged_each:
  assumes "map_res (\<lambda>(k, res). bind_res (package_resource res) (\<lambda>r. Inr (k, r))) d = Inr d'" and "(k, w) \<in> set d'"
  shows "\<exists>res. (k, res) \<in> set d \<and> package_resource res = Inr w"
proof -
  obtain i where i: "i < length d'" "d' ! i = (k, w)" using assms(2) by (metis in_set_conv_nth)
  obtain k' res where r: "d ! i = (k', res)" by (cases "d ! i")
  have l: "i < length d" using i(1) map_res_length [OF assms(1)] by simp
  have "bind_res (package_resource res) (\<lambda>r. Inr (k', r)) = Inr (k, w)" using map_res_nth [OF assms(1) l] i(2) r by simp
  then have "k' = k" "package_resource res = Inr w" by (auto simp: bind_res_eq_Inr)
  then show ?thesis using nth_mem [OF l] r by auto
qed

definition package_properties :: "jdict \<Rightarrow> json option \<Rightarrow> json res" where
  "package_properties x v = (case v of None \<Rightarrow> Inl (KeyError ''Properties'')
     | Some (JObj ps) \<Rightarrow> Inr (JObj (dict_set ''Properties'' (JObj (dict_set ''CodeUri'' PACKAGED ps)) x))
     | Some _ \<Rightarrow> Inl (TypeError ''item assignment''))"

lemma package_resource_obj:
  "package_resource (JObj x) = (if get_or x ''Type'' JNull = JStr ''AWS::Serverless::Function''
     then package_properties x (dict_get x ''Properties'') else Inr (JObj x))"
  by (cases "dict_get x ''Properties''")
    (simp_all add: package_resource_def json_get_def json_item_def package_properties_def split: json.splits)

lemma packaged_object: "package_resource v = Inr w \<Longrightarrow> \<exists>x. v = JObj x"
  by (cases v) (simp_all add: package_resource_def json_get_def)

lemma packaged_properties: "package_properties x v = Inr w \<Longrightarrow>
    \<exists>ps. v = Some (JObj ps) \<and> w = JObj (dict_set ''Properties'' (JObj (dict_set ''CodeUri'' PACKAGED ps)) x)"
  unfolding package_properties_def by (cases v) (auto split: json.splits)

definition packaged_from :: "jdict \<Rightarrow> json \<Rightarrow> bool" where
  "packaged_from r res' = (if get_or r ''Type'' JNull = JStr ''AWS::Serverless::Function''
            then \<exists>ps r' ps'. res' = JObj r' \<and> dict_get r ''Properties'' = Some (JObj ps) \<and> dict_get r' ''Properties'' = Some (JObj ps')
                 \<and> dict_get ps' ''CodeUri'' = Some PACKAGED \<and> (\<forall>p. p \<noteq> ''CodeUri'' \<longrightarrow> dict_get ps' p = dict_get ps p)
            else res' = JObj r)"

theorem transform_packages_functions:
  assumes "package_template (JObj t) = Inr (JObj t')" and "dict_get t ''Resources'' = Some (JObj d)"
  shows "\<exists>d'. dict_get t' ''Resources'' = Some (JObj d') \<and> map fst d' = map fst d
    \<and> (\<forall>(k, res') \<in> set d'. \<exists>r. (k, JObj r) \<in> set d
         \<and> packaged_from r res')"
proof -
  obtain d' where m: "map_res (\<lambda>(k, res). bind_res (package_resource res) (\<lambda>r. Inr (k, r))) d = Inr d'"
    and t': "t' = dict_set ''Resources'' (JObj d') t"
    using assms by (auto simp: package_template_def json_get_def get_or_def json_values_def bind_res_eq_Inr)
  have "\<exists>r. (k, JObj r) \<in> set d
         \<and> packaged_from r res'" if mem: "(k, res') \<in> set d'" for k res'
  proof -
    obtain res where r: "(k, res) \<in> set d" "package_resource res = Inr res'" using packaged_each [OF m mem] by blast
    obtain x where x: "res = JObj x" using packaged_object [OF r(2)] by blast
    show ?thesis
    proof (cases "get_or x ''Type'' JNull = JStr ''AWS::Serverless::Function''")
      case True
      have "package_properties x (dict_get x ''Properties'') = Inr res'" using r(2) True unfolding x package_resource_obj by simp
      then obtain ps where ps: "dict_get x ''Properties'' = Some (JObj ps)"
        "res' = JObj (dict_set ''Properties'' (JObj (dict_set ''CodeUri'' PACKAGED ps)) x)" using packaged_properties by blast
      have "packaged_from x res'" unfolding packaged_from_def ps(2) using True ps(1) by simp
      then show ?thesis using r(1) x by blast
    next
      case False
      then have "packaged_from x res'" using r(2) by (simp add: x package_resource_obj packaged_from_def)
      then show ?thesis using r(1) x by blast
    qed
  qed
  then show ?thesis using t' packaged_names [OF m] by auto
qed

end
