(* ===== verification/Spec2Isabelle.thy ===== *)
theory Spec2Isabelle
  imports AgentApp RagHistory AgentGraph Services LlmClient Trajectory BudgetDeny TrustPolicy Replay IngestDag RagasReport
    TraceChecks EcrShim OpsScripts
begin

text \<open>
  A verification development for a tax-liability assistant: the Python services that answer a
  question from a tenant's document corpus and from order and filing tools.

  The program. \<open>taxcalc-agent-svc\<close> is an HTTP service around a graph of three nodes. The supervisor
  (\<open>graph.py\<close>) routes a question by keyword to the retrieval node, the API node, or both; the two
  legs run in one super-step, their contributions are merged into the state by one reducer per slot
  (\<open>state.py\<close>), and the synthesis node writes the validated answer. A node runs under a deadline
  (\<open>nodes/_deadline.py\<close>) and every paid model call under the request's budget guard
  (\<open>budgets.py\<close>). The events of a run are bridged to server-sent events (\<open>sse.py\<close>); the graph and
  the tool session are opened lazily and shared (\<open>runtime.py\<close>). \<open>taxcalc-ai\<close> holds the retrieval
  pipeline the retrieval node calls: chunking, ingestion with a content-hash gate, dense and lexical
  retrieval with rank fusion, diversification, reranking, generation and a per-tenant answer cache;
  it also holds the response models of the language-model client, the client that retries, and the
  command line that prints a request. \<open>taxcalc-mcp-server\<close> is the tool server the API node calls: four
  tools over the order service, the completion proxy and the retrieval pipeline, behind a bearer check,
  a tenant cross-check and a table of error codes. \<open>evals/trajectory.py\<close> scores the agent's paths.

  Which theory models what (paths below \<open>src/taxcalc-agent-svc/src/taxcalc_agent_svc\<close>,
  \<open>src/taxcalc-ai/src/taxcalc_ai\<close> and \<open>src/taxcalc-mcp-server/src/taxcalc_mcp_server\<close>):
    Prelude: results (\<open>Inl\<close> an exception, \<open>Inr\<close> a value), Python dicts as association lists in
      insertion order, list helpers, three \<open>named_theorems\<close> collections;
    PyText: strip, lower, join, decimal numerals, prefix and substring tests;
    Json: JSON values, \<open>json.dumps\<close> and \<open>json.loads\<close>, truthiness, \<open>str\<close>, \<open>int\<close> and \<open>float\<close>;
    Budgets: \<open>budgets.py\<close>; Llm: the replies of the model API the nodes read;
    AgentState: \<open>state.py\<close>; Deadline: \<open>nodes/_deadline.py\<close>; Deps: \<open>deps.py\<close>, \<open>run_config\<close>;
    ApiNode, RetrievalNode, SynthesisNode: \<open>nodes/*.py\<close> and \<open>retrievers.py\<close>;
    AgentGraph: \<open>graph.py\<close>; SseBridge: \<open>sse.py\<close>; Runtime: \<open>runtime.py\<close>;
    AgentApp: \<open>app.py\<close>, \<open>settings.py\<close>;
    Chunker: \<open>chunker.py\<close>; CorpusStore: \<open>corpus.py\<close>, \<open>embedder.py\<close>, \<open>pgvector_loader.py\<close>;
    Cache: \<open>cache.py\<close>; Hybrid: \<open>hybrid.py\<close>; Rerank: \<open>rerank.py\<close>; RagPipeline: \<open>rag.py\<close>;
    RagHistory: the pipeline over a history of requests and epoch bumps on one cache;
    Decimal: the decimal numbers of the money fields; McpCore: \<open>numeric.py\<close>, \<open>errors.py\<close>,
      \<open>tenancy.py\<close>, \<open>settings.py\<close>, \<open>observability.py\<close>; McpTools: \<open>tools/*.py\<close>; McpServer: \<open>app.py\<close>,
      \<open>transports/*.py\<close>; McpLaws, McpEdge: the properties of the tool server;
    Services: the agent, the tool server and the pipeline put together;
    TaxModels: \<open>models.py\<close>, \<open>cli.py\<close>; LlmClient: \<open>client.py\<close>, \<open>value_types.py\<close>, \<open>settings.py\<close>,
      \<open>metrics.py\<close>; Trajectory: \<open>evals/trajectory.py\<close>, \<open>scripts/eval.py\<close>;
    PolicyMatch: wildcards and the reading of a policy document, shared by BudgetDeny
      (\<open>scripts/simulate_budget_deny.py\<close> of the agent) and TrustPolicy (\<open>src/scripts/oidc-trust-simulate.py\<close>);
    Replay: \<open>scripts/replay.py\<close> of the tool server; IngestDag: \<open>dags/rag_svc_ingest.py\<close>;
    RagasReport: \<open>eval/run_ragas.py\<close>; TraceChecks: \<open>retrieve_chunks\<close> of \<open>rag.py\<close> and the scripts that ask
      the tracing service, \<open>scripts/assert_langsmith_run_visible.py\<close> and \<open>scripts/assert_spans_visible.py\<close>;
    EcrShim: \<open>src/scripts/ecr-describe-images-shim.py\<close>; OpsScripts: \<open>scripts/healthcheck.py\<close>,
      \<open>scripts/smoke.py\<close>, \<open>scripts/inspector_session.py\<close> and \<open>src/scripts/sam-transform.py\<close>.
  A comment before a definition names the lines it translates.

  State and operations. Mutable objects are records that every operation returns updated: the guard,
  the state of a node's loop (its turns, calls and bills), the dependency holder, the table of rows,
  the Redis keys with their expiry. Awaited work of the environment is an argument: a model call is
  a function of the conversation, a tool call of its position, name and arguments, an attempt to
  connect of its number, an elapsed time of the batch. A body under a deadline is the value it
  finished with or a cut-off. Money is in integer units; floats are exact rationals together with
  the rounding function \<open>fl\<close> and the writer \<open>fr\<close>, which are arguments; a theorem that needs a float
  to survive a round trip says so of the floats it is about. Text is a list of characters.

  Interfaces are locales: an accountant that is checked before and charged after each call
  (Budgets), a store whose keys have owners (CorpusStore), a store whose entries expire (Cache), a
  reranker that may fail softly (Rerank, interpreted on both backends), a tool that runs inside a span
  and refuses another tenant (McpTools, interpreted on the four tools) and a published function that
  validates before it runs (McpLaws). Each is interpreted on the code's own operations.

  What the lemmas show. Budgets and the nodes: a request's spend stays below the ceiling plus one
  call, loops are bounded, every call is billed. ApiNode: tenant and idempotency key are injected
  whatever the model proposes, the conversation obeys the protocol, and what the key covers.
  SynthesisNode, SseBridge: an answer that leaves is valid, arrives as it was validated, and the
  frames form the documented grammar. AgentGraph, AgentState: a run has two super-steps, the fan-in
  is independent of the order of the legs, deadlines degrade. Runtime, AgentApp: bounded opening,
  the reconnect loop, a fresh guard per request, a startup that no dependency can stop. CorpusStore,
  Hybrid, Rerank, Cache, RagPipeline: tenant isolation of what is written, retrieved, cited and cached, idempotent ingestion, fusion and
  diversification against their definitions, fallbacks. McpLaws, McpEdge, Services: what a
  call may name, which error code a client sees, that money keeps its digits on the wire, and that the
  pieces agree when the agent calls the server. TaxModels, LlmClient: what a parsed value satisfies,
  when a retry stops, that an estimate answers the request it was made for. Trajectory: the path score
  is the subsequence relation, the router meets the committed suite, and what a passing gate has
  measured. CorpusStore: the loader is an update of a map, all or nothing. IngestDag: the five
  tasks of the daily ingest with their retries on CorpusStore and Cache; rows are written as a whole or not
  at all, caches are dropped only over current rows, and faults within the retries change nothing.
  BudgetDeny, TrustPolicy: the matcher against the language of a pattern, what the committed policies deny
  and allow, and what an exit code of zero has checked. Replay: the percentile's rank, and when the
  latency gate is red. RagasReport: a column of the evaluation asks anew under its own flags, the file keeps
  its prose, a cell reads back, and the filter column repeats the baseline. TraceChecks: the nearest
  passages, no row before the whole migration, when each gate is green, and that its loop ends. EcrShim: a
  reply is about the manifests the registry serves, and its two calls agree. OpsScripts: what the smoke
  run shows of a checkpointed thread, the transcript of the inspector, the packaged template. Some
  properties record what the code does
  against its own comments; the manifest lists them as findings.

  Bounds and fuel. The JSON reader has fuel twice the length of the text plus one, which the
  round-trip lemma shows to be enough for every value the writer produces; the tool loop, the
  attempts of synthesis and the retries are the code's own bounds; super-steps are the recursion
  limit; the reconnect loop takes the number of rounds as fuel, and reaching the first round that
  succeeds is shown to need no more; the loop that polls for a span takes a number of questions, of which
  sixteen are shown to be enough when the clock moves on with the pauses.

  Not modelled: logging, metrics and tracing; the database, Redis, the HTTP stacks and the embedding
  and reranking models beyond what the code asks of them; the tool server's lifespan and route registration;
  imports, the parsing of command lines, and printing.
\<close>

end
